(* ===== verification/Prelude.thy ===== *)
theory Prelude
  imports Main "HOL-Library.Word" "HOL-Library.List_Lexorder" "HOL-Library.Product_Lexorder"
begin

text \<open>
  What every component of the development shares: the machine integers, Rust's
  \<open>Result\<close> and its \<open>?\<close> operator, the standard library's \<open>BTreeMap\<close> (the interface
  \<open>ordered_map\<close> and its interpretation on sorted association lists), big-endian
  integer encodings (the interface \<open>fixed_codec\<close>), decimal rendering and the bytes
  of a string.
\<close>

named_theorems wf_intros \<open>introduction rules for the well-formedness predicates\<close>
named_theorems inv_simps \<open>how the operations read back the fields they leave alone\<close>

section \<open>Machine integers and results\<close>

type_synonym u8 = "8 word"
type_synonym u32 = "32 word"
type_synonym u64 = "64 word"
type_synonym bytes = "u8 list"

text \<open>A round identifier is a newtype of \<open>u64\<close>; its arithmetic is that of the word.\<close>

type_synonym round_id = u64

definition and_then :: "'e + 'a \<Rightarrow> ('a \<Rightarrow> 'e + 'b) \<Rightarrow> 'e + 'b" where
  "and_then r k = (case r of Inl e \<Rightarrow> Inl e | Inr x \<Rightarrow> k x)"

lemma and_then_simps [simp]:
  "and_then (Inl e) k = Inl e" "and_then (Inr x) k = k x"
  by (simp_all add: and_then_def)

lemma and_then_Inr [simp]:
  "and_then r k = Inr y \<longleftrightarrow> (\<exists>x. r = Inr x \<and> k x = Inr y)"
  by (cases r) auto

lemma and_then_Inl:
  "and_then r k = Inl e \<longleftrightarrow> r = Inl e \<or> (\<exists>x. r = Inr x \<and> k x = Inl e)"
  by (cases r) auto

lemma case_sum_map_err [simp]:
  "(case r of Inl e \<Rightarrow> Inl (f e) | Inr x \<Rightarrow> k x) = Inr y \<longleftrightarrow> (\<exists>x. r = Inr x \<and> k x = Inr y)"
  by (cases r) auto

definition ok_or :: "'e \<Rightarrow> 'a option \<Rightarrow> 'e + 'a" where
  "ok_or e x = (case x of None \<Rightarrow> Inl e | Some v \<Rightarrow> Inr v)"

lemma ok_or_simps [simp]: "ok_or e None = Inl e" "ok_or e (Some v) = Inr v"
  by (simp_all add: ok_or_def)

lemma ok_or_Inr [simp]: "ok_or e x = Inr v \<longleftrightarrow> x = Some v"
  by (cases x) auto

definition is_ok :: "'e + 'a \<Rightarrow> bool" where
  "is_ok r = (case r of Inl _ \<Rightarrow> False | Inr _ \<Rightarrow> True)"

lemma is_ok_simps [simp]: "\<not> is_ok (Inl e)" "is_ok (Inr x)"
  by (simp_all add: is_ok_def)

lemma is_ok_iff: "is_ok r \<longleftrightarrow> (\<exists>x. r = Inr x)"
  by (cases r) auto

text \<open>A \<open>for\<close> loop whose body may leave the function with \<open>?\<close>: state first.\<close>

fun try_fold :: "('a \<Rightarrow> 's \<Rightarrow> 'e + 's) \<Rightarrow> 'a list \<Rightarrow> 's \<Rightarrow> 'e + 's" where
  "try_fold f [] s = Inr s"
| "try_fold f (x # xs) s = and_then (f x s) (try_fold f xs)"

lemma try_fold_append:
  "try_fold f (xs @ ys) s = and_then (try_fold f xs s) (try_fold f ys)"
  by (induction xs arbitrary: s) (auto simp: and_then_def split: sum.splits)

lemma try_fold_invariant:
  assumes "try_fold f xs s = Inr s'" and "P s"
    and "\<And>x s s'. x \<in> set xs \<Longrightarrow> P s \<Longrightarrow> f x s = Inr s' \<Longrightarrow> P s'"
  shows "P s'"
  using assms by (induction xs arbitrary: s) auto

lemma try_fold_total:
  assumes "P s" and "\<And>x s. x \<in> set xs \<Longrightarrow> P s \<Longrightarrow> \<exists>s'. f x s = Inr s' \<and> P s'"
  shows "\<exists>s'. try_fold f xs s = Inr s' \<and> P s'"
  using assms
proof (induction xs arbitrary: s)
  case (Cons x xs)
  then obtain s1 where s1: "f x s = Inr s1" "P s1" by (meson list.set_intros(1))
  then have "\<exists>s'. try_fold f xs s1 = Inr s' \<and> P s'" using Cons by auto
  with s1 show ?case by simp
qed simp

text \<open>Handling a list of messages, each known to satisfy \<open>Q\<close>.\<close>

lemma foldl_messages:
  assumes "I s" and "\<forall>m \<in> set ms. Q m" and "\<And>m s. Q m \<Longrightarrow> I s \<Longrightarrow> I (body m s)"
  shows "I (foldl (\<lambda>s m. body m s) s ms)"
  using assms by (induction ms arbitrary: s) auto

fun try_map :: "('a \<Rightarrow> 'e + 'b) \<Rightarrow> 'a list \<Rightarrow> 'e + 'b list" where
  "try_map f [] = Inr []"
| "try_map f (x # xs) = and_then (f x) (\<lambda>y. and_then (try_map f xs) (\<lambda>ys. Inr (y # ys)))"

lemma try_map_Inr:
  "try_map f xs = Inr ys \<longleftrightarrow> list_all2 (\<lambda>x y. f x = Inr y) xs ys"
  by (induction xs arbitrary: ys) (auto simp: list_all2_Cons1)

lemma try_map_Inl: "try_map f xs = Inl e \<Longrightarrow> \<exists>x \<in> set xs. f x = Inl e"
  by (induction xs) (auto simp: and_then_Inl)

lemma map_filter_append: "List.map_filter f (xs @ ys) = List.map_filter f xs @ List.map_filter f ys"
  by (simp add: List.map_filter_def)

section \<open>Ordered maps\<close>

text \<open>
  The operations of \<open>std::collections::BTreeMap\<close> the program calls, and their contract:
  a lookup sees the last insertion, iteration is in strictly increasing key order and
  visits exactly the keys present.
\<close>

locale ordered_map =
  fixes empty :: "'m"
    and get :: "'m \<Rightarrow> 'k::linorder \<Rightarrow> 'v option"
    and put :: "'k \<Rightarrow> 'v \<Rightarrow> 'm \<Rightarrow> 'm"
    and keys :: "'m \<Rightarrow> 'k list"
    and inv :: "'m \<Rightarrow> bool"
  assumes get_empty: "get empty k = None"
    and get_put: "get (put k v m) j = (if j = k then Some v else get m j)"
    and inv_empty: "inv empty"
    and inv_put: "inv m \<Longrightarrow> inv (put k v m)"
    and keys_get: "set (keys m) = {k. get m k \<noteq> None}"
    and keys_sorted: "inv m \<Longrightarrow> sorted_wrt (<) (keys m)"
begin

lemma get_put_same: "get (put k v m) k = Some v"
  by (simp add: get_put)

lemma get_put_other: "j \<noteq> k \<Longrightarrow> get (put k v m) j = get m j"
  by (simp add: get_put)

lemma keys_put: "set (keys (put k v m)) = insert k (set (keys m))"
  by (auto simp: keys_get get_put)

lemma keys_distinct: "inv m \<Longrightarrow> distinct (keys m)"
  using keys_sorted strict_sorted_iff by blast

lemma keys_determined:
  assumes "inv m" "inv n" "\<And>k. get m k = get n k"
  shows "keys m = keys n"
proof -
  have "set (keys m) = set (keys n)" using assms(3) by (simp add: keys_get)
  moreover have "sorted (keys m)" "sorted (keys n)" "distinct (keys m)" "distinct (keys n)"
    using assms(1,2) keys_sorted strict_sorted_iff by blast+
  ultimately show ?thesis by (metis sorted_distinct_set_unique)
qed

lemma put_twice: "get (put k v (put k w m)) = get (put k v m)"
  by (simp add: fun_eq_iff get_put)

lemma inv_fold_put: "inv m \<Longrightarrow> inv (fold (\<lambda>(k, v). put k v) kvs m)"
  by (induction kvs arbitrary: m) (auto simp: inv_put)

end

text \<open>The implementation the model runs on: an association list sorted by key.\<close>

type_synonym ('k, 'v) btree_map = "('k \<times> 'v) list"

fun bt_insert :: "'k::linorder \<Rightarrow> 'v \<Rightarrow> ('k, 'v) btree_map \<Rightarrow> ('k, 'v) btree_map" where
  "bt_insert k v [] = [(k, v)]"
| "bt_insert k v ((a, b) # m) =
     (if k < a then (k, v) # (a, b) # m
      else if k = a then (k, v) # m
      else (a, b) # bt_insert k v m)"

definition bt_get :: "('k, 'v) btree_map \<Rightarrow> 'k \<Rightarrow> 'v option" where
  "bt_get m k = map_of m k"

definition bt_keys :: "('k, 'v) btree_map \<Rightarrow> 'k list" where
  "bt_keys m = map fst m"

definition bt_contains :: "('k, 'v) btree_map \<Rightarrow> 'k \<Rightarrow> bool" where
  "bt_contains m k \<longleftrightarrow> bt_get m k \<noteq> None"

definition bt_sorted :: "('k::linorder, 'v) btree_map \<Rightarrow> bool" where
  "bt_sorted m \<longleftrightarrow> sorted_wrt (<) (bt_keys m)"

lemma bt_get_insert: "bt_get (bt_insert k v m) j = (if j = k then Some v else bt_get m j)"
  by (induction k v m rule: bt_insert.induct) (auto simp: bt_get_def)

lemma set_bt_keys: "set (bt_keys m) = {k. bt_get m k \<noteq> None}"
  by (simp add: bt_keys_def bt_get_def map_of_eq_None_iff)

lemma bt_keys_insert: "set (bt_keys (bt_insert k v m)) = insert k (set (bt_keys m))"
  by (auto simp: set_bt_keys bt_get_insert)

lemma bt_sorted_insert: "bt_sorted m \<Longrightarrow> bt_sorted (bt_insert k v m)"
proof (induction k v m rule: bt_insert.induct)
  case (1 k v)
  then show ?case by (simp add: bt_sorted_def bt_keys_def)
next
  case (2 k v a b m)
  then show ?case
    using bt_keys_insert [of k v m] by (auto simp: bt_sorted_def bt_keys_def)
qed

interpretation bt: ordered_map "[]" bt_get bt_insert bt_keys bt_sorted
  by unfold_locales
    (simp_all add: bt_get_insert bt_sorted_insert set_bt_keys,
      simp_all add: bt_get_def bt_sorted_def bt_keys_def)

lemma bt_get_Nil [simp]: "bt_get [] k = None"
  by (simp add: bt_get_def)

lemma bt_get_iff_mem: "bt_sorted m \<Longrightarrow> bt_get m k = Some v \<longleftrightarrow> (k, v) \<in> set m"
  unfolding bt_get_def using bt.keys_distinct [of m] by (auto simp: bt_keys_def)

lemma bt_get_mem: "bt_get m k = Some v \<Longrightarrow> (k, v) \<in> set m"
  unfolding bt_get_def by (rule map_of_SomeD)

section \<open>Big-endian integers\<close>

text \<open>An encoding into a fixed number of bytes, as \<open>to_be_bytes\<close>/\<open>from_be_bytes\<close> give.\<close>

locale fixed_codec =
  fixes enc :: "'a \<Rightarrow> bytes" and dec :: "bytes \<Rightarrow> 'a" and width :: nat
  assumes enc_width: "length (enc x) = width"
    and dec_enc: "dec (enc x) = x"
begin

lemma enc_inject: "enc x = enc y \<longleftrightarrow> x = y"
  by (metis dec_enc)

lemma enc_append_inject: "enc x @ r = enc y @ s \<longleftrightarrow> x = y \<and> r = s"
  by (simp add: append_eq_append_conv enc_width enc_inject)

lemma dec_take: "dec (take width (enc x @ r)) = x"
  by (simp add: enc_width dec_enc)

lemma drop_enc: "drop width (enc x @ r) = r"
  by (simp add: enc_width)

end

fun be_enc :: "nat \<Rightarrow> nat \<Rightarrow> bytes" where
  "be_enc 0 x = []"
| "be_enc (Suc n) x = be_enc n (x div 256) @ [word_of_nat (x mod 256)]"

definition be_dec :: "bytes \<Rightarrow> nat" where
  "be_dec bs = foldl (\<lambda>a b. a * 256 + unat b) 0 bs"

lemma length_be_enc [simp]: "length (be_enc n x) = n"
  by (induction n arbitrary: x) auto

lemma be_dec_enc: "x < 256 ^ n \<Longrightarrow> be_dec (be_enc n x) = x"
proof (induction n arbitrary: x)
  case 0
  then show ?case by (simp add: be_dec_def)
next
  case (Suc n)
  have "x div 256 < 256 ^ n"
    using Suc.prems by (simp add: less_mult_imp_div_less mult.commute)
  then have "be_dec (be_enc n (x div 256)) = x div 256" by (rule Suc.IH)
  then show ?case by (simp add: be_dec_def unat_of_nat take_bit_eq_mod)
qed

definition u64_be :: "u64 \<Rightarrow> bytes" where
  "u64_be w = be_enc 8 (unat w)"

definition u64_from_be :: "bytes \<Rightarrow> u64" where
  "u64_from_be bs = word_of_nat (be_dec bs)"

definition u32_be :: "u32 \<Rightarrow> bytes" where
  "u32_be w = be_enc 4 (unat w)"

definition u32_from_be :: "bytes \<Rightarrow> u32" where
  "u32_from_be bs = word_of_nat (be_dec bs)"

lemma unat_u64_bound: "unat (w :: u64) < 256 ^ 8"
  using unsigned_less [where ?'a = nat, of w] by simp

lemma unat_u32_bound: "unat (w :: u32) < 256 ^ 4"
  using unsigned_less [where ?'a = nat, of w] by simp

interpretation u64c: fixed_codec u64_be u64_from_be 8
  by unfold_locales (simp_all add: u64_be_def u64_from_be_def be_dec_enc [OF unat_u64_bound])

interpretation u32c: fixed_codec u32_be u32_from_be 4
  by unfold_locales (simp_all add: u32_be_def u32_from_be_def be_dec_enc [OF unat_u32_bound])

lemmas codec_widths [simp] = u64c.enc_width u32c.enc_width
lemmas codec_roundtrips [simp] = u64c.dec_enc u32c.dec_enc

section \<open>Strings\<close>

text \<open>
  A Rust \<open>str\<close> is its UTF-8 bytes; a \<open>string\<close> holds one \<open>char\<close> per byte.
\<close>

definition str_bytes :: "string \<Rightarrow> bytes" where
  "str_bytes s = map (\<lambda>c. word_of_nat (of_char c)) s"

lemma length_str_bytes [simp]: "length (str_bytes s) = length s"
  by (simp add: str_bytes_def)

lemma str_bytes_Nil_iff [simp]: "str_bytes s = [] \<longleftrightarrow> s = []"
  by (simp add: str_bytes_def)

lemma byte_of_char_inj: "(word_of_nat (of_char c) :: u8) = word_of_nat (of_char d) \<longleftrightarrow> c = d"
proof
  assume "(word_of_nat (of_char c) :: u8) = word_of_nat (of_char d)"
  then have "unat (word_of_nat (of_char c) :: u8) = unat (word_of_nat (of_char d) :: u8)"
    by simp
  then have "(of_char c :: nat) = of_char d"
    by (simp add: unat_of_nat take_bit_eq_mod)
  then show "c = d" by simp
qed simp

lemma inj_byte_of_char: "inj (\<lambda>c. word_of_nat (of_char c) :: u8)"
  by (rule injI) (simp only: byte_of_char_inj)

lemma str_bytes_inject: "str_bytes s = str_bytes t \<longleftrightarrow> s = t"
  by (simp add: str_bytes_def inj_map_eq_map [OF inj_byte_of_char])

text \<open>The decimal rendering of \<open>u64\<close> values in messages and reason codes.\<close>

fun show_nat :: "nat \<Rightarrow> string" where
  "show_nat n =
     (if n < 10 then [char_of (48 + n)] else show_nat (n div 10) @ [char_of (48 + n mod 10)])"

declare show_nat.simps [simp del]

lemma show_nat_nonempty [simp]: "show_nat n \<noteq> []"
  by (subst show_nat.simps) simp

definition show_u64 :: "u64 \<Rightarrow> string" where
  "show_u64 w = show_nat (unat w)"

lemma show_u64_nonempty [simp]: "show_u64 w \<noteq> []"
  by (simp add: show_u64_def)

section \<open>Searching lists\<close>

lemma find_Some_mem: "List.find P xs = Some x \<Longrightarrow> x \<in> set xs \<and> P x"
  by (induction xs) (auto split: if_splits)

lemma find_is_Some: "x \<in> set xs \<Longrightarrow> P x \<Longrightarrow> \<exists>y. List.find P xs = Some y"
  by (induction xs) auto

lemma find_unique:
  assumes "x \<in> set xs" "P x" "\<And>y. y \<in> set xs \<Longrightarrow> P y \<Longrightarrow> y = x"
  shows "List.find P xs = Some x"
  using assms by (metis find_Some_mem find_is_Some)

lemma find_append: "List.find P (xs @ ys) =
    (case List.find P xs of None \<Rightarrow> List.find P ys | Some x \<Rightarrow> Some x)"
  by (induction xs) auto

lemma distinct_map_find:
  assumes "distinct (map f xs)" "x \<in> set xs"
  shows "List.find (\<lambda>y. f y = f x) xs = Some x"
  using assms by (intro find_unique) (auto simp: distinct_map inj_on_def)

section \<open>Registers that accept a key once\<close>

text \<open>
  A method with a \<open>&mut self\<close> receiver is a function from the state to its result and the
  state it leaves behind, on the error paths too.

  Two components accept records that carry a key and promise that no key is accepted
  twice: the round machine (by node, within a round) and the coordination log (by node and
  round). \<open>once_register\<close> is that contract; a rejected record leaves the state as it was.
\<close>

locale once_register =
  fixes accept :: "'r \<Rightarrow> 's \<Rightarrow> ('e + unit) \<times> 's"
    and recorded :: "'s \<Rightarrow> 'r set" and key :: "'r \<Rightarrow> 'k" and wf :: "'s \<Rightarrow> bool"
  assumes accept_err: "accept r s = (Inl e, s') \<Longrightarrow> s' = s"
    and accept_ok: "wf s \<Longrightarrow> accept r s = (Inr (), s') \<Longrightarrow>
      wf s' \<and> key r \<notin> key ` recorded s \<and> recorded s' = insert r (recorded s)"
    and wf_inj: "wf s \<Longrightarrow> inj_on key (recorded s)"
begin

lemma accept_wf: "wf s \<Longrightarrow> wf (snd (accept r s))"
  using accept_err accept_ok
  by (cases "accept r s") (metis obj_sumE old.unit.exhaust snd_conv)

lemma accept_twice:
  assumes "wf s" "accept r s = (Inr (), s')" "key r' = key r"
  shows "\<exists>e. accept r' s' = (Inl e, s')"
proof (cases "accept r' s'")
  case (Pair res s'')
  show ?thesis
  proof (cases res)
    case (Inl e)
    with Pair show ?thesis using accept_err by blast
  next
    case (Inr u)
    with Pair have "accept r' s' = (Inr (), s'')" by simp
    with accept_ok [OF assms(1,2)] assms(3) show ?thesis
      using accept_ok [of s' r' s''] by auto
  qed
qed

text \<open>Offering any sequence of records, ignoring the refusals.\<close>

primrec offer_all :: "'r list \<Rightarrow> 's \<Rightarrow> 's" where
  "offer_all [] s = s"
| "offer_all (r # rs) s = offer_all rs (snd (accept r s))"

lemma offer_all_wf: "wf s \<Longrightarrow> wf (offer_all rs s)"
  by (induction rs arbitrary: s) (simp_all add: accept_wf)

lemma offer_all_inj: "wf s \<Longrightarrow> inj_on key (recorded (offer_all rs s))"
  by (rule wf_inj [OF offer_all_wf])

end

end
