(* ===== verification/Crates.thy ===== *)
theory Crates
  imports Prelude
begin

text \<open>
  The third-party crates the program calls: \<open>hex\<close>, \<open>blake2\<close> (Blake2s-256) and
  \<open>ed25519-dalek\<close>. Their code is not part of the repository, so they are a parameter of
  the model: a record of functions, with what their documentation promises as the named
  predicates \<open>hex_ok\<close>, \<open>blake_ok\<close> and \<open>ed_ok\<close>. \<open>sample_crates\<close> is a concrete
  instance on which the witnesses evaluate; nothing about the program is proved from it.
\<close>

record crates =
  hex_encode :: "bytes \<Rightarrow> string"            \<comment> \<open>\<open>hex::encode\<close>\<close>
  hex_decode :: "string \<Rightarrow> bytes option"     \<comment> \<open>\<open>hex::decode\<close>, \<open>None\<close> for its error\<close>
  blake2s :: "bytes \<Rightarrow> bytes"                \<comment> \<open>\<open>Blake2s256\<close>: \<open>update\<close>* then \<open>finalize_fixed\<close>\<close>
  ed_public :: "bytes \<Rightarrow> bytes"              \<comment> \<open>\<open>SigningKey::from_bytes(seed).verifying_key()\<close>\<close>
  ed_point_ok :: "bytes \<Rightarrow> bool"             \<comment> \<open>\<open>VerifyingKey::from_bytes\<close> succeeds\<close>
  ed_sign :: "bytes \<Rightarrow> bytes \<Rightarrow> bytes"       \<comment> \<open>seed, message\<close>
  ed_verify :: "bytes \<Rightarrow> bytes \<Rightarrow> bytes \<Rightarrow> bool" \<comment> \<open>public key, message, signature\<close>

text \<open>The character class \<open>'0'..='9' | 'a'..='f'\<close> the program tests for.\<close>

definition lower_hex :: "char \<Rightarrow> bool" where
  "lower_hex c \<longleftrightarrow>
     (let n = (of_char c :: nat) in (48 \<le> n \<and> n \<le> 57) \<or> (97 \<le> n \<and> n \<le> 102))"

text \<open>
  \<open>hex::encode\<close> yields lowercase pairs; \<open>hex::decode\<close> is its left inverse, is total on
  lowercase strings of even length (where it is also a right inverse), and halves the length.
\<close>

definition hex_ok :: "crates \<Rightarrow> bool" where
  "hex_ok c \<longleftrightarrow>
     (\<forall>bs. hex_decode c (hex_encode c bs) = Some bs) \<and>
     (\<forall>bs. list_all lower_hex (hex_encode c bs)) \<and>
     (\<forall>bs. length (hex_encode c bs) = 2 * length bs) \<and>
     (\<forall>s bs. hex_decode c s = Some bs \<longrightarrow> length s = 2 * length bs) \<and>
     (\<forall>s. list_all lower_hex s \<and> even (length s) \<longrightarrow>
        (\<exists>bs. hex_decode c s = Some bs \<and> hex_encode c bs = s))"

definition blake_ok :: "crates \<Rightarrow> bool" where
  "blake_ok c \<longleftrightarrow> (\<forall>m. length (blake2s c m) = 32)"

definition ed_ok :: "crates \<Rightarrow> bool" where
  "ed_ok c \<longleftrightarrow>
     (\<forall>sd. length sd = 32 \<longrightarrow> length (ed_public c sd) = 32 \<and> ed_point_ok c (ed_public c sd)) \<and>
     (\<forall>sd m. length (ed_sign c sd m) = 64) \<and>
     (\<forall>sd m. length sd = 32 \<longrightarrow> ed_verify c (ed_public c sd) m (ed_sign c sd m))"

definition crates_ok :: "crates \<Rightarrow> bool" where
  "crates_ok c \<longleftrightarrow> hex_ok c \<and> blake_ok c \<and> ed_ok c"

lemma hex_laws:
  assumes "hex_ok c"
  shows "hex_decode c (hex_encode c bs) = Some bs"
    and "list_all lower_hex (hex_encode c bs)"
    and "length (hex_encode c bs) = 2 * length bs"
    and "hex_decode c s = Some bs \<Longrightarrow> length s = 2 * length bs"
    and "list_all lower_hex s \<Longrightarrow> even (length s) \<Longrightarrow>
      \<exists>bs. hex_decode c s = Some bs \<and> hex_encode c bs = s"
  using assms by (simp_all add: hex_ok_def)

lemma hex_encode_inject: "hex_ok c \<Longrightarrow> hex_encode c a = hex_encode c b \<longleftrightarrow> a = b"
  by (metis hex_laws(1) option.inject)

lemma hex_encode_empty: "hex_ok c \<Longrightarrow> hex_encode c bs = [] \<longleftrightarrow> bs = []"
  by (metis hex_laws(3) length_0_conv mult_eq_0_iff zero_neq_numeral)

text \<open>\<open>hex::decode_to_slice\<close> into an array of \<open>n\<close> bytes: a length mismatch is an error.\<close>

definition hex_decode_to :: "crates \<Rightarrow> nat \<Rightarrow> string \<Rightarrow> bytes option" where
  "hex_decode_to c n s =
     (case hex_decode c s of None \<Rightarrow> None
      | Some bs \<Rightarrow> if length bs = n then Some bs else None)"

lemma hex_decode_to_Some:
  "hex_decode_to c n s = Some bs \<longleftrightarrow> hex_decode c s = Some bs \<and> length bs = n"
  by (auto simp: hex_decode_to_def split: option.splits)

lemma hex_decode_to_lower:
  assumes "hex_ok c" "list_all lower_hex s" "length s = 2 * n"
  shows "\<exists>bs. hex_decode_to c n s = Some bs \<and> hex_encode c bs = s \<and> length bs = n"
proof -
  obtain bs where bs: "hex_decode c s = Some bs" "hex_encode c bs = s"
    using hex_laws(5) [OF assms(1,2)] assms(3) by auto
  with hex_laws(4) [OF assms(1)] assms(3) have "length bs = n" by fastforce
  with bs show ?thesis by (auto simp: hex_decode_to_Some)
qed

section \<open>Keys carried as lowercase hexadecimal\<close>

text \<open>
  Node identifiers, ed25519 public keys and ed25519 seeds are all 32 bytes that travel as 64
  lowercase hexadecimal digits. What the rest of the program relies on, whatever the key
  type: parsing inverts rendering, and a string is accepted only if it is the rendering of
  the key it denotes.
\<close>

locale hex_key =
  fixes ok :: bool and parse :: "string \<Rightarrow> 'e + 'k" and render :: "'k \<Rightarrow> string"
    and wf :: "'k \<Rightarrow> bool"
  assumes parse_render: "ok \<Longrightarrow> wf k \<Longrightarrow> parse (render k) = Inr k"
    and render_parse: "ok \<Longrightarrow> parse s = Inr k \<Longrightarrow> render k = s"
    and parse_wf: "ok \<Longrightarrow> parse s = Inr k \<Longrightarrow> wf k"
begin

lemma parse_inject: "ok \<Longrightarrow> parse s = Inr k \<Longrightarrow> parse t = Inr k \<Longrightarrow> s = t"
  using render_parse by metis

lemma render_inject: "ok \<Longrightarrow> wf k \<Longrightarrow> wf j \<Longrightarrow> render k = render j \<longleftrightarrow> k = j"
  using parse_render by (metis sum.inject(2))

lemma parse_iff: "ok \<Longrightarrow> parse s = Inr k \<longleftrightarrow> wf k \<and> s = render k"
  using parse_render render_parse parse_wf by blast

end

section \<open>A concrete instance\<close>

definition hex_digit :: "nat \<Rightarrow> char" where
  "hex_digit n = (if n < 10 then char_of (48 + n) else char_of (87 + n))"

definition hex_value :: "char \<Rightarrow> nat option" where
  "hex_value c =
     (let n = (of_char c :: nat)
      in if 48 \<le> n \<and> n \<le> 57 then Some (n - 48)
         else if 97 \<le> n \<and> n \<le> 102 then Some (n - 87)
         else if 65 \<le> n \<and> n \<le> 70 then Some (n - 55) else None)"

fun sample_hex_encode :: "bytes \<Rightarrow> string" where
  "sample_hex_encode [] = []"
| "sample_hex_encode (b # bs) =
     hex_digit (unat b div 16) # hex_digit (unat b mod 16) # sample_hex_encode bs"

fun sample_hex_decode :: "string \<Rightarrow> bytes option" where
  "sample_hex_decode [] = Some []"
| "sample_hex_decode [c] = None"
| "sample_hex_decode (c # d # s) =
     (case (hex_value c, hex_value d, sample_hex_decode s) of
        (Some x, Some y, Some bs) \<Rightarrow> Some (word_of_nat (16 * x + y) # bs)
      | _ \<Rightarrow> None)"

text \<open>Not hash or signature functions, but of the right lengths and with the right laws.\<close>

definition sample_blake :: "bytes \<Rightarrow> bytes" where
  "sample_blake m = rev (take 32 (rev m @ replicate 32 0))"

definition sample_sign :: "bytes \<Rightarrow> bytes \<Rightarrow> bytes" where
  "sample_sign sd m = take 64 (sd @ sample_blake m @ replicate 64 0)"

definition sample_crates :: crates where
  "sample_crates = \<lparr>hex_encode = sample_hex_encode, hex_decode = sample_hex_decode,
     blake2s = sample_blake, ed_public = (\<lambda>sd. sd), ed_point_ok = (\<lambda>_. True),
     ed_sign = sample_sign, ed_verify = (\<lambda>pk m sg. sg = sample_sign pk m)\<rparr>"


lemma hex_value_digit: "n < 16 \<Longrightarrow> hex_value (hex_digit n) = Some n"
  by (auto simp: hex_value_def hex_digit_def Let_def)

lemma lower_hex_digit: "n < 16 \<Longrightarrow> lower_hex (hex_digit n)"
  by (auto simp: lower_hex_def hex_digit_def Let_def)

lemma lower_hex_value:
  assumes "lower_hex c"
  obtains n where "hex_value c = Some n" "n < 16" "hex_digit n = c"
proof -
  let ?n = "of_char c :: nat"
  consider "48 \<le> ?n" "?n \<le> 57" | "97 \<le> ?n" "?n \<le> 102"
    using assms by (auto simp: lower_hex_def Let_def)
  then show ?thesis
  proof cases
    case 1
    then show ?thesis
      by (intro that [of "?n - 48"]) (auto simp: hex_value_def hex_digit_def Let_def)
  next
    case 2
    then have "87 + (?n - 87) = ?n" by simp
    with 2 show ?thesis
      by (intro that [of "?n - 87"]) (auto simp: hex_value_def hex_digit_def Let_def)
  qed
qed

lemma unat_byte_less: "unat (b :: u8) < 256"
  using unsigned_less [where ?'a = nat, of b] by simp

lemma sample_decode_encode: "sample_hex_decode (sample_hex_encode bs) = Some bs"
proof (induction bs)
  case (Cons b bs)
  have "unat b div 16 < 16" using unat_byte_less [of b] by (simp add: less_mult_imp_div_less)
  with Cons show ?case by (simp add: hex_value_digit)
qed simp

lemma sample_encode_lower: "list_all lower_hex (sample_hex_encode bs)"
proof (induction bs)
  case (Cons b bs)
  have "unat b div 16 < 16" using unat_byte_less [of b] by (simp add: less_mult_imp_div_less)
  with Cons show ?case by (simp add: lower_hex_digit)
qed simp

lemma sample_encode_length: "length (sample_hex_encode bs) = 2 * length bs"
  by (induction bs) auto

lemma sample_decode_length: "sample_hex_decode s = Some bs \<Longrightarrow> length s = 2 * length bs"
  by (induction s arbitrary: bs rule: sample_hex_decode.induct) (auto split: option.splits)

lemma sample_decode_lower:
  "list_all lower_hex s \<Longrightarrow> even (length s) \<Longrightarrow>
     \<exists>bs. sample_hex_decode s = Some bs \<and> sample_hex_encode bs = s"
proof (induction s rule: sample_hex_decode.induct)
  case (3 c d s)
  obtain x where x: "hex_value c = Some x" "x < 16" "hex_digit x = c"
    using "3.prems" lower_hex_value by auto
  obtain y where y: "hex_value d = Some y" "y < 16" "hex_digit y = d"
    using "3.prems" lower_hex_value by auto
  obtain bs where bs: "sample_hex_decode s = Some bs" "sample_hex_encode bs = s"
    using 3 x y by auto
  have "unat (word_of_nat (16 * x + y) :: u8) = 16 * x + y"
    using x(2) y(2) by (simp only: unat_of_nat take_bit_eq_mod) simp
  with x y bs show ?case by simp
qed simp_all

lemma length_sample_blake [simp]: "length (sample_blake m) = 32"
  by (simp add: sample_blake_def min_def)

lemma length_sample_sign [simp]: "length (sample_sign sd m) = 64"
  by (simp add: sample_sign_def)

lemma sample_crates_ok: "crates_ok sample_crates"
  unfolding crates_ok_def hex_ok_def blake_ok_def ed_ok_def
  by (simp add: sample_crates_def sample_decode_encode sample_encode_lower
      sample_encode_length sample_decode_length sample_decode_lower)

lemmas sample_hex_ok = sample_crates_ok [unfolded crates_ok_def, THEN conjunct1]

end
