(* ===== verification/Keys.thy ===== *)
theory Keys
  imports Crates
begin

text \<open>
  \<open>keys.rs\<close> and the node-related part of \<open>error.rs\<close>: stable node identifiers, their byte
  order, and the strict parser of their hexadecimal form. The text of an error message is
  kept structured: the constructor says which message, its arguments are the values the
  message interpolates.
\<close>

datatype key_fault = KeyEmpty | KeyLength nat | KeyNotLowerHex | KeyDecode

datatype tag_fault = TagEmpty | TagBadStart string | TagBadChar char string

datatype topology_fault =
  UnsupportedVersion u32
| EmptyTagSet
| EmptyNodes
| ProviderDeclaresRequirement
| EmptyClaims
| RequesterDeclaresClaims
| BadSigningPublicKey string
| RequesterCount nat
| UnsupportedScenarioVersion u32

datatype config_error =
  InvalidTopology topology_fault
| UnknownCapabilityTag string
| MalformedCapabilityTag tag_fault
| MissingField string
| InvalidStableKey key_fault
| EmptyProviderList
| DuplicateNodeId string
| UnsafePath
| ConfigIo string
| ConfigParse string

section \<open>Node identifiers\<close>

datatype node_id = NodeId (nid_bytes: bytes)

text \<open>A Rust \<open>NodeId\<close> holds exactly 32 bytes.\<close>

definition node_wf :: "node_id \<Rightarrow> bool" where
  "node_wf n \<longleftrightarrow> length (nid_bytes n) = 32"

definition to_hex :: "crates \<Rightarrow> node_id \<Rightarrow> string" where
  "to_hex c n = hex_encode c (nid_bytes n)"

text \<open>\<open>cmp\<close> compares the bytes lexicographically; \<open>partial_cmp\<close> is \<open>cmp\<close>.\<close>

definition node_id_le :: "node_id \<Rightarrow> node_id \<Rightarrow> bool" where
  "node_id_le a b \<longleftrightarrow> nid_bytes a \<le> nid_bytes b"

definition node_id_less :: "node_id \<Rightarrow> node_id \<Rightarrow> bool" where
  "node_id_less a b \<longleftrightarrow> nid_bytes a < nid_bytes b"

instantiation node_id :: linorder
begin

definition less_eq_node_id :: "node_id \<Rightarrow> node_id \<Rightarrow> bool" where
  "less_eq_node_id a b \<longleftrightarrow> node_id_le a b"

definition less_node_id :: "node_id \<Rightarrow> node_id \<Rightarrow> bool" where
  "less_node_id a b \<longleftrightarrow> node_id_less a b"

instance
  by standard
    (auto simp: less_eq_node_id_def less_node_id_def node_id_le_def node_id_less_def node_id.expand)

end

definition node_from_str :: "crates \<Rightarrow> string \<Rightarrow> config_error + node_id" where
  "node_from_str c s =
     (if s = [] then Inl (InvalidStableKey KeyEmpty)
      else if length s \<noteq> 64 then Inl (InvalidStableKey (KeyLength (length s)))
      else if \<not> list_all lower_hex s then Inl (InvalidStableKey KeyNotLowerHex)
      else case hex_decode_to c 32 s of
             None \<Rightarrow> Inl (InvalidStableKey KeyDecode)
           | Some out \<Rightarrow> Inr (NodeId out))"

lemma node_from_str_Inr:
  assumes "node_from_str c s = Inr n"
  shows "length s = 64" "list_all lower_hex s" "hex_decode_to c 32 s = Some (nid_bytes n)"
  using assms by (auto simp: node_from_str_def split: if_splits option.splits)

interpretation node_hex: hex_key "hex_ok c" "node_from_str c" "to_hex c" node_wf for c
proof
  fix n assume ok: "hex_ok c" and "node_wf n"
  then have "length (to_hex c n) = 64" "list_all lower_hex (to_hex c n)"
    by (simp_all add: to_hex_def node_wf_def hex_laws)
  moreover have "hex_decode_to c 32 (to_hex c n) = Some (nid_bytes n)"
    using ok \<open>node_wf n\<close> by (simp add: hex_decode_to_Some to_hex_def hex_laws node_wf_def)
  ultimately show "node_from_str c (to_hex c n) = Inr n"
    by (auto simp: node_from_str_def)
next
  fix s n assume ok: "hex_ok c" and p: "node_from_str c s = Inr n"
  obtain bs where "hex_decode_to c 32 s = Some bs" "hex_encode c bs = s"
    using hex_decode_to_lower [OF ok node_from_str_Inr(2) [OF p]] node_from_str_Inr(1) [OF p]
    by auto
  with node_from_str_Inr(3) [OF p] show "to_hex c n = s" by (simp add: to_hex_def)
next
  fix s n assume "node_from_str c s = Inr n"
  then show "node_wf n"
    using node_from_str_Inr(3) by (auto simp: node_wf_def hex_decode_to_Some)
qed

text \<open>
  With the crate's totality on lowercase strings, the last error of the parser is dead
  code: every string that passes the shape checks is decoded.
\<close>

lemma node_from_str_errors:
  assumes "hex_ok c" "node_from_str c s = Inl e"
  shows "e \<in> {InvalidStableKey KeyEmpty, InvalidStableKey (KeyLength (length s)),
              InvalidStableKey KeyNotLowerHex}"
  using assms hex_decode_to_lower [OF assms(1), of s 32]
  by (auto simp: node_from_str_def split: if_splits option.splits)

end
