(* ===== verification/Capability.thy ===== *)
theory Capability
  imports Keys
begin

text \<open>
  \<open>capability.rs\<close>: capability tags, the shape every parsed tag has
  (\<open>[A-Z][A-Z0-9_]*\<close>), and the configured universe of tags.
\<close>

datatype capability_tag = CapabilityTag (tag_str: string)

definition is_ascii_uppercase :: "char \<Rightarrow> bool" where
  "is_ascii_uppercase c \<longleftrightarrow> (let n = (of_char c :: nat) in 65 \<le> n \<and> n \<le> 90)"

definition is_ascii_digit :: "char \<Rightarrow> bool" where
  "is_ascii_digit c \<longleftrightarrow> (let n = (of_char c :: nat) in 48 \<le> n \<and> n \<le> 57)"

definition tag_char_ok :: "char \<Rightarrow> bool" where
  "tag_char_ok c \<longleftrightarrow> is_ascii_uppercase c \<or> is_ascii_digit c \<or> c = CHR ''_''"

fun parse_shape :: "string \<Rightarrow> config_error + capability_tag" where
  "parse_shape [] = Inl (MalformedCapabilityTag TagEmpty)"
| "parse_shape (first # chars) =
     (if \<not> is_ascii_uppercase first
      then Inl (MalformedCapabilityTag (TagBadStart (first # chars)))
      else case List.find (\<lambda>c. \<not> tag_char_ok c) chars of
             Some c \<Rightarrow> Inl (MalformedCapabilityTag (TagBadChar c (first # chars)))
           | None \<Rightarrow> Inr (CapabilityTag (first # chars)))"

text \<open>What a parsed tag promises.\<close>

definition tag_wf :: "capability_tag \<Rightarrow> bool" where
  "tag_wf t \<longleftrightarrow> tag_str t \<noteq> [] \<and> is_ascii_uppercase (hd (tag_str t)) \<and>
     list_all tag_char_ok (tl (tag_str t))"

lemma parse_shape_Inr: "parse_shape s = Inr t \<longleftrightarrow> tag_str t = s \<and> tag_wf t"
  by (cases s; cases t)
    (auto simp: tag_wf_def find_None_iff list_all_iff split: option.splits dest: find_Some_mem)

lemma parse_shape_tag_str: "tag_wf t \<Longrightarrow> parse_shape (tag_str t) = Inr t"
  by (simp add: parse_shape_Inr)

section \<open>Tag sets\<close>

record capability_tag_set =
  tags :: "capability_tag set"

definition tag_set_new :: "string list \<Rightarrow> config_error + capability_tag_set" where
  "tag_set_new raws =
     and_then (try_fold (\<lambda>raw out. and_then (parse_shape raw) (\<lambda>t. Inr (insert t out))) raws {})
       (\<lambda>out. if out = {} then Inl (InvalidTopology EmptyTagSet) else Inr \<lparr>tags = out\<rparr>)"

definition tag_set_contains :: "capability_tag_set \<Rightarrow> capability_tag \<Rightarrow> bool" where
  "tag_set_contains ts t \<longleftrightarrow> t \<in> tags ts"

definition normalize_tag :: "capability_tag_set \<Rightarrow> string \<Rightarrow> config_error + capability_tag" where
  "normalize_tag ts raw =
     and_then (parse_shape raw)
       (\<lambda>t. if tag_set_contains ts t then Inr t else Inl (UnknownCapabilityTag (tag_str t)))"

definition illustrative_defaults :: "config_error + capability_tag_set" where
  "illustrative_defaults = tag_set_new [''GPU'', ''CPU'', ''LLM'', ''ZK_DEV'']"

lemma tag_fold_Inr:
  "try_fold (\<lambda>raw out. and_then (parse_shape raw) (\<lambda>t. Inr (insert t out))) raws out0 = Inr out \<longleftrightarrow>
     (\<forall>s \<in> set raws. tag_wf (CapabilityTag s)) \<and> out = CapabilityTag ` set raws \<union> out0"
proof (induction raws arbitrary: out0)
  case (Cons s raws)
  have "parse_shape s = Inr t \<longleftrightarrow> t = CapabilityTag s \<and> tag_wf (CapabilityTag s)" for t
    by (cases t) (auto simp: parse_shape_Inr)
  with Cons show ?case by auto
qed auto

lemma tag_set_new_Inr:
  "tag_set_new raws = Inr ts \<longleftrightarrow>
     raws \<noteq> [] \<and> (\<forall>s \<in> set raws. tag_wf (CapabilityTag s)) \<and> tags ts = CapabilityTag ` set raws"
  by (cases ts) (auto simp: tag_set_new_def tag_fold_Inr split: if_splits)

lemma normalize_tag_Inr:
  "normalize_tag ts raw = Inr t \<longleftrightarrow> tag_str t = raw \<and> tag_wf t \<and> t \<in> tags ts"
  by (auto simp: normalize_tag_def tag_set_contains_def parse_shape_Inr split: if_splits)

end
