(* ===== verification/Signing.thy ===== *)
theory Signing
  imports Keys
begin

text \<open>
  \<open>signing.rs\<close>: ed25519 keys as hexadecimal strings, the canonical completion-receipt
  payload, the ed25519 signature over it, and the legacy Blake2s tag.
\<close>

datatype signing_public_key = SigningPublicKey (pk_bytes: bytes)

datatype signing_secret_seed = SigningSecretSeed (seed_bytes: bytes)

datatype sign_error = MalformedPublicKey | MalformedSecretKey | MalformedSignature | BadSignature

definition pk_wf :: "crates \<Rightarrow> signing_public_key \<Rightarrow> bool" where
  "pk_wf c pk \<longleftrightarrow> length (pk_bytes pk) = 32 \<and> ed_point_ok c (pk_bytes pk)"

definition seed_wf :: "signing_secret_seed \<Rightarrow> bool" where
  "seed_wf sd \<longleftrightarrow> length (seed_bytes sd) = 32"

definition pk_to_hex :: "crates \<Rightarrow> signing_public_key \<Rightarrow> string" where
  "pk_to_hex c pk = hex_encode c (pk_bytes pk)"

definition verifying_key :: "crates \<Rightarrow> signing_public_key \<Rightarrow> sign_error + bytes" where
  "verifying_key c pk =
     (if ed_point_ok c (pk_bytes pk) then Inr (pk_bytes pk) else Inl MalformedPublicKey)"

definition pk_from_hex :: "crates \<Rightarrow> string \<Rightarrow> sign_error + signing_public_key" where
  "pk_from_hex c s =
     (if length s \<noteq> 32 * 2 then Inl MalformedPublicKey
      else if \<not> list_all lower_hex s then Inl MalformedPublicKey
      else case hex_decode_to c 32 s of
             None \<Rightarrow> Inl MalformedPublicKey
           | Some out \<Rightarrow> if ed_point_ok c out then Inr (SigningPublicKey out)
                         else Inl MalformedPublicKey)"

definition seed_from_hex :: "crates \<Rightarrow> string \<Rightarrow> sign_error + signing_secret_seed" where
  "seed_from_hex c s =
     (if length s \<noteq> 32 * 2 then Inl MalformedSecretKey
      else if \<not> list_all lower_hex s then Inl MalformedSecretKey
      else case hex_decode_to c 32 s of
             None \<Rightarrow> Inl MalformedSecretKey
           | Some out \<Rightarrow> Inr (SigningSecretSeed out))"

text \<open>\<open>SigningSecretSeed::public\<close>.\<close>

definition seed_public :: "crates \<Rightarrow> signing_secret_seed \<Rightarrow> signing_public_key" where
  "seed_public c sd = SigningPublicKey (ed_public c (seed_bytes sd))"

lemma seed_public_wf: "ed_ok c \<Longrightarrow> seed_wf sd \<Longrightarrow> pk_wf c (seed_public c sd)"
  by (simp add: ed_ok_def seed_wf_def pk_wf_def seed_public_def)

lemma key_hex_facts:
  assumes "hex_ok c" "length bs = 32"
  shows "length (hex_encode c bs) = 64" "list_all lower_hex (hex_encode c bs)"
    "hex_decode_to c 32 (hex_encode c bs) = Some bs"
  using assms by (simp_all add: hex_laws hex_decode_to_Some)

lemma key_hex_parsed:
  assumes "hex_ok c" "length s = 64" "list_all lower_hex s" "hex_decode_to c 32 s = Some bs"
  shows "hex_encode c bs = s" "length bs = 32"
  using hex_decode_to_lower [of c s 32] assms by (auto simp: hex_decode_to_Some)

interpretation pk_hex: hex_key "hex_ok c" "pk_from_hex c" "pk_to_hex c" "pk_wf c" for c
  by unfold_locales
    (auto simp: pk_from_hex_def pk_to_hex_def pk_wf_def key_hex_facts key_hex_parsed
      hex_decode_to_Some split: if_splits option.splits)

interpretation seed_hex: hex_key "hex_ok c" "seed_from_hex c"
    "\<lambda>sd. hex_encode c (seed_bytes sd)" seed_wf for c
  by unfold_locales
    (auto simp: seed_from_hex_def seed_wf_def key_hex_facts key_hex_parsed
      hex_decode_to_Some split: if_splits option.splits)

section \<open>Receipts\<close>

definition receipt_domain :: string where
  "receipt_domain = ''vertex-veil/v1/completion-receipt''"

definition receipt_message :: "node_id \<Rightarrow> round_id \<Rightarrow> string \<Rightarrow> bytes" where
  "receipt_message provider round capability =
     str_bytes receipt_domain @ nid_bytes provider @ u64_be round @
     u32_be (word_of_nat (length (str_bytes capability))) @ str_bytes capability"

definition sign_receipt_ed25519 ::
  "crates \<Rightarrow> signing_secret_seed \<Rightarrow> node_id \<Rightarrow> round_id \<Rightarrow> string \<Rightarrow> bytes" where
  "sign_receipt_ed25519 c seed provider round capability =
     ed_sign c (seed_bytes seed) (receipt_message provider round capability)"

definition verify_receipt_ed25519 ::
  "crates \<Rightarrow> signing_public_key \<Rightarrow> string \<Rightarrow> node_id \<Rightarrow> round_id \<Rightarrow> string \<Rightarrow> sign_error + unit" where
  "verify_receipt_ed25519 c public signature_hex provider round capability =
     (case hex_decode c signature_hex of
        None \<Rightarrow> Inl MalformedSignature
      | Some raw \<Rightarrow>
          if length raw \<noteq> 64 then Inl MalformedSignature
          else and_then (verifying_key c public)
            (\<lambda>vk. if ed_verify c vk (receipt_message provider round capability) raw
                  then Inr () else Inl BadSignature))"

definition legacy_signature :: "crates \<Rightarrow> node_id \<Rightarrow> round_id \<Rightarrow> string \<Rightarrow> bytes" where
  "legacy_signature c provider round capability =
     blake2s c (str_bytes receipt_domain @ nid_bytes provider @ u64_be round @
                str_bytes capability)"

text \<open>The signed payload determines what was signed.\<close>

lemma receipt_message_inject:
  assumes "node_wf p" "node_wf q"
  shows "receipt_message p r a = receipt_message q s b \<longleftrightarrow> p = q \<and> r = s \<and> a = b"
  using assms
  by (auto simp: receipt_message_def node_wf_def append_eq_append_conv
      u64c.enc_append_inject u32c.enc_append_inject str_bytes_inject node_id.expand)

lemma verify_sign_receipt:
  assumes "crates_ok c" "seed_wf sd"
  shows "verify_receipt_ed25519 c (seed_public c sd)
           (hex_encode c (sign_receipt_ed25519 c sd p r cap)) p r cap = Inr ()"
  using assms
  by (simp add: verify_receipt_ed25519_def sign_receipt_ed25519_def crates_ok_def hex_laws
      ed_ok_def verifying_key_def seed_public_def seed_wf_def)

lemma verify_receipt_Inr:
  "verify_receipt_ed25519 c pk sg p r cap = Inr () \<longleftrightarrow>
     (\<exists>raw. hex_decode c sg = Some raw \<and> length raw = 64 \<and> ed_point_ok c (pk_bytes pk) \<and>
        ed_verify c (pk_bytes pk) (receipt_message p r cap) raw)"
  by (auto simp: verify_receipt_ed25519_def verifying_key_def split: option.splits if_splits)

lemma legacy_not_ed25519:
  assumes "crates_ok c"
  shows "verify_receipt_ed25519 c pk (hex_encode c (legacy_signature c p r cap)) p r cap =
           Inl MalformedSignature"
  using assms
  by (simp add: verify_receipt_ed25519_def crates_ok_def hex_laws legacy_signature_def blake_ok_def)

end
