(* ===== verification/Intents.thy ===== *)
theory Intents
  imports Capability Signing
begin

text \<open>
  \<open>shared_types.rs\<close> and \<open>private_intent.rs\<close> (with \<open>Role\<close> of \<open>config.rs\<close>): round
  identifiers, what a node publishes about its intent, and what it keeps to itself.
\<close>

datatype role = Requester | Provider

text \<open>
  \<open>RoundId::next\<close> is \<open>self.0 + 1\<close> on \<open>u64\<close>: the release build wraps.
\<close>

definition round_next :: "round_id \<Rightarrow> round_id" where
  "round_next r = r + 1"

lemma unat_round_next: "r \<noteq> - 1 \<Longrightarrow> unat (round_next r) = Suc (unat r)"
  using unatSuc [of r] by (simp add: round_next_def add.commute eq_neg_iff_add_eq_0)

lemma round_next_greater: "r \<noteq> - 1 \<Longrightarrow> r < round_next r"
  by (simp add: word_less_nat_alt unat_round_next)

lemma round_next_wraps: "round_next (- 1) = 0"
  by (simp add: round_next_def)

datatype public_intent =
  PubRequester (intent_node: node_id) (intent_round: round_id)
    (required_capability: capability_tag)
| PubProvider (intent_node: node_id) (intent_round: round_id)
    (capability_claims: "capability_tag list")

fun intent_role :: "public_intent \<Rightarrow> role" where
  "intent_role (PubRequester _ _ _) = Requester"
| "intent_role (PubProvider _ _ _) = Provider"

lemma intent_role_Requester:
  "intent_role i = Requester \<longleftrightarrow> (\<exists>n r t. i = PubRequester n r t)"
  by (cases i) auto

lemma intent_role_Provider:
  "intent_role i = Provider \<longleftrightarrow> (\<exists>n r ts. i = PubProvider n r ts)"
  by (cases i) auto

record round_state =
  rs_round :: round_id
  rs_proposer :: node_id
  rs_finalized :: bool

definition round_state_opening :: "round_id \<Rightarrow> node_id \<Rightarrow> round_state" where
  "round_state_opening round proposer =
     \<lparr>rs_round = round, rs_proposer = proposer, rs_finalized = False\<rparr>"

section \<open>Private intents\<close>

datatype 'a secret = Secret (expose: 'a)

definition secret_debug :: "'a secret \<Rightarrow> string" where
  "secret_debug s = ''Secret([REDACTED])''"

definition secret_serialize :: "'a secret \<Rightarrow> string" where
  "secret_serialize s = ''[REDACTED]''"

record private_requester_intent =
  pri_node_id :: node_id
  pri_required_capability :: capability_tag
  pri_budget_cents :: "u64 secret"
  pri_signing_secret_key :: "signing_secret_seed secret option"

record private_provider_intent =
  ppi_node_id :: node_id
  ppi_capability_claims :: "capability_tag list"
  ppi_reservation_cents :: "u64 secret"
  ppi_signing_secret_key :: "signing_secret_seed secret option"

definition requester_intent_new ::
  "node_id \<Rightarrow> capability_tag \<Rightarrow> u64 \<Rightarrow> private_requester_intent" where
  "requester_intent_new n cap budget =
     \<lparr>pri_node_id = n, pri_required_capability = cap, pri_budget_cents = Secret budget,
      pri_signing_secret_key = None\<rparr>"

definition requester_with_signing ::
  "private_requester_intent \<Rightarrow> signing_secret_seed \<Rightarrow> private_requester_intent" where
  "requester_with_signing i seed = i\<lparr>pri_signing_secret_key := Some (Secret seed)\<rparr>"

definition provider_intent_new ::
  "node_id \<Rightarrow> capability_tag list \<Rightarrow> u64 \<Rightarrow> private_provider_intent" where
  "provider_intent_new n claims reservation =
     \<lparr>ppi_node_id = n, ppi_capability_claims = claims, ppi_reservation_cents = Secret reservation,
      ppi_signing_secret_key = None\<rparr>"

definition provider_with_signing ::
  "private_provider_intent \<Rightarrow> signing_secret_seed \<Rightarrow> private_provider_intent" where
  "provider_with_signing i seed = i\<lparr>ppi_signing_secret_key := Some (Secret seed)\<rparr>"

end
