(* ===== verification/Config.thy ===== *)
theory Config
  imports Intents "HOL-Library.Char_ord"
begin

text \<open>
  \<open>config.rs\<close>: the raw topology as TOML gives it, the validation that turns it into a
  \<open>topology_config\<close>, and the stable-order views the rest of the program takes of it.
  The TOML parser and the file system are parameters of \<open>topology_load\<close>.
\<close>

record node_config_raw =
  raw_id :: string
  raw_role :: role
  raw_required_capability :: "string option"
  raw_capability_claims :: "string list option"
  raw_signing_public_key :: "string option"

record topology_raw =
  traw_version :: u32
  traw_capability_tags :: "string list"
  traw_nodes :: "node_config_raw list"

record node_config =
  nc_id :: node_id
  nc_role :: role
  nc_required_capability :: "capability_tag option"
  nc_capability_claims :: "capability_tag list"
  nc_signing_public_key :: "signing_public_key option"

record topology_config =
  topo_version :: u32
  topo_capability_tags :: capability_tag_set
  topo_nodes :: "node_config list"

section \<open>Validation\<close>

definition load_required ::
  "capability_tag_set \<Rightarrow> role \<Rightarrow> string option \<Rightarrow> config_error + capability_tag option" where
  "load_required ts r req =
     (case (r, req) of
        (Requester, Some raw_tag) \<Rightarrow> and_then (normalize_tag ts raw_tag) (\<lambda>t. Inr (Some t))
      | (Requester, None) \<Rightarrow> Inl (MissingField ''required_capability'')
      | (Provider, Some _) \<Rightarrow> Inl (InvalidTopology ProviderDeclaresRequirement)
      | (Provider, None) \<Rightarrow> Inr None)"

definition load_claims ::
  "capability_tag_set \<Rightarrow> role \<Rightarrow> string list option \<Rightarrow> config_error + capability_tag list" where
  "load_claims ts r claims =
     (case (r, claims) of
        (Provider, Some raws) \<Rightarrow>
          if raws = [] then Inl (InvalidTopology EmptyClaims) else try_map (normalize_tag ts) raws
      | (Provider, None) \<Rightarrow> Inl (MissingField ''capability_claims'')
      | (Requester, Some _) \<Rightarrow> Inl (InvalidTopology RequesterDeclaresClaims)
      | (Requester, None) \<Rightarrow> Inr [])"

definition load_public_key ::
  "crates \<Rightarrow> node_id \<Rightarrow> string option \<Rightarrow> config_error + signing_public_key option" where
  "load_public_key c i key =
     (case key of
        None \<Rightarrow> Inr None
      | Some hex_s \<Rightarrow>
          (case pk_from_hex c hex_s of
             Inl _ \<Rightarrow> Inl (InvalidTopology (BadSigningPublicKey (to_hex c i)))
           | Inr pk \<Rightarrow> Inr (Some pk)))"

text \<open>The local variables of the loop over the raw nodes.\<close>

record load_state =
  ls_seen :: "node_id set"
  ls_nodes :: "node_config list"
  ls_requesters :: nat
  ls_providers :: nat

definition load_node ::
  "crates \<Rightarrow> capability_tag_set \<Rightarrow> node_config_raw \<Rightarrow> load_state \<Rightarrow> config_error + load_state" where
  "load_node c ts raw st =
     and_then (node_from_str c (raw_id raw)) (\<lambda>i.
     if i \<in> ls_seen st then Inl (DuplicateNodeId (to_hex c i))
     else and_then (load_required ts (raw_role raw) (raw_required_capability raw)) (\<lambda>req.
     and_then (load_claims ts (raw_role raw) (raw_capability_claims raw)) (\<lambda>claims.
     and_then (load_public_key c i (raw_signing_public_key raw)) (\<lambda>pk.
     Inr (st\<lparr>ls_seen := insert i (ls_seen st),
            ls_nodes := ls_nodes st @
              [\<lparr>nc_id = i, nc_role = raw_role raw, nc_required_capability = req,
                nc_capability_claims = claims, nc_signing_public_key = pk\<rparr>],
            ls_requesters := ls_requesters st + (if raw_role raw = Requester then 1 else 0),
            ls_providers := ls_providers st + (if raw_role raw = Provider then 1 else 0)\<rparr>)))))"

definition load_start :: load_state where
  "load_start = \<lparr>ls_seen = {}, ls_nodes = [], ls_requesters = 0, ls_providers = 0\<rparr>"

definition topology_from_raw :: "crates \<Rightarrow> topology_raw \<Rightarrow> config_error + topology_config" where
  "topology_from_raw c raw =
     (if traw_version raw \<noteq> 1 then Inl (InvalidTopology (UnsupportedVersion (traw_version raw)))
      else and_then (tag_set_new (traw_capability_tags raw)) (\<lambda>ts.
      if traw_nodes raw = [] then Inl (InvalidTopology EmptyNodes)
      else and_then (try_fold (load_node c ts) (traw_nodes raw) load_start) (\<lambda>st.
      if ls_requesters st \<noteq> 1 then Inl (InvalidTopology (RequesterCount (ls_requesters st)))
      else if ls_providers st = 0 then Inl EmptyProviderList
      else Inr \<lparr>topo_version = traw_version raw, topo_capability_tags = ts,
                topo_nodes = ls_nodes st\<rparr>)))"

section \<open>Paths and loading\<close>

text \<open>The \<open>'/'\<close>-separated segments of a path; \<open>..\<close> is \<open>Component::ParentDir\<close>.\<close>

fun split_on :: "char \<Rightarrow> string \<Rightarrow> string list" where
  "split_on d [] = [[]]"
| "split_on d (x # xs) =
     (if x = d then [] # split_on d xs
      else (case split_on d xs of [] \<Rightarrow> [[x]] | s # ss \<Rightarrow> (x # s) # ss))"

definition has_parent_dir :: "string \<Rightarrow> bool" where
  "has_parent_dir p \<longleftrightarrow> ''..'' \<in> set (split_on (CHR ''/'') p)"

definition validate_path_safe :: "string \<Rightarrow> config_error + unit" where
  "validate_path_safe p = (if has_parent_dir p then Inl UnsafePath else Inr ())"

text \<open>
  \<open>read\<close> stands for \<open>fs::read_to_string\<close> and \<open>parse\<close> for \<open>toml::from_str\<close>; \<open>redact\<close>
  is what \<open>ConfigError::parse\<close> does to the parser's message.
\<close>

definition topology_from_toml_str ::
  "(string \<Rightarrow> string + topology_raw) \<Rightarrow> (string \<Rightarrow> string) \<Rightarrow> crates \<Rightarrow> string \<Rightarrow>
     config_error + topology_config" where
  "topology_from_toml_str parse redact c text =
     (case parse text of Inl e \<Rightarrow> Inl (ConfigParse (redact e)) | Inr raw \<Rightarrow> topology_from_raw c raw)"

definition topology_load ::
  "(string \<Rightarrow> string + string) \<Rightarrow> (string \<Rightarrow> string + topology_raw) \<Rightarrow> (string \<Rightarrow> string) \<Rightarrow>
     crates \<Rightarrow> string \<Rightarrow> config_error + topology_config" where
  "topology_load read parse redact c p =
     and_then (validate_path_safe p) (\<lambda>_.
     (case read p of Inl e \<Rightarrow> Inl (ConfigIo e)
      | Inr text \<Rightarrow> topology_from_toml_str parse redact c text))"

section \<open>Views\<close>

definition nodes_stable_order :: "topology_config \<Rightarrow> node_config list" where
  "nodes_stable_order t = sort_key nc_id (topo_nodes t)"

text \<open>\<open>None\<close> is the panic of \<open>expect\<close>.\<close>

definition topo_requester :: "topology_config \<Rightarrow> node_config option" where
  "topo_requester t = List.find (\<lambda>n. nc_role n = Requester) (topo_nodes t)"

definition providers_stable_order :: "topology_config \<Rightarrow> node_config list" where
  "providers_stable_order t = sort_key nc_id (filter (\<lambda>n. nc_role n = Provider) (topo_nodes t))"

text \<open>\<open>topology.nodes.iter().find(|n| n.id == id)\<close>, which many operations start with.\<close>

definition find_node :: "topology_config \<Rightarrow> node_id \<Rightarrow> node_config option" where
  "find_node t i = List.find (\<lambda>n. nc_id n = i) (topo_nodes t)"

definition provider_ids :: "topology_config \<Rightarrow> node_id list" where
  "provider_ids t = map nc_id (providers_stable_order t)"

section \<open>What loading establishes\<close>

definition node_config_wf :: "crates \<Rightarrow> capability_tag_set \<Rightarrow> node_config \<Rightarrow> bool" where
  "node_config_wf c ts n \<longleftrightarrow> node_wf (nc_id n) \<and>
     (case nc_role n of
        Requester \<Rightarrow> (\<exists>t \<in> tags ts. nc_required_capability n = Some t) \<and>
          nc_capability_claims n = []
      | Provider \<Rightarrow> nc_required_capability n = None \<and> nc_capability_claims n \<noteq> [] \<and>
          set (nc_capability_claims n) \<subseteq> tags ts) \<and>
     (case nc_signing_public_key n of None \<Rightarrow> True | Some pk \<Rightarrow> pk_wf c pk)"

definition topology_wf :: "crates \<Rightarrow> topology_config \<Rightarrow> bool" where
  "topology_wf c t \<longleftrightarrow> topo_version t = 1 \<and>
     finite (tags (topo_capability_tags t)) \<and> tags (topo_capability_tags t) \<noteq> {} \<and>
     (\<forall>g \<in> tags (topo_capability_tags t). tag_wf g) \<and>
     distinct (map nc_id (topo_nodes t)) \<and>
     (\<forall>n \<in> set (topo_nodes t). node_config_wf c (topo_capability_tags t) n) \<and>
     length (filter (\<lambda>n. nc_role n = Requester) (topo_nodes t)) = 1 \<and>
     (\<exists>n \<in> set (topo_nodes t). nc_role n = Provider)"

lemma load_required_Inr:
  "load_required ts r req = Inr out \<longleftrightarrow>
     (case r of
        Requester \<Rightarrow> (\<exists>t. out = Some t \<and> req = Some (tag_str t) \<and> tag_wf t \<and> t \<in> tags ts)
      | Provider \<Rightarrow> out = None \<and> req = None)"
  by (auto simp: load_required_def normalize_tag_Inr split: role.splits option.splits)

lemma try_normalize_Inr:
  "try_map (normalize_tag ts) raws = Inr claims \<longleftrightarrow>
     raws = map tag_str claims \<and> (\<forall>t \<in> set claims. tag_wf t \<and> t \<in> tags ts)"
  by (induction raws arbitrary: claims)
    (auto simp: normalize_tag_Inr Cons_eq_map_conv)

lemma load_claims_Inr:
  "load_claims ts r req = Inr claims \<longleftrightarrow>
     (case r of
        Requester \<Rightarrow> claims = [] \<and> req = None
      | Provider \<Rightarrow> claims \<noteq> [] \<and> req = Some (map tag_str claims) \<and>
          (\<forall>t \<in> set claims. tag_wf t \<and> t \<in> tags ts))"
  by (auto simp: load_claims_def try_normalize_Inr split: role.splits option.splits)

lemma load_public_key_Inr:
  assumes "hex_ok c"
  shows "load_public_key c i key = Inr out \<longleftrightarrow>
     (case out of None \<Rightarrow> key = None | Some pk \<Rightarrow> pk_wf c pk \<and> key = Some (pk_to_hex c pk))"
  by (cases key; cases out)
    (auto simp: load_public_key_def pk_hex.parse_render [OF assms]
      pk_hex.render_inject [OF assms] split: sum.splits
      dest!: pk_hex.parse_iff [OF assms, THEN iffD1])

definition load_inv :: "crates \<Rightarrow> capability_tag_set \<Rightarrow> load_state \<Rightarrow> bool" where
  "load_inv c ts st \<longleftrightarrow> ls_seen st = nc_id ` set (ls_nodes st) \<and>
     distinct (map nc_id (ls_nodes st)) \<and> (\<forall>n \<in> set (ls_nodes st). node_config_wf c ts n) \<and>
     ls_requesters st = length (filter (\<lambda>n. nc_role n = Requester) (ls_nodes st)) \<and>
     ls_providers st = length (filter (\<lambda>n. nc_role n = Provider) (ls_nodes st))"

lemma load_node_inv:
  assumes ok: "hex_ok c" and inv: "load_inv c ts st" and step: "load_node c ts raw st = Inr st'"
  shows "load_inv c ts st'"
proof -
  from step obtain i req claims pk where
    i: "node_from_str c (raw_id raw) = Inr i" "i \<notin> ls_seen st" and
    req: "load_required ts (raw_role raw) (raw_required_capability raw) = Inr req" and
    claims: "load_claims ts (raw_role raw) (raw_capability_claims raw) = Inr claims" and
    pk: "load_public_key c i (raw_signing_public_key raw) = Inr pk" and
    st': "st' = st\<lparr>ls_seen := insert i (ls_seen st),
            ls_nodes := ls_nodes st @
              [\<lparr>nc_id = i, nc_role = raw_role raw, nc_required_capability = req,
                nc_capability_claims = claims, nc_signing_public_key = pk\<rparr>],
            ls_requesters := ls_requesters st + (if raw_role raw = Requester then 1 else 0),
            ls_providers := ls_providers st + (if raw_role raw = Provider then 1 else 0)\<rparr>"
    by (auto simp: load_node_def split: if_splits)
  have "node_wf i" using node_hex.parse_wf [OF ok i(1)] .
  with req claims pk show ?thesis
    using inv i(2) unfolding st' load_inv_def
    by (auto simp: node_config_wf_def load_required_Inr load_claims_Inr
        load_public_key_Inr [OF ok] split: role.splits option.splits)
qed

lemma load_start_inv: "load_inv c ts load_start"
  by (simp add: load_inv_def load_start_def)

lemma topology_from_raw_wf:
  assumes ok: "hex_ok c" and load: "topology_from_raw c raw = Inr t"
  shows "topology_wf c t"
proof -
  from load obtain ts st where
    ts: "tag_set_new (traw_capability_tags raw) = Inr ts" and
    st: "try_fold (load_node c ts) (traw_nodes raw) load_start = Inr st" and
    cnt: "ls_requesters st = 1" "ls_providers st \<noteq> 0" and v: "traw_version raw = 1" and
    t: "t = \<lparr>topo_version = traw_version raw, topo_capability_tags = ts, topo_nodes = ls_nodes st\<rparr>"
    by (auto simp: topology_from_raw_def split: if_splits)
  have "load_inv c ts st"
    using st load_start_inv by (rule try_fold_invariant) (rule load_node_inv [OF ok])
  with ts cnt v show ?thesis
    by (auto simp: t topology_wf_def load_inv_def tag_set_new_Inr filter_empty_conv)
qed

section \<open>What the views return\<close>

lemma providers_stable_order_sorted:
  "sorted (map nc_id (providers_stable_order t))"
  by (simp add: providers_stable_order_def)

lemma set_providers_stable_order [simp]:
  "set (providers_stable_order t) = {n \<in> set (topo_nodes t). nc_role n = Provider}"
  by (simp add: providers_stable_order_def)

lemma distinct_provider_ids: "topology_wf c t \<Longrightarrow> distinct (provider_ids t)"
  unfolding topology_wf_def provider_ids_def providers_stable_order_def
  by (simp add: distinct_map inj_on_def)

lemma provider_ids_nonempty: "topology_wf c t \<Longrightarrow> provider_ids t \<noteq> []"
  by (auto simp: topology_wf_def provider_ids_def dest: arg_cong [where f = set])

lemma find_node_mem: "find_node t i = Some n \<Longrightarrow> n \<in> set (topo_nodes t) \<and> nc_id n = i"
  unfolding find_node_def using find_Some_mem by fastforce

lemma find_node_unique:
  "topology_wf c t \<Longrightarrow> n \<in> set (topo_nodes t) \<Longrightarrow> find_node t (nc_id n) = Some n"
  unfolding find_node_def topology_wf_def by (auto intro: distinct_map_find)

lemma find_node_None: "find_node t i = None \<longleftrightarrow> i \<notin> nc_id ` set (topo_nodes t)"
  by (auto simp: find_node_def find_None_iff)

lemma topo_requester_exists:
  assumes "topology_wf c t"
  shows "\<exists>n. topo_requester t = Some n \<and> n \<in> set (topo_nodes t) \<and> nc_role n = Requester \<and>
    (\<forall>m \<in> set (topo_nodes t). nc_role m = Requester \<longrightarrow> m = n)"
proof -
  obtain n where n: "filter (\<lambda>n. nc_role n = Requester) (topo_nodes t) = [n]"
    using assms by (auto simp: topology_wf_def length_Suc_conv)
  then have set: "{m \<in> set (topo_nodes t). nc_role m = Requester} = {n}"
    by (metis empty_set list.simps(15) set_filter)
  then have "topo_requester t = Some n"
    unfolding topo_requester_def by (intro find_unique) auto
  with set show ?thesis by blast
qed

section \<open>Writing a topology out and reading it back\<close>

definition node_to_raw :: "crates \<Rightarrow> node_config \<Rightarrow> node_config_raw" where
  "node_to_raw c n =
     \<lparr>raw_id = to_hex c (nc_id n), raw_role = nc_role n,
      raw_required_capability = map_option tag_str (nc_required_capability n),
      raw_capability_claims =
        (if nc_capability_claims n = [] then None else Some (map tag_str (nc_capability_claims n))),
      raw_signing_public_key = map_option (pk_to_hex c) (nc_signing_public_key n)\<rparr>"

definition topology_to_raw :: "crates \<Rightarrow> topology_config \<Rightarrow> topology_raw" where
  "topology_to_raw c t =
     \<lparr>traw_version = topo_version t,
      traw_capability_tags = sorted_list_of_set (tag_str ` tags (topo_capability_tags t)),
      traw_nodes = map (node_to_raw c) (topo_nodes t)\<rparr>"

lemma load_node_to_raw:
  assumes ok: "hex_ok c" and n: "node_config_wf c ts n" and ts: "\<forall>g \<in> tags ts. tag_wf g"
    and new: "nc_id n \<notin> ls_seen st"
  shows "load_node c ts (node_to_raw c n) st =
    Inr (st\<lparr>ls_seen := insert (nc_id n) (ls_seen st), ls_nodes := ls_nodes st @ [n],
            ls_requesters := ls_requesters st + (if nc_role n = Requester then 1 else 0),
            ls_providers := ls_providers st + (if nc_role n = Provider then 1 else 0)\<rparr>)"
proof -
  have i: "node_from_str c (raw_id (node_to_raw c n)) = Inr (nc_id n)"
    using node_hex.parse_render [OF ok] n by (simp add: node_config_wf_def node_to_raw_def)
  have req: "load_required ts (nc_role n) (raw_required_capability (node_to_raw c n)) =
      Inr (nc_required_capability n)"
    using n ts by (auto simp: load_required_Inr node_to_raw_def node_config_wf_def
        split: role.splits)
  have cl: "load_claims ts (nc_role n) (raw_capability_claims (node_to_raw c n)) =
      Inr (nc_capability_claims n)"
    using n ts by (auto simp: load_claims_Inr node_to_raw_def node_config_wf_def
        split: role.splits)
  have pk: "load_public_key c (nc_id n) (raw_signing_public_key (node_to_raw c n)) =
      Inr (nc_signing_public_key n)"
    using n by (auto simp: load_public_key_Inr [OF ok] node_to_raw_def node_config_wf_def
        split: option.splits)
  have "raw_role (node_to_raw c n) = nc_role n" by (simp add: node_to_raw_def)
  with i req cl pk new show ?thesis by (simp add: load_node_def)
qed

lemma load_nodes_to_raw:
  assumes ok: "hex_ok c" and ts: "\<forall>g \<in> tags ts. tag_wf g"
    and "\<forall>n \<in> set ns. node_config_wf c ts n" "distinct (map nc_id ns)"
    and "ls_seen st \<inter> nc_id ` set ns = {}"
  shows "try_fold (load_node c ts) (map (node_to_raw c) ns) st =
    Inr (st\<lparr>ls_seen := ls_seen st \<union> nc_id ` set ns, ls_nodes := ls_nodes st @ ns,
            ls_requesters := ls_requesters st + length (filter (\<lambda>n. nc_role n = Requester) ns),
            ls_providers := ls_providers st + length (filter (\<lambda>n. nc_role n = Provider) ns)\<rparr>)"
  using assms(3-)
proof (induction ns arbitrary: st)
  case (Cons n ns)
  have "load_node c ts (node_to_raw c n) st =
    Inr (st\<lparr>ls_seen := insert (nc_id n) (ls_seen st), ls_nodes := ls_nodes st @ [n],
            ls_requesters := ls_requesters st + (if nc_role n = Requester then 1 else 0),
            ls_providers := ls_providers st + (if nc_role n = Provider then 1 else 0)\<rparr>)"
    using Cons.prems by (intro load_node_to_raw [OF ok _ ts]) auto
  with Cons show ?case by (cases "nc_role n") (auto simp: Un_commute)
qed simp

lemma topology_reload:
  assumes ok: "hex_ok c" and wf: "topology_wf c t"
  shows "topology_from_raw c (topology_to_raw c t) = Inr t"
proof -
  let ?ts = "topo_capability_tags t"
  have fin: "finite (tag_str ` tags ?ts)" using wf by (simp add: topology_wf_def)
  have img: "CapabilityTag ` tag_str ` tags ?ts = tags ?ts" by (simp add: image_image)
  have "tag_set_new (sorted_list_of_set (tag_str ` tags ?ts)) = Inr ?ts"
    unfolding tag_set_new_Inr using wf fin img by (auto simp: topology_wf_def)
  moreover have "try_fold (load_node c ?ts) (map (node_to_raw c) (topo_nodes t)) load_start =
    Inr (load_start\<lparr>ls_seen := nc_id ` set (topo_nodes t), ls_nodes := topo_nodes t,
            ls_requesters := length (filter (\<lambda>n. nc_role n = Requester) (topo_nodes t)),
            ls_providers := length (filter (\<lambda>n. nc_role n = Provider) (topo_nodes t))\<rparr>)"
    using wf by (subst load_nodes_to_raw [OF ok]) (auto simp: topology_wf_def load_start_def)
  ultimately show ?thesis
    using wf by (auto simp: topology_from_raw_def topology_to_raw_def topology_wf_def
        filter_empty_conv)
qed

end
