(* ===== verification/Redaction.thy ===== *)
theory Redaction
  imports Config
begin

text \<open>
  What may surface of a TOML parse error: \<open>ConfigError::parse\<close> (\<open>error.rs\<close>) and
  \<open>redact_quoted\<close>, \<open>redact_tail\<close> (\<open>private_intents.rs\<close>). A \<open>string\<close> holds the UTF-8 bytes
  of the Rust string, so \<open>trim\<close> removes the encodings of the Unicode white space and byte
  slicing has the boundary check of \<open>str\<close>.
\<close>

section \<open>Strings\<close>

definition white_space :: "string list" where
  "white_space = map (map char_of)
     ([[9], [10], [11], [12], [13], [32], [0xC2, 0x85], [0xC2, 0xA0], [0xE1, 0x9A, 0x80],
       [0xE2, 0x80, 0xA8], [0xE2, 0x80, 0xA9], [0xE2, 0x80, 0xAF], [0xE2, 0x81, 0x9F],
       [0xE3, 0x80, 0x80 :: nat]] @ map (\<lambda>b. [0xE2, 0x80, b]) [0x80..<0x8B])"

text \<open>Dropping any number of leading occurrences of the given (nonempty) strings.\<close>

definition strip_one :: "string list \<Rightarrow> string \<Rightarrow> string option" where
  "strip_one ws s = map_option (\<lambda>w. drop (length w) s)
     (List.find (\<lambda>w. w \<noteq> [] \<and> take (length w) s = w) ws)"

lemma strip_one_shorter: "strip_one ws s = Some s' \<Longrightarrow> length s' < length s"
  unfolding strip_one_def by (cases s) (auto dest!: find_Some_mem)

function strip_all :: "string list \<Rightarrow> string \<Rightarrow> string" where
  "strip_all ws s = (case strip_one ws s of None \<Rightarrow> s | Some s' \<Rightarrow> strip_all ws s')"
  by pat_completeness auto

termination strip_all
  by (relation "measure (\<lambda>(ws, s). length s)") (auto dest: strip_one_shorter)

declare strip_all.simps [simp del]

definition trim :: "string \<Rightarrow> string" where
  "trim s = rev (strip_all (map rev white_space) (rev (strip_all white_space s)))"

text \<open>\<open>str::lines\<close>: split at line feeds, dropping a carriage return before one and a last
  empty line.\<close>

definition strip_cr :: "string \<Rightarrow> string" where
  "strip_cr l = (if l \<noteq> [] \<and> last l = char_of (13 :: nat) then butlast l else l)"

definition str_lines :: "string \<Rightarrow> string list" where
  "str_lines s =
     (let parts = split_on (char_of (10 :: nat)) s
      in map strip_cr (butlast parts) @ (if last parts = [] then [] else [last parts]))"

fun join_with :: "string \<Rightarrow> string list \<Rightarrow> string" where
  "join_with sep [] = []"
| "join_with sep [x] = x"
| "join_with sep (x # y # xs) = x @ sep @ join_with sep (y # xs)"

section \<open>The redactions\<close>

definition parse_redact :: "string \<Rightarrow> string" where
  "parse_redact raw =
     join_with '' '' (filter (\<lambda>l. l \<noteq> []) (map trim
       (filter (\<lambda>l. CHR ''|'' \<notin> set l) (str_lines raw))))"

text \<open>Advancing past the closing quote, or to the end of the input.\<close>

fun skip_quoted :: "char \<Rightarrow> string \<Rightarrow> string" where
  "skip_quoted q [] = []"
| "skip_quoted q (c # cs) = (if c = q then cs else skip_quoted q cs)"

lemma length_skip_quoted: "length (skip_quoted q cs) \<le> length cs"
  by (induction cs) auto

definition double_quote :: char where
  "double_quote = char_of (34 :: nat)"

definition single_quote :: char where
  "single_quote = char_of (39 :: nat)"

definition redacted_marker :: string where
  "redacted_marker = double_quote # ''[REDACTED]'' @ [double_quote]"

function redact_quoted :: "string \<Rightarrow> string" where
  "redact_quoted [] = []"
| "redact_quoted (c # cs) =
     (if c = double_quote \<or> c = single_quote
      then redacted_marker @ redact_quoted (skip_quoted c cs)
      else c # redact_quoted cs)"
  by pat_completeness auto

termination redact_quoted
  by (relation "measure length") (auto simp: less_Suc_eq_le length_skip_quoted)

text \<open>
  \<open>redact_tail\<close>: the first 12 bytes and an ellipsis; slicing inside a multi-byte character
  panics, the value \<open>None\<close>.
\<close>

definition is_continuation_byte :: "char \<Rightarrow> bool" where
  "is_continuation_byte c \<longleftrightarrow> (let n = (of_char c :: nat) in 0x80 \<le> n \<and> n < 0xC0)"

definition ellipsis :: string where
  "ellipsis = map char_of [0xE2, 0x80, 0xA6 :: nat]"

definition redact_tail :: "string \<Rightarrow> string option" where
  "redact_tail s =
     (let trimmed = trim s
      in if length trimmed \<le> 12 then Some trimmed
         else if is_continuation_byte (trimmed ! 12) then None
         else Some (take 12 trimmed @ ellipsis))"

section \<open>What they keep\<close>

lemma set_strip_all: "set (strip_all ws s) \<subseteq> set s"
proof (induction ws s rule: strip_all.induct)
  case (1 ws s)
  show ?case
  proof (cases "strip_one ws s")
    case None
    then show ?thesis by (subst strip_all.simps) simp
  next
    case (Some s')
    then have "set s' \<subseteq> set s" by (auto simp: strip_one_def dest: in_set_dropD)
    with 1 [OF Some] Some show ?thesis by (subst strip_all.simps) auto
  qed
qed

lemma set_trim: "set (trim s) \<subseteq> set s"
  unfolding trim_def
  using set_strip_all [of "map rev white_space" "rev (strip_all white_space s)"]
    set_strip_all [of white_space s] by auto

lemma set_join_with: "set (join_with sep xs) \<subseteq> set sep \<union> (\<Union>x \<in> set xs. set x)"
  by (induction sep xs rule: join_with.induct) auto

text \<open>No source echo: TOML's echo lines all carry a pipe.\<close>

lemma parse_redact_no_pipe: "CHR ''|'' \<notin> set (parse_redact raw)"
proof
  assume "CHR ''|'' \<in> set (parse_redact raw)"
  then obtain l where "CHR ''|'' \<in> set (trim l)" "CHR ''|'' \<notin> set l"
    unfolding parse_redact_def using set_join_with by fastforce
  then show False using set_trim by blast
qed

text \<open>Whatever stands between quotes is gone, whatever it was.\<close>

lemma skip_quoted_secret: "q \<notin> set secret \<Longrightarrow> skip_quoted q (secret @ q # post) = post"
  by (induction secret) auto

lemma redact_quoted_plain:
  "double_quote \<notin> set pre \<Longrightarrow> single_quote \<notin> set pre \<Longrightarrow>
     redact_quoted (pre @ rest) = pre @ redact_quoted rest"
  by (induction pre) auto

lemma redact_quoted_secret:
  assumes "double_quote \<notin> set pre" "single_quote \<notin> set pre"
    and "q = double_quote \<or> q = single_quote" "q \<notin> set secret"
  shows "redact_quoted (pre @ q # secret @ q # post) = pre @ redacted_marker @ redact_quoted post"
  using assms by (simp add: redact_quoted_plain skip_quoted_secret)

lemma redact_quoted_idem: "redact_quoted (redact_quoted s) = redact_quoted s"
proof -
  have marker: "redact_quoted (redacted_marker @ r) = redacted_marker @ redact_quoted r" for r
    using redact_quoted_secret [of "[]" double_quote "''[REDACTED]''" r]
    by (simp add: redacted_marker_def double_quote_def char_of_def)
  show ?thesis by (induction s rule: redact_quoted.induct) (auto simp: marker)
qed

end
