(* ===== verification/Artifacts.thy ===== *)
theory Artifacts
  imports Intents
begin

text \<open>
  \<open>artifacts.rs\<close>: the public records of a run and the coordination log that collects
  them, with its commitment-key index.
\<close>

record commitment_record =
  cr_node_id :: node_id
  cr_round :: round_id
  cr_commitment_hex :: string
  cr_public_intent :: public_intent

record proposal_record =
  pr_proposer :: node_id
  pr_round :: round_id
  pr_candidate_requester :: node_id
  pr_candidate_provider :: node_id
  pr_matched_capability :: capability_tag

record proof_artifact_record =
  pf_node_id :: node_id
  pf_round :: round_id
  pf_public_inputs_hex :: string
  pf_proof_hex :: string

record completion_receipt_record =
  rc_provider :: node_id
  rc_round :: round_id
  rc_signature_hex :: string

record rejection_record =
  rj_round :: round_id
  rj_node_id :: node_id
  rj_kind :: string
  rj_reason_code :: string

record verifier_report =
  vr_run_id :: string
  vr_valid :: bool
  vr_final_round :: round_id
  vr_reasons :: "string list"

record run_status =
  st_run_id :: string
  st_finalized :: bool
  st_final_round :: round_id
  st_receipt_present :: bool
  st_abort_reason :: "string option"
  st_rejection_count :: nat
  st_bundle_files :: "string list"

datatype artifact_error =
  InvalidOutputPath string
| DirectoryNotEmpty string
| DuplicateCommitmentEntry round_id
| ArtifactIo string
| Serialization string

record coordination_log =
  log_run_id :: string
  log_schema_version :: u32
  log_commitments :: "commitment_record list"
  log_proposals :: "proposal_record list"
  log_proofs :: "proof_artifact_record list"
  log_receipts :: "completion_receipt_record list"
  log_rejections :: "rejection_record list"
  log_final_round :: round_id
  log_finalized :: bool
  log_abort_reason :: "string option"
  log_commitment_keys :: "(node_id \<times> round_id) set"

text \<open>The ids of a log have their 32 bytes, as the Rust type guarantees.\<close>

definition commitment_ids_wf :: "commitment_record \<Rightarrow> bool" where
  "commitment_ids_wf r \<longleftrightarrow> node_wf (cr_node_id r) \<and> node_wf (intent_node (cr_public_intent r))"

definition proposal_ids_wf :: "proposal_record \<Rightarrow> bool" where
  "proposal_ids_wf p \<longleftrightarrow> node_wf (pr_proposer p) \<and> node_wf (pr_candidate_requester p) \<and>
     node_wf (pr_candidate_provider p)"

definition log_ids_wf :: "coordination_log \<Rightarrow> bool" where
  "log_ids_wf l \<longleftrightarrow> (\<forall>r \<in> set (log_commitments l). commitment_ids_wf r) \<and>
     (\<forall>p \<in> set (log_proposals l). proposal_ids_wf p) \<and>
     (\<forall>p \<in> set (log_proofs l). node_wf (pf_node_id p)) \<and>
     (\<forall>r \<in> set (log_receipts l). node_wf (rc_provider r)) \<and>
     (\<forall>r \<in> set (log_rejections l). node_wf (rj_node_id r))"

definition log_new :: "string \<Rightarrow> coordination_log" where
  "log_new run_id =
     \<lparr>log_run_id = run_id, log_schema_version = 1, log_commitments = [], log_proposals = [],
      log_proofs = [], log_receipts = [], log_rejections = [], log_final_round = 0,
      log_finalized = False, log_abort_reason = None, log_commitment_keys = {}\<rparr>"

definition commitment_key :: "commitment_record \<Rightarrow> node_id \<times> round_id" where
  "commitment_key r = (cr_node_id r, cr_round r)"

definition append_commitment ::
  "commitment_record \<Rightarrow> coordination_log \<Rightarrow> (artifact_error + unit) \<times> coordination_log" where
  "append_commitment r l =
     (let key = (cr_node_id r, cr_round r)
      in if key \<in> log_commitment_keys l then (Inl (DuplicateCommitmentEntry (cr_round r)), l)
         else (Inr (), l\<lparr>log_commitment_keys := insert key (log_commitment_keys l),
                         log_commitments := log_commitments l @ [r]\<rparr>))"

definition append_proposal :: "proposal_record \<Rightarrow> coordination_log \<Rightarrow> coordination_log" where
  "append_proposal p l = l\<lparr>log_proposals := log_proposals l @ [p]\<rparr>"

definition append_proof :: "proof_artifact_record \<Rightarrow> coordination_log \<Rightarrow> coordination_log" where
  "append_proof p l = l\<lparr>log_proofs := log_proofs l @ [p]\<rparr>"

definition append_receipt :: "completion_receipt_record \<Rightarrow> coordination_log \<Rightarrow> coordination_log" where
  "append_receipt r l = l\<lparr>log_receipts := log_receipts l @ [r]\<rparr>"

definition append_rejection :: "rejection_record \<Rightarrow> coordination_log \<Rightarrow> coordination_log" where
  "append_rejection r l = l\<lparr>log_rejections := log_rejections l @ [r]\<rparr>"

definition set_final_round :: "round_id \<Rightarrow> bool \<Rightarrow> coordination_log \<Rightarrow> coordination_log" where
  "set_final_round round finalized l = l\<lparr>log_final_round := round, log_finalized := finalized\<rparr>"

definition set_abort_reason :: "string \<Rightarrow> coordination_log \<Rightarrow> coordination_log" where
  "set_abort_reason reason l = l\<lparr>log_abort_reason := Some reason\<rparr>"

lemmas log_op_defs =
  append_proposal_def append_proof_def append_receipt_def append_rejection_def
  set_final_round_def set_abort_reason_def

text \<open>\<open>reindex\<close>: on a duplicate the index built so far stays behind.\<close>

fun reindex_loop ::
  "commitment_record list \<Rightarrow> (node_id \<times> round_id) set \<Rightarrow>
     (artifact_error + unit) \<times> (node_id \<times> round_id) set" where
  "reindex_loop [] keys = (Inr (), keys)"
| "reindex_loop (r # rs) keys =
     (let key = (cr_node_id r, cr_round r)
      in if key \<in> keys then (Inl (DuplicateCommitmentEntry (cr_round r)), keys)
         else reindex_loop rs (insert key keys))"

definition reindex :: "coordination_log \<Rightarrow> (artifact_error + unit) \<times> coordination_log" where
  "reindex l =
     (case reindex_loop (log_commitments l) {} of
        (res, keys) \<Rightarrow> (res, l\<lparr>log_commitment_keys := keys\<rparr>))"

section \<open>The index agrees with the commitments\<close>

definition log_indexed :: "coordination_log \<Rightarrow> bool" where
  "log_indexed l \<longleftrightarrow> log_commitment_keys l = set (map commitment_key (log_commitments l)) \<and>
     distinct (map commitment_key (log_commitments l))"

lemma log_indexed_new [wf_intros]: "log_indexed (log_new run_id)"
  by (simp add: log_indexed_def log_new_def)

interpretation log_register:
  once_register append_commitment "\<lambda>l. set (log_commitments l)" commitment_key log_indexed
  by unfold_locales
    (auto simp: append_commitment_def log_indexed_def commitment_key_def distinct_map Let_def
      split: if_splits)

lemma reindex_loop_ok:
  "distinct (map commitment_key rs) \<Longrightarrow> commitment_key ` set rs \<inter> keys = {} \<Longrightarrow>
     reindex_loop rs keys = (Inr (), keys \<union> commitment_key ` set rs)"
  by (induction rs arbitrary: keys) (auto simp: commitment_key_def [of "_ :: commitment_record"] Let_def)

lemma reindex_loop_err:
  "\<not> (distinct (map commitment_key rs) \<and> commitment_key ` set rs \<inter> keys = {}) \<Longrightarrow>
     \<exists>e. fst (reindex_loop rs keys) = Inl e"
proof (induction rs arbitrary: keys)
  case (Cons r rs)
  show ?case
  proof (cases "commitment_key r \<in> keys")
    case True
    then show ?thesis by (simp add: commitment_key_def)
  next
    case False
    with Cons.prems have "\<not> (distinct (map commitment_key rs) \<and>
        commitment_key ` set rs \<inter> insert (commitment_key r) keys = {})" by auto
    then have "\<exists>e. fst (reindex_loop rs (insert (commitment_key r) keys)) = Inl e"
      by (rule Cons.IH)
    with False show ?thesis by (simp add: commitment_key_def)
  qed
qed simp

lemma reindex_ok:
  "is_ok (fst (reindex l)) \<longleftrightarrow> distinct (map commitment_key (log_commitments l))"
proof (cases "distinct (map commitment_key (log_commitments l))")
  case True
  then show ?thesis
    using reindex_loop_ok [of "log_commitments l" "{}"] by (simp add: reindex_def)
next
  case False
  then show ?thesis
    using reindex_loop_err [of "log_commitments l" "{}"]
    by (auto simp: reindex_def split: prod.splits)
qed

lemma reindex_indexed:
  assumes "is_ok (fst (reindex l))"
  shows "log_indexed (snd (reindex l))"
  using assms reindex_loop_ok [of "log_commitments l" "{}"]
  by (simp add: reindex_ok) (simp add: reindex_def log_indexed_def)

text \<open>
  Serialization drops the index; reading a well-indexed log back and reindexing it
  restores exactly the log that was written.
\<close>

lemma reindex_restores:
  assumes "log_indexed l"
  shows "reindex (l\<lparr>log_commitment_keys := ks\<rparr>) = (Inr (), l)"
  using assms reindex_loop_ok [of "log_commitments l" "{}"]
  by (simp add: log_indexed_def reindex_def)

lemma log_indexed_frame [inv_simps]:
  "log_indexed (append_proposal p l) = log_indexed l"
  "log_indexed (append_proof q l) = log_indexed l"
  "log_indexed (append_receipt rc l) = log_indexed l"
  "log_indexed (append_rejection rj l) = log_indexed l"
  "log_indexed (set_final_round r b l) = log_indexed l"
  "log_indexed (set_abort_reason s l) = log_indexed l"
  by (simp_all add: log_indexed_def log_op_defs)

text \<open>\<open>log.commitments.iter().find(|c| c.node_id == n && c.round == r)\<close>.\<close>

definition find_commitment ::
  "coordination_log \<Rightarrow> node_id \<Rightarrow> round_id \<Rightarrow> commitment_record option" where
  "find_commitment l n r =
     List.find (\<lambda>c. cr_node_id c = n \<and> cr_round c = r) (log_commitments l)"

lemma find_commitment_mem:
  "find_commitment l n r = Some c \<Longrightarrow>
     c \<in> set (log_commitments l) \<and> cr_node_id c = n \<and> cr_round c = r"
  unfolding find_commitment_def by (drule find_Some_mem) simp

lemma find_commitment_unique:
  assumes "log_indexed l" "c \<in> set (log_commitments l)"
  shows "find_commitment l (cr_node_id c) (cr_round c) = Some c"
  using assms unfolding find_commitment_def log_indexed_def
  by (intro find_unique) (auto simp: distinct_map inj_on_def commitment_key_def)

lemma find_commitment_append:
  assumes "find_commitment l n r = Some c"
  shows "find_commitment (l\<lparr>log_commitments := log_commitments l @ cs\<rparr>) n r = Some c"
  using assms by (simp add: find_commitment_def find_append)

end
