(* ===== verification/Matching.thy ===== *)
theory Matching
  imports Artifacts "HOL-Library.Multiset"
begin

text \<open>
  \<open>predicate.rs\<close>, \<open>proposer.rs\<close>, \<open>candidate.rs\<close> and the pure part of \<open>parity.rs\<close>: the
  match predicate over public intents, proposer rotation, and the deterministic candidate.
\<close>

datatype predicate_denial =
  WrongRequesterRole | WrongProviderRole | RequesterRoundMismatch | ProviderRoundMismatch
| RequesterProviderRoundMismatch | ProviderLacksCapability | RequesterIdentityMismatch
| ProviderIdentityMismatch | CapabilityAnnotationMismatch

fun denial_tag :: "predicate_denial \<Rightarrow> string" where
  "denial_tag WrongRequesterRole = ''wrong_requester_role''"
| "denial_tag WrongProviderRole = ''wrong_provider_role''"
| "denial_tag RequesterRoundMismatch = ''requester_round_mismatch''"
| "denial_tag ProviderRoundMismatch = ''provider_round_mismatch''"
| "denial_tag RequesterProviderRoundMismatch = ''requester_provider_round_mismatch''"
| "denial_tag ProviderLacksCapability = ''provider_lacks_capability''"
| "denial_tag RequesterIdentityMismatch = ''requester_identity_mismatch''"
| "denial_tag ProviderIdentityMismatch = ''provider_identity_mismatch''"
| "denial_tag CapabilityAnnotationMismatch = ''capability_annotation_mismatch''"

definition match_predicate ::
  "public_intent \<Rightarrow> public_intent \<Rightarrow> round_id \<Rightarrow> predicate_denial + unit" where
  "match_predicate requester provider round =
     (case requester of
        PubProvider _ _ _ \<Rightarrow> Inl WrongRequesterRole
      | PubRequester _ req_round req_cap \<Rightarrow>
          (case provider of
             PubRequester _ _ _ \<Rightarrow> Inl WrongProviderRole
           | PubProvider _ prov_round prov_claims \<Rightarrow>
               if req_round \<noteq> round \<and> prov_round \<noteq> round then Inl RequesterProviderRoundMismatch
               else if req_round \<noteq> round then Inl RequesterRoundMismatch
               else if prov_round \<noteq> round then Inl ProviderRoundMismatch
               else if req_cap \<notin> set prov_claims then Inl ProviderLacksCapability
               else Inr ()))"

definition validate_proposal_annotation ::
  "node_id \<Rightarrow> public_intent \<Rightarrow> node_id \<Rightarrow> public_intent \<Rightarrow> capability_tag \<Rightarrow>
     predicate_denial + unit" where
  "validate_proposal_annotation cand_req req_intent cand_prov prov_intent matched =
     (if intent_node req_intent \<noteq> cand_req then Inl RequesterIdentityMismatch
      else if intent_node prov_intent \<noteq> cand_prov then Inl ProviderIdentityMismatch
      else case req_intent of
             PubRequester _ _ required \<Rightarrow>
               if required \<noteq> matched then Inl CapabilityAnnotationMismatch else Inr ()
           | PubProvider _ _ _ \<Rightarrow> Inl WrongRequesterRole)"

datatype expected_outcome = Accept | Reject string

fun outcome_from_runtime :: "predicate_denial + unit \<Rightarrow> expected_outcome" where
  "outcome_from_runtime (Inr _) = Accept"
| "outcome_from_runtime (Inl d) = Reject (denial_tag d)"

lemma denial_tag_inject: "denial_tag d = denial_tag e \<longleftrightarrow> d = e"
  by (cases d; cases e) auto

lemma match_predicate_Inr:
  "match_predicate req prov r = Inr () \<longleftrightarrow>
     (\<exists>n m cap claims. req = PubRequester n r cap \<and> prov = PubProvider m r claims \<and>
        cap \<in> set claims)"
  by (auto simp: match_predicate_def split: public_intent.splits if_splits)

lemma validate_annotation_Inr:
  "validate_proposal_annotation cr ri cp pi cap = Inr () \<longleftrightarrow>
     (\<exists>r. ri = PubRequester cr r cap) \<and> intent_node pi = cp"
  by (auto simp: validate_proposal_annotation_def split: public_intent.splits if_splits)

section \<open>Proposer rotation\<close>

datatype proposer_error = NoProvidersGiven | DuplicateInput string

definition proposer_for_round ::
  "crates \<Rightarrow> round_id \<Rightarrow> node_id list \<Rightarrow> proposer_error + node_id" where
  "proposer_for_round c round providers =
     (if providers = [] then Inl NoProvidersGiven
      else and_then
        (try_fold (\<lambda>p seen. if p \<in> seen then Inl (DuplicateInput (to_hex c p))
                            else Inr (insert p seen)) providers {})
        (\<lambda>_. Inr (providers ! (unat round mod length providers))))"

lemma dup_scan_Inr:
  "(\<exists>s. try_fold (\<lambda>p seen. if p \<in> seen then Inl (DuplicateInput (to_hex c p))
        else Inr (insert p seen)) ps seen = Inr s) \<longleftrightarrow> distinct ps \<and> set ps \<inter> seen = {}"
  by (induction ps arbitrary: seen) auto

lemma proposer_for_round_Inr:
  "proposer_for_round c r ps = Inr p \<longleftrightarrow>
     ps \<noteq> [] \<and> distinct ps \<and> p = ps ! (unat r mod length ps)"
  using dup_scan_Inr [of c ps "{}"] by (auto simp: proposer_for_round_def)

lemma proposer_mem: "proposer_for_round c r ps = Inr p \<Longrightarrow> p \<in> set ps"
  by (auto simp: proposer_for_round_Inr)

lemma proposer_total: "ps \<noteq> [] \<Longrightarrow> distinct ps \<Longrightarrow> \<exists>p. proposer_for_round c r ps = Inr p"
  by (simp add: proposer_for_round_Inr)

lemma add_mod_covers:
  fixes a n i :: nat
  assumes "i < n"
  shows "\<exists>k < n. (a + k) mod n = i"
proof -
  let ?k = "(i + n * a - a) mod n"
  have "a \<le> i + n * a" using assms by (cases n) auto
  then have "(a + ?k) mod n = (i + n * a) mod n" by (simp add: mod_add_right_eq)
  with assms show ?thesis by (intro exI [of _ ?k]) simp
qed

text \<open>Any \<open>length ps\<close> consecutive rounds give every provider a turn.\<close>

lemma proposer_rotation_covers:
  assumes "distinct ps" "p \<in> set ps" "unat r + length ps \<le> 2 ^ 64"
  shows "\<exists>k < length ps. proposer_for_round c (r + word_of_nat k) ps = Inr p"
proof -
  obtain i where i: "i < length ps" "ps ! i = p" using assms(2) by (auto simp: in_set_conv_nth)
  obtain k where k: "k < length ps" "(unat r + k) mod length ps = i"
    using add_mod_covers [OF i(1)] by blast
  have "unat (r + word_of_nat k) = unat r + k"
    using k(1) assms(3) by (simp add: unat_word_ariths unat_of_nat take_bit_eq_mod)
  with i k assms(1) have "proposer_for_round c (r + word_of_nat k) ps = Inr p"
    by (auto simp: proposer_for_round_Inr)
  with k(1) show ?thesis by blast
qed

section \<open>Candidates\<close>

record candidate =
  cand_requester :: node_id
  cand_provider :: node_id
  cand_matched_capability :: capability_tag

datatype candidate_rejection = MissingRequesterCapability | WrongRoundInRequester

definition feasible_providers ::
  "round_id \<Rightarrow> commitment_record \<Rightarrow> commitment_record list \<Rightarrow> node_id list" where
  "feasible_providers round requester providers =
     map cr_node_id (filter
       (\<lambda>p. is_ok (match_predicate (cr_public_intent requester) (cr_public_intent p) round))
       providers)"

definition derive_candidate ::
  "round_id \<Rightarrow> commitment_record \<Rightarrow> commitment_record list \<Rightarrow>
     candidate_rejection + candidate option" where
  "derive_candidate round requester providers =
     (case cr_public_intent requester of
        PubProvider _ _ _ \<Rightarrow> Inl MissingRequesterCapability
      | PubRequester _ r required \<Rightarrow>
          if r \<noteq> round then Inl WrongRoundInRequester
          else if tag_str required = [] then Inl MissingRequesterCapability
          else (case sort (feasible_providers round requester providers) of
                  [] \<Rightarrow> Inr None
                | provider # _ \<Rightarrow>
                    Inr (Some \<lparr>cand_requester = cr_node_id requester, cand_provider = provider,
                               cand_matched_capability = required\<rparr>)))"

lemma set_feasible_providers:
  "set (feasible_providers r req ps) = {cr_node_id p | p. p \<in> set ps \<and>
     match_predicate (cr_public_intent req) (cr_public_intent p) r = Inr ()}"
  by (auto simp: feasible_providers_def is_ok_iff)

lemma sort_Cons_Min: "sort xs = y # ys \<Longrightarrow> y \<in> set xs \<and> (\<forall>x \<in> set xs. y \<le> x)"
  by (metis list.set_intros(1) set_ConsD set_sort sorted_simps(2) sorted_sort order_refl)

lemma sort_Nil_iff [simp]: "sort xs = [] \<longleftrightarrow> xs = []"
  by (metis length_0_conv length_sort)

lemma derive_candidate_Some:
  assumes "derive_candidate r req ps = Inr (Some cd)"
  shows "cand_requester cd = cr_node_id req"
    "\<exists>n. cr_public_intent req = PubRequester n r (cand_matched_capability cd)"
    "\<exists>p \<in> set ps. cr_node_id p = cand_provider cd \<and>
       match_predicate (cr_public_intent req) (cr_public_intent p) r = Inr ()"
    "\<forall>p \<in> set ps. match_predicate (cr_public_intent req) (cr_public_intent p) r = Inr () \<longrightarrow>
       cand_provider cd \<le> cr_node_id p"
  using assms sort_Cons_Min [of "feasible_providers r req ps"]
  unfolding derive_candidate_def
  by (auto simp: set_feasible_providers split: public_intent.splits if_splits list.splits)

lemma derive_candidate_None:
  assumes "derive_candidate r req ps = Inr None" "p \<in> set ps"
  shows "match_predicate (cr_public_intent req) (cr_public_intent p) r \<noteq> Inr ()"
proof
  assume "match_predicate (cr_public_intent req) (cr_public_intent p) r = Inr ()"
  with assms(2) have "cr_node_id p \<in> set (feasible_providers r req ps)"
    by (auto simp: set_feasible_providers)
  then have "feasible_providers r req ps \<noteq> []" by auto
  with assms(1) show False
    by (auto simp: derive_candidate_def split: public_intent.splits if_splits list.splits)
qed

lemma derive_candidate_Inl:
  "derive_candidate r req ps = Inl e \<longleftrightarrow>
     (case cr_public_intent req of
        PubProvider _ _ _ \<Rightarrow> e = MissingRequesterCapability
      | PubRequester _ s cap \<Rightarrow>
          s \<noteq> r \<and> e = WrongRoundInRequester \<or>
          s = r \<and> tag_str cap = [] \<and> e = MissingRequesterCapability)"
  by (auto simp: derive_candidate_def split: public_intent.splits if_splits list.splits)

text \<open>The candidate is a function of the set of commitments, not of their order.\<close>

lemma derive_candidate_perm:
  assumes "mset ps = mset qs"
  shows "derive_candidate r req ps = derive_candidate r req qs"
proof -
  have "mset (feasible_providers r req ps) = mset (feasible_providers r req qs)"
    using assms by (simp add: feasible_providers_def)
  then have "sort (feasible_providers r req ps) = sort (feasible_providers r req qs)"
    by (metis mset_sort properties_for_sort sorted_sort)
  then show ?thesis by (auto simp: derive_candidate_def split: public_intent.split)
qed

end
