(* ===== verification/Round_Machine.thy ===== *)
theory Round_Machine
  imports Matching Config
begin

text \<open>
  \<open>round_machine.rs\<close>: the state machine that accepts commitments and one proposal for the
  active round, refuses double commits and replays, and finalizes rounds into history. The
  operations return their result and the machine they leave behind; \<open>rm_step\<close> is the
  relation of the accepted operations and \<open>rm_reachable\<close> the machines a run can produce.
\<close>

datatype round_error =
  RoundMismatch round_id round_id   \<comment> \<open>expected, actual\<close>
| DuplicateCommitment round_id
| ReplayDetected
| UnknownNode
| RoleMismatch
| BackwardTransition
| ProposerError proposer_error
| WrongProposer
| UnknownRequesterCommitment
| UnknownProviderCommitment
| TamperedProposal predicate_denial
| AlreadyFinalized

record finalized_round =
  fr_round :: round_id
  fr_commitments :: "(node_id, commitment_record) btree_map"
  fr_proposal :: "proposal_record option"

record round_machine =
  rm_topology :: topology_config
  rm_current :: round_id
  rm_commitments :: "(node_id, commitment_record) btree_map"
  rm_proposal :: "proposal_record option"
  rm_history_hex :: "string set"
  rm_past :: "finalized_round list"

definition round_machine_new :: "topology_config \<Rightarrow> round_id \<Rightarrow> round_machine" where
  "round_machine_new topology start =
     \<lparr>rm_topology = topology, rm_current = start, rm_commitments = [], rm_proposal = None,
      rm_history_hex = {}, rm_past = []\<rparr>"

definition providers_stable :: "round_machine \<Rightarrow> node_id list" where
  "providers_stable m = map nc_id (providers_stable_order (rm_topology m))"

definition current_proposer :: "crates \<Rightarrow> round_machine \<Rightarrow> round_error + node_id" where
  "current_proposer c m =
     (case proposer_for_round c (rm_current m) (providers_stable m) of
        Inl e \<Rightarrow> Inl (ProposerError e)
      | Inr p \<Rightarrow> Inr p)"

text \<open>The checks of \<open>accept_commitment\<close>, in the order the code makes them.\<close>

definition check_commitment :: "commitment_record \<Rightarrow> round_machine \<Rightarrow> round_error + unit" where
  "check_commitment rec m =
     (if rm_proposal m \<noteq> None then Inl AlreadyFinalized
      else if cr_round rec \<noteq> rm_current m then Inl (RoundMismatch (rm_current m) (cr_round rec))
      else case find_node (rm_topology m) (cr_node_id rec) of
        None \<Rightarrow> Inl UnknownNode
      | Some node_cfg \<Rightarrow>
          if intent_role (cr_public_intent rec) \<noteq> nc_role node_cfg then Inl RoleMismatch
          else if intent_round (cr_public_intent rec) \<noteq> rm_current m
          then Inl (RoundMismatch (rm_current m) (intent_round (cr_public_intent rec)))
          else if intent_node (cr_public_intent rec) \<noteq> cr_node_id rec then Inl RoleMismatch
          else if bt_contains (rm_commitments m) (cr_node_id rec)
          then Inl (DuplicateCommitment (rm_current m))
          else if cr_commitment_hex rec \<in> rm_history_hex m then Inl ReplayDetected
          else if nc_role node_cfg = Requester \<and>
              (case cr_public_intent rec of PubRequester _ _ cap \<Rightarrow> tag_str cap = []
               | PubProvider _ _ _ \<Rightarrow> False)
          then Inl RoleMismatch
          else Inr ())"

definition accept_commitment ::
  "commitment_record \<Rightarrow> round_machine \<Rightarrow> (round_error + unit) \<times> round_machine" where
  "accept_commitment rec m =
     (case check_commitment rec m of
        Inl e \<Rightarrow> (Inl e, m)
      | Inr _ \<Rightarrow>
          (Inr (), m\<lparr>rm_history_hex := insert (cr_commitment_hex rec) (rm_history_hex m),
                     rm_commitments := bt_insert (cr_node_id rec) rec (rm_commitments m)\<rparr>))"

definition check_proposal :: "crates \<Rightarrow> proposal_record \<Rightarrow> round_machine \<Rightarrow> round_error + unit" where
  "check_proposal c p m =
     (if rm_proposal m \<noteq> None then Inl AlreadyFinalized
      else if pr_round p \<noteq> rm_current m then Inl (RoundMismatch (rm_current m) (pr_round p))
      else and_then (current_proposer c m) (\<lambda>expected.
        if pr_proposer p \<noteq> expected then Inl WrongProposer
        else and_then (ok_or UnknownRequesterCommitment
               (bt_get (rm_commitments m) (pr_candidate_requester p))) (\<lambda>req_commit.
        and_then (ok_or UnknownProviderCommitment
               (bt_get (rm_commitments m) (pr_candidate_provider p))) (\<lambda>prov_commit.
        (case validate_proposal_annotation (pr_candidate_requester p)
                (cr_public_intent req_commit) (pr_candidate_provider p)
                (cr_public_intent prov_commit) (pr_matched_capability p) of
           Inl d \<Rightarrow> Inl (TamperedProposal d)
         | Inr _ \<Rightarrow>
             (case cr_public_intent prov_commit of
                PubProvider _ _ claims \<Rightarrow>
                  if pr_matched_capability p \<notin> set claims
                  then Inl (TamperedProposal ProviderLacksCapability) else Inr ()
              | PubRequester _ _ _ \<Rightarrow> Inl (TamperedProposal WrongProviderRole)))))))"

definition accept_proposal ::
  "crates \<Rightarrow> proposal_record \<Rightarrow> round_machine \<Rightarrow> (round_error + unit) \<times> round_machine" where
  "accept_proposal c p m =
     (case check_proposal c p m of
        Inl e \<Rightarrow> (Inl e, m)
      | Inr _ \<Rightarrow> (Inr (), m\<lparr>rm_proposal := Some p\<rparr>))"

definition advance_to :: "round_id \<Rightarrow> round_machine \<Rightarrow> (round_error + unit) \<times> round_machine" where
  "advance_to next m =
     (if next \<le> rm_current m then (Inl BackwardTransition, m)
      else (Inr (), m\<lparr>rm_past := rm_past m @
                         [\<lparr>fr_round = rm_current m, fr_commitments = rm_commitments m,
                           fr_proposal = rm_proposal m\<rparr>],
                      rm_commitments := [], rm_proposal := None, rm_current := next\<rparr>))"

definition advance_fallback :: "round_machine \<Rightarrow> (round_error + unit) \<times> round_machine" where
  "advance_fallback m = advance_to (round_next (rm_current m)) m"

definition finalized_round_count :: "round_machine \<Rightarrow> nat" where
  "finalized_round_count m = length (rm_past m)"

definition past_commitments ::
  "nat \<Rightarrow> round_machine \<Rightarrow> (node_id, commitment_record) btree_map option" where
  "past_commitments i m =
     (if i < length (rm_past m) then Some (fr_commitments (rm_past m ! i)) else None)"

section \<open>Each operation, branch by branch\<close>

lemma check_commitment_Inr:
  "check_commitment rec m = Inr u \<longleftrightarrow>
     rm_proposal m = None \<and> cr_round rec = rm_current m \<and>
     (\<exists>cfg. find_node (rm_topology m) (cr_node_id rec) = Some cfg \<and>
        intent_role (cr_public_intent rec) = nc_role cfg) \<and>
     intent_round (cr_public_intent rec) = rm_current m \<and>
     intent_node (cr_public_intent rec) = cr_node_id rec \<and>
     bt_get (rm_commitments m) (cr_node_id rec) = None \<and>
     cr_commitment_hex rec \<notin> rm_history_hex m \<and>
     (\<forall>n r cap. cr_public_intent rec = PubRequester n r cap \<longrightarrow> tag_str cap \<noteq> [])"
  by (cases "cr_public_intent rec")
    (auto simp: check_commitment_def bt_contains_def split: option.splits if_splits)

lemma accept_commitment_Inr:
  "accept_commitment rec m = (Inr u, m') \<longleftrightarrow> check_commitment rec m = Inr u \<and>
     m' = m\<lparr>rm_history_hex := insert (cr_commitment_hex rec) (rm_history_hex m),
            rm_commitments := bt_insert (cr_node_id rec) rec (rm_commitments m)\<rparr>"
  by (auto simp: accept_commitment_def split: sum.splits)

lemma accept_commitment_Inl:
  "accept_commitment rec m = (Inl e, m') \<longleftrightarrow> check_commitment rec m = Inl e \<and> m' = m"
  by (auto simp: accept_commitment_def split: sum.splits)

lemma claims_check_Inr:
  "(case i of PubProvider _ _ claims \<Rightarrow> if cap \<notin> set claims then Inl e else Inr ()
    | PubRequester _ _ _ \<Rightarrow> Inl d) = Inr u \<longleftrightarrow>
     (\<exists>n s claims. i = PubProvider n s claims \<and> cap \<in> set claims)"
  by (cases i) auto

lemma check_proposal_Inr:
  "check_proposal c p m = Inr u \<longleftrightarrow>
     rm_proposal m = None \<and> pr_round p = rm_current m \<and>
     current_proposer c m = Inr (pr_proposer p) \<and>
     (\<exists>req prov r s claims.
        bt_get (rm_commitments m) (pr_candidate_requester p) = Some req \<and>
        bt_get (rm_commitments m) (pr_candidate_provider p) = Some prov \<and>
        cr_public_intent req = PubRequester (pr_candidate_requester p) r (pr_matched_capability p) \<and>
        cr_public_intent prov = PubProvider (pr_candidate_provider p) s claims \<and>
        pr_matched_capability p \<in> set claims)"
proof -
  have "check_proposal c p m = Inr u \<longleftrightarrow>
     rm_proposal m = None \<and> pr_round p = rm_current m \<and>
     current_proposer c m = Inr (pr_proposer p) \<and>
     (\<exists>req prov. bt_get (rm_commitments m) (pr_candidate_requester p) = Some req \<and>
        bt_get (rm_commitments m) (pr_candidate_provider p) = Some prov \<and>
        (\<exists>r. cr_public_intent req = PubRequester (pr_candidate_requester p) r (pr_matched_capability p)) \<and>
        intent_node (cr_public_intent prov) = pr_candidate_provider p \<and>
        (\<exists>n s claims. cr_public_intent prov = PubProvider n s claims \<and>
           pr_matched_capability p \<in> set claims))"
    unfolding check_proposal_def
    by (auto simp: validate_annotation_Inr claims_check_Inr split: if_splits)
  then show ?thesis by fastforce
qed

lemma accept_proposal_Inr:
  "accept_proposal c p m = (Inr u, m') \<longleftrightarrow>
     check_proposal c p m = Inr u \<and> m' = m\<lparr>rm_proposal := Some p\<rparr>"
  by (auto simp: accept_proposal_def split: sum.splits)

lemma accept_proposal_Inl:
  "accept_proposal c p m = (Inl e, m') \<longleftrightarrow> check_proposal c p m = Inl e \<and> m' = m"
  by (auto simp: accept_proposal_def split: sum.splits)

lemma advance_to_Inr:
  "advance_to r m = (Inr u, m') \<longleftrightarrow> rm_current m < r \<and>
     m' = m\<lparr>rm_past := rm_past m @ [\<lparr>fr_round = rm_current m,
              fr_commitments = rm_commitments m, fr_proposal = rm_proposal m\<rparr>],
            rm_commitments := [], rm_proposal := None, rm_current := r\<rparr>"
  by (auto simp: advance_to_def)

lemma rejected_unchanged:
  "accept_commitment rec m = (Inl e, m') \<Longrightarrow> m' = m"
  "accept_proposal c p m = (Inl e, m') \<Longrightarrow> m' = m"
  "advance_to r m = (Inl e, m') \<Longrightarrow> m' = m"
  "advance_fallback m = (Inl e, m') \<Longrightarrow> m' = m"
  by (auto simp: accept_commitment_Inl accept_proposal_Inl advance_to_def advance_fallback_def
      split: if_splits)

lemma advance_fallback_Inr: "rm_current m \<noteq> - 1 \<Longrightarrow> fst (advance_fallback m) = Inr ()"
  using round_next_greater [of "rm_current m"]
  by (simp add: advance_fallback_def advance_to_def)

lemma advance_fallback_last_round:
  "rm_current m = - 1 \<Longrightarrow> advance_fallback m = (Inl BackwardTransition, m)"
  by (simp add: advance_fallback_def advance_to_def round_next_wraps)

section \<open>Invariant\<close>

text \<open>What the machine keeps of each accepted commitment of the active round.\<close>

definition commitment_accepted ::
  "topology_config \<Rightarrow> round_id \<Rightarrow> node_id \<Rightarrow> commitment_record \<Rightarrow> bool" where
  "commitment_accepted t r i rec \<longleftrightarrow> cr_node_id rec = i \<and> cr_round rec = r \<and>
     intent_node (cr_public_intent rec) = i \<and> intent_round (cr_public_intent rec) = r \<and>
     (\<exists>cfg. find_node t i = Some cfg \<and> nc_role cfg = intent_role (cr_public_intent rec))"

text \<open>Every commitment ever accepted, oldest round first.\<close>

definition all_accepted :: "round_machine \<Rightarrow> commitment_record list" where
  "all_accepted m =
     concat (map (\<lambda>f. map snd (fr_commitments f)) (rm_past m)) @ map snd (rm_commitments m)"

definition proposal_accepted :: "crates \<Rightarrow> round_machine \<Rightarrow> proposal_record \<Rightarrow> bool" where
  "proposal_accepted c m p \<longleftrightarrow> pr_round p = rm_current m \<and>
     current_proposer c m = Inr (pr_proposer p) \<and>
     (\<exists>req prov r s claims.
        bt_get (rm_commitments m) (pr_candidate_requester p) = Some req \<and>
        bt_get (rm_commitments m) (pr_candidate_provider p) = Some prov \<and>
        cr_public_intent req = PubRequester (pr_candidate_requester p) r (pr_matched_capability p) \<and>
        cr_public_intent prov = PubProvider (pr_candidate_provider p) s claims \<and>
        pr_matched_capability p \<in> set claims)"

definition rm_inv :: "crates \<Rightarrow> round_machine \<Rightarrow> bool" where
  "rm_inv c m \<longleftrightarrow> bt_sorted (rm_commitments m) \<and>
     (\<forall>i rec. bt_get (rm_commitments m) i = Some rec \<longrightarrow>
        commitment_accepted (rm_topology m) (rm_current m) i rec) \<and>
     cr_commitment_hex ` set (all_accepted m) = rm_history_hex m \<and>
     distinct (map cr_commitment_hex (all_accepted m)) \<and>
     sorted_wrt (<) (map fr_round (rm_past m)) \<and>
     (\<forall>f \<in> set (rm_past m). fr_round f < rm_current m) \<and>
     (\<forall>p. rm_proposal m = Some p \<longrightarrow> proposal_accepted c m p)"

lemma rm_inv_new [wf_intros]: "rm_inv c (round_machine_new t r)"
  by (simp add: rm_inv_def round_machine_new_def all_accepted_def bt.inv_empty)

lemma mset_snd_bt_insert:
  "bt_get m k = None \<Longrightarrow>
     image_mset snd (mset (bt_insert k v m)) = add_mset v (image_mset snd (mset m))"
  by (induction k v m rule: bt_insert.induct) (auto simp: bt_get_def split: if_splits)

lemma mset_eq_distinct_map:
  "mset xs = mset ys \<Longrightarrow> distinct (map f xs) \<longleftrightarrow> distinct (map f ys)"
  by (rule mset_eq_imp_distinct_iff) simp

lemma accept_commitment_inv:
  assumes inv: "rm_inv c m" and acc: "accept_commitment rec m = (Inr u, m')"
  shows "rm_inv c m'"
proof -
  note chk = acc [unfolded accept_commitment_Inr check_commitment_Inr]
  let ?m = "m\<lparr>rm_history_hex := insert (cr_commitment_hex rec) (rm_history_hex m),
              rm_commitments := bt_insert (cr_node_id rec) rec (rm_commitments m)\<rparr>"
  have m': "m' = ?m" using chk by simp
  have ms: "mset (all_accepted ?m) = mset (rec # all_accepted m)"
    using chk by (simp add: all_accepted_def mset_snd_bt_insert)
  have set: "set (all_accepted ?m) = insert rec (set (all_accepted m))"
    using mset_eq_setD [OF ms] by simp
  have "distinct (map cr_commitment_hex (rec # all_accepted m))"
    using inv chk by (auto simp: rm_inv_def)
  then have dist: "distinct (map cr_commitment_hex (all_accepted ?m))"
    using mset_eq_distinct_map [OF ms, of cr_commitment_hex] by blast
  show ?thesis
    unfolding m' rm_inv_def using inv chk set dist
    by (auto simp: rm_inv_def bt_get_insert bt_sorted_insert commitment_accepted_def)
qed

lemma accept_proposal_inv:
  assumes "rm_inv c m" and "accept_proposal c p m = (Inr u, m')"
  shows "rm_inv c m'"
proof -
  note chk = assms(2) [unfolded accept_proposal_Inr check_proposal_Inr]
  have m': "m' = m\<lparr>rm_proposal := Some p\<rparr>" using chk by simp
  have "proposal_accepted c m' p"
    using chk unfolding m' proposal_accepted_def current_proposer_def providers_stable_def by auto
  with assms(1) show ?thesis
    unfolding m' by (simp add: rm_inv_def all_accepted_def)
qed

lemma advance_to_inv:
  assumes "rm_inv c m" and "advance_to r m = (Inr u, m')"
  shows "rm_inv c m'"
proof -
  have m': "m' = m\<lparr>rm_past := rm_past m @ [\<lparr>fr_round = rm_current m,
              fr_commitments = rm_commitments m, fr_proposal = rm_proposal m\<rparr>],
            rm_commitments := [], rm_proposal := None, rm_current := r\<rparr>" and lt: "rm_current m < r"
    using assms(2) by (simp_all add: advance_to_Inr)
  have "all_accepted m' = all_accepted m" by (simp add: m' all_accepted_def)
  moreover have "\<forall>f \<in> set (rm_past m). fr_round f < r"
    using assms(1) lt unfolding rm_inv_def by (metis order_less_trans)
  ultimately show ?thesis
    using assms(1) lt by (auto simp: m' rm_inv_def sorted_wrt_append bt.inv_empty)
qed

section \<open>Reachable machines\<close>

datatype rm_event = Commit commitment_record | Propose proposal_record | Advance round_id

inductive rm_step :: "crates \<Rightarrow> round_machine \<Rightarrow> rm_event \<Rightarrow> round_machine \<Rightarrow> bool"
  for c :: crates where
  commit: "accept_commitment rec m = (Inr (), m') \<Longrightarrow> rm_step c m (Commit rec) m'"
| propose: "accept_proposal c p m = (Inr (), m') \<Longrightarrow> rm_step c m (Propose p) m'"
| advance: "advance_to r m = (Inr (), m') \<Longrightarrow> rm_step c m (Advance r) m'"

inductive_cases rm_step_commitE: "rm_step c m (Commit rec) m'"
inductive_cases rm_step_proposeE: "rm_step c m (Propose p) m'"
inductive_cases rm_step_advanceE: "rm_step c m (Advance r) m'"
inductive_simps rm_step_commit_iff: "rm_step c m (Commit rec) m'"

inductive rm_reachable :: "crates \<Rightarrow> topology_config \<Rightarrow> round_machine \<Rightarrow> bool"
  for c :: crates and t :: topology_config where
  start: "rm_reachable c t (round_machine_new t r)"
| step: "rm_reachable c t m \<Longrightarrow> rm_step c m e m' \<Longrightarrow> rm_reachable c t m'"

lemma rm_step_inv: "rm_step c m e m' \<Longrightarrow> rm_inv c m \<Longrightarrow> rm_inv c m'"
  by (induction rule: rm_step.induct)
    (auto intro: accept_commitment_inv accept_proposal_inv advance_to_inv)

lemma rm_step_topology: "rm_step c m e m' \<Longrightarrow> rm_topology m' = rm_topology m"
  by (induction rule: rm_step.induct)
    (auto simp: accept_commitment_Inr accept_proposal_Inr advance_to_Inr)

lemma rm_step_current: "rm_step c m e m' \<Longrightarrow> rm_current m \<le> rm_current m'"
  by (induction rule: rm_step.induct)
    (auto simp: accept_commitment_Inr accept_proposal_Inr advance_to_Inr)

lemma rm_step_history: "rm_step c m e m' \<Longrightarrow> rm_history_hex m \<subseteq> rm_history_hex m'"
  by (induction rule: rm_step.induct)
    (auto simp: accept_commitment_Inr accept_proposal_Inr advance_to_Inr)

lemma round_machine_new_sel [simp]:
  "rm_topology (round_machine_new t r) = t" "rm_current (round_machine_new t r) = r"
  "rm_commitments (round_machine_new t r) = []" "rm_proposal (round_machine_new t r) = None"
  by (simp_all add: round_machine_new_def)

lemma rm_reachable_inv: "rm_reachable c t m \<Longrightarrow> rm_inv c m \<and> rm_topology m = t"
  by (induction rule: rm_reachable.induct)
    (auto simp: rm_inv_new dest: rm_step_inv rm_step_topology)

section \<open>Within a round: once per node\<close>

definition rm_round_wf :: "round_machine \<Rightarrow> bool" where
  "rm_round_wf m \<longleftrightarrow> bt_sorted (rm_commitments m) \<and>
     (\<forall>(i, rec) \<in> set (rm_commitments m). cr_node_id rec = i)"

definition rm_recorded :: "round_machine \<Rightarrow> commitment_record set" where
  "rm_recorded m = snd ` set (rm_commitments m)"

lemma rm_recorded_insert:
  assumes "bt_get (rm_commitments m) k = None"
  shows "snd ` set (bt_insert k v (rm_commitments m)) = insert v (snd ` set (rm_commitments m))"
  using arg_cong [OF mset_snd_bt_insert [OF assms, of v], of set_mset] by simp

lemma rm_recorded_get:
  assumes "rm_round_wf m" "rec \<in> rm_recorded m"
  shows "bt_get (rm_commitments m) (cr_node_id rec) = Some rec"
  using assms bt_get_iff_mem [of "rm_commitments m"]
  by (auto simp: rm_round_wf_def rm_recorded_def)

lemma set_bt_insert: "set (bt_insert k v m) \<subseteq> insert (k, v) (set m)"
  by (induction k v m rule: bt_insert.induct) auto

interpretation machine_register:
  once_register accept_commitment rm_recorded cr_node_id rm_round_wf
proof
  fix rec m e m' assume "accept_commitment rec m = (Inl e, m')"
  then show "m' = m" by (simp add: accept_commitment_Inl)
next
  fix rec m m' assume wf: "rm_round_wf m" and acc: "accept_commitment rec m = (Inr (), m')"
  then have new: "bt_get (rm_commitments m) (cr_node_id rec) = None"
    and m': "rm_commitments m' = bt_insert (cr_node_id rec) rec (rm_commitments m)"
    by (auto simp: accept_commitment_Inr check_commitment_Inr)
  have "cr_node_id rec \<notin> cr_node_id ` rm_recorded m"
    using new wf by (force simp: rm_recorded_def rm_round_wf_def bt_get_def map_of_eq_None_iff)
  moreover have "rm_round_wf m'"
    using wf set_bt_insert [of "cr_node_id rec" rec "rm_commitments m"]
    by (auto simp: rm_round_wf_def m' bt_sorted_insert)
  ultimately show "rm_round_wf m' \<and> cr_node_id rec \<notin> cr_node_id ` rm_recorded m \<and>
      rm_recorded m' = insert rec (rm_recorded m)"
    using rm_recorded_insert [OF new] by (simp add: rm_recorded_def m')
next
  fix m assume wf: "rm_round_wf m"
  show "inj_on cr_node_id (rm_recorded m)"
    by (rule inj_onI) (metis rm_recorded_get [OF wf] option.inject)
qed

end
