(* ===== verification/Transport.thy ===== *)
theory Transport
  imports Round_Machine
begin

text \<open>
  The messages of \<open>runtime.rs\<close>, its \<open>CoordinationTransport\<close> trait as a record of
  functions, the in-process \<open>OrderedBus\<close>, and the \<open>while let Some(msg) =
  transport.next_ordered()\<close> loop every drain of the runtime is built on. The loop is a
  \<open>partial_function\<close>: a transport that never runs dry makes it diverge, the value
  \<open>None\<close>.
\<close>

datatype message_payload =
  PCommitment commitment_record
| PProposal proposal_record
| PProof proof_artifact_record
| PReceipt completion_receipt_record

record coordination_message =
  msg_origin :: node_id
  msg_payload :: message_payload

datatype transport_error = Closed

record 't transport =
  tr_broadcast :: "coordination_message \<Rightarrow> 't \<Rightarrow> (transport_error + unit) \<times> 't"
  tr_next_ordered :: "'t \<Rightarrow> coordination_message option \<times> 't"
  tr_flush :: "'t \<Rightarrow> 't"

fun payload_label :: "message_payload \<Rightarrow> string" where
  "payload_label (PCommitment _) = ''commitment''"
| "payload_label (PProposal _) = ''proposal''"
| "payload_label (PProof _) = ''proof''"
| "payload_label (PReceipt _) = ''receipt''"

lemma payload_label_nonempty [simp]: "payload_label p \<noteq> []"
  by (cases p) auto

partial_function (option) drain_loop ::
  "('t \<Rightarrow> 'm option \<times> 't) \<Rightarrow> ('m \<Rightarrow> 's \<Rightarrow> 's) \<Rightarrow> 't \<Rightarrow> 's \<Rightarrow> ('t \<times> 's) option" where
  "drain_loop next_ordered body t s =
     (case next_ordered t of
        (None, t') \<Rightarrow> Some (t', s)
      | (Some m, t') \<Rightarrow> drain_loop next_ordered body t' (body m s))"

section \<open>What every drain preserves\<close>

locale drained_handler =
  fixes body :: "'m \<Rightarrow> 's \<Rightarrow> 's" and I :: "'s \<Rightarrow> bool"
  assumes body_inv: "I s \<Longrightarrow> I (body m s)"
begin

lemma foldl_inv: "I s \<Longrightarrow> I (foldl (\<lambda>s m. body m s) s ms)"
  by (induction ms arbitrary: s) (simp_all add: body_inv)

lemma drain_inv:
  assumes "drain_loop nx body t s = Some (t', s')" and "I s"
  shows "I s'"
proof -
  have "I s \<longrightarrow> I (snd r)" if "drain_loop nx body t s = Some r" for t s r
  proof (rule drain_loop.raw_induct
      [where P = "\<lambda>nx b t s r. b = body \<longrightarrow> I s \<longrightarrow> I (snd r)", OF _ that, THEN mp, OF _ refl])
    fix f nx b t s r
    assume IH: "\<And>nx b t s r. f nx b t s = Some r \<Longrightarrow> b = body \<longrightarrow> I s \<longrightarrow> I (snd r)"
      and eq: "(case nx t of (None, t') \<Rightarrow> Some (t', s)
        | (Some m, t') \<Rightarrow> f nx b t' (b m s)) = Some r"
    show "b = body \<longrightarrow> I s \<longrightarrow> I (snd r)"
    proof (cases "nx t")
      case (Pair mo t')
      with eq IH [of nx b t' _ r] show ?thesis
        by (cases mo) (auto simp: body_inv)
    qed
  qed
  with assms show ?thesis by fastforce
qed

end

section \<open>Ordered delivery\<close>

text \<open>
  The trait's documented contract, for a transport that holds its own pending messages:
  broadcasts are accepted and delivered in the order they were submitted.
\<close>

locale ordered_transport =
  fixes ops :: "'t transport" and pending :: "'t \<Rightarrow> coordination_message list"
  assumes broadcast_ok: "\<exists>t'. tr_broadcast ops m t = (Inr (), t') \<and> pending t' = pending t @ [m]"
    and next_empty: "pending t = [] \<Longrightarrow> \<exists>t'. tr_next_ordered ops t = (None, t') \<and> pending t' = []"
    and next_first: "pending t = m # ms \<Longrightarrow>
      \<exists>t'. tr_next_ordered ops t = (Some m, t') \<and> pending t' = ms"
    and flush_pending: "pending (tr_flush ops t) = pending t"
begin

lemma drain_fold:
  "\<exists>t'. drain_loop (tr_next_ordered ops) body t s =
      Some (t', foldl (\<lambda>s m. body m s) s (pending t)) \<and> pending t' = []"
proof (induction "pending t" arbitrary: t s)
  case Nil
  then obtain t' where "tr_next_ordered ops t = (None, t')" "pending t' = []"
    using next_empty by metis
  with Nil show ?case by (subst drain_loop.simps) (simp flip: Nil)
next
  case (Cons m ms)
  then obtain t' where t': "tr_next_ordered ops t = (Some m, t')" "pending t' = ms"
    using next_first by metis
  have "drain_loop (tr_next_ordered ops) body t s =
      drain_loop (tr_next_ordered ops) body t' (body m s)"
    by (subst drain_loop.simps) (simp add: t'(1))
  moreover obtain t'' where "drain_loop (tr_next_ordered ops) body t' (body m s) =
      Some (t'', foldl (\<lambda>s m. body m s) (body m s) ms)" "pending t'' = []"
    using Cons.hyps(1) [of t' "body m s"] t'(2) by auto
  ultimately show ?case using Cons.hyps(2) [symmetric] by simp
qed

end

section \<open>The in-process bus\<close>

record ordered_bus =
  bus_queue :: "coordination_message list"

definition bus_new :: ordered_bus where
  "bus_new = \<lparr>bus_queue = []\<rparr>"

definition bus_broadcast ::
  "coordination_message \<Rightarrow> ordered_bus \<Rightarrow> (transport_error + unit) \<times> ordered_bus" where
  "bus_broadcast m b = (Inr (), b\<lparr>bus_queue := bus_queue b @ [m]\<rparr>)"

definition bus_next_ordered :: "ordered_bus \<Rightarrow> coordination_message option \<times> ordered_bus" where
  "bus_next_ordered b =
     (case bus_queue b of
        [] \<Rightarrow> (None, b)
      | m # ms \<Rightarrow> (Some m, b\<lparr>bus_queue := ms\<rparr>))"

definition bus_ops :: "ordered_bus transport" where
  "bus_ops = \<lparr>tr_broadcast = bus_broadcast, tr_next_ordered = bus_next_ordered,
     tr_flush = (\<lambda>b. b)\<rparr>"

interpretation bus: ordered_transport bus_ops bus_queue
  by unfold_locales (auto simp: bus_ops_def bus_broadcast_def bus_next_ordered_def)

end
