(* ===== verification/Adversarial.thy ===== *)
theory Adversarial
  imports Keys
begin

text \<open>\<open>adversarial.rs\<close>: scripted adversarial events and the queries the runtime makes.\<close>

datatype scenario_event =
  DoubleCommit (ev_node: node_id) (ev_round: u64)
| ReplayPriorCommitment (ev_node: node_id) (ev_round: u64) (ev_from_round: u64)
| DropNode (ev_node: node_id) (ev_after_round: u64)
| InjectInvalidProof (ev_node: node_id) (ev_round: u64)

fun kind_label :: "scenario_event \<Rightarrow> string" where
  "kind_label (DoubleCommit _ _) = ''double_commit''"
| "kind_label (ReplayPriorCommitment _ _ _) = ''replay_prior_commitment''"
| "kind_label (DropNode _ _) = ''drop_node''"
| "kind_label (InjectInvalidProof _ _) = ''inject_invalid_proof''"

record scenario =
  sc_version :: u32
  sc_events :: "scenario_event list"

definition scenario_empty :: scenario where
  "scenario_empty = \<lparr>sc_version = 1, sc_events = []\<rparr>"

text \<open>\<open>parse\<close> is \<open>toml::from_str\<close>, \<open>redact\<close> what \<open>ConfigError::parse\<close> keeps of its error.\<close>

definition scenario_from_toml_str ::
  "(string \<Rightarrow> string + scenario) \<Rightarrow> (string \<Rightarrow> string) \<Rightarrow> string \<Rightarrow> config_error + scenario" where
  "scenario_from_toml_str parse redact text =
     (case parse text of
        Inl e \<Rightarrow> Inl (ConfigParse (redact e))
      | Inr s \<Rightarrow> if sc_version s \<noteq> 1
                then Inl (InvalidTopology (UnsupportedScenarioVersion (sc_version s))) else Inr s)"

definition event_for_round :: "node_id \<Rightarrow> u64 \<Rightarrow> scenario_event \<Rightarrow> bool" where
  "event_for_round node round e =
     (case e of
        DoubleCommit n r \<Rightarrow> n = node \<and> r = round
      | ReplayPriorCommitment n r _ \<Rightarrow> n = node \<and> r = round
      | InjectInvalidProof n r \<Rightarrow> n = node \<and> r = round
      | DropNode _ _ \<Rightarrow> False)"

definition events_for_round :: "scenario \<Rightarrow> node_id \<Rightarrow> u64 \<Rightarrow> scenario_event list" where
  "events_for_round s node round = filter (event_for_round node round) (sc_events s)"

definition has_dropped :: "scenario \<Rightarrow> node_id \<Rightarrow> u64 \<Rightarrow> bool" where
  "has_dropped s node round \<longleftrightarrow>
     list_ex (\<lambda>e. case e of DropNode n after_round \<Rightarrow> n = node \<and> round > after_round | _ \<Rightarrow> False)
       (sc_events s)"

lemma drop_case_iff:
  "(case e of DropNode n a \<Rightarrow> n = node \<and> r > a | _ \<Rightarrow> False) \<longleftrightarrow>
     (\<exists>a. e = DropNode node a \<and> a < r)"
  by (cases e) auto

lemma has_dropped_iff:
  "has_dropped s n r \<longleftrightarrow> (\<exists>a. DropNode n a \<in> set (sc_events s) \<and> a < r)"
  by (auto simp: has_dropped_def list_ex_iff drop_case_iff)

text \<open>A node that has dropped stays dropped.\<close>

lemma has_dropped_mono: "has_dropped s n r \<Longrightarrow> r \<le> r' \<Longrightarrow> has_dropped s n r'"
  by (auto simp: has_dropped_iff)

lemma scenario_empty_quiet [simp]:
  "events_for_round scenario_empty n r = []" "\<not> has_dropped scenario_empty n r"
  by (simp_all add: events_for_round_def has_dropped_def scenario_empty_def)

end
