(* ===== verification/Commitments.thy ===== *)
theory Commitments
  imports Intents
begin

text \<open>
  \<open>commitments.rs\<close>: the fixed-size commitment preimages, written into a zeroed buffer at
  constant offsets as the code does, and the Blake2s commitments over them. The layout
  lemmas show the buffer writes produce the documented byte layout; injectivity of the
  layout is what a commitment binds.
\<close>

datatype commitment_error =
  InvalidField string
| CapabilityTooLong nat nat   \<comment> \<open>actual, limit\<close>
| TooManyClaims nat nat       \<comment> \<open>actual, limit\<close>

definition commit_domain_requester :: string where
  "commit_domain_requester = ''vertex-veil/v1/commit-requester''"

definition commit_domain_provider :: string where
  "commit_domain_provider = ''vertex-veil/v1/commit-provider''"

definition commit_schema_version :: u8 where
  "commit_schema_version = 1"

definition max_capability_bytes :: nat where
  "max_capability_bytes = 32"

definition max_capability_claims :: nat where
  "max_capability_claims = 4"

definition requester_preimage_len :: nat where
  "requester_preimage_len = 153"

definition provider_preimage_len :: nat where
  "provider_preimage_len = 264"

lemmas commit_consts =
  commit_schema_version_def max_capability_bytes_def max_capability_claims_def
  requester_preimage_len_def provider_preimage_len_def

text \<open>\<open>buf[off..off + bs.len()].copy_from_slice(bs)\<close>.\<close>

definition copy_at :: "nat \<Rightarrow> bytes \<Rightarrow> bytes \<Rightarrow> bytes" where
  "copy_at off bs buf = take off buf @ bs @ drop (off + length bs) buf"

definition tag_bytes :: "capability_tag \<Rightarrow> bytes" where
  "tag_bytes t = str_bytes (tag_str t)"

definition build_requester_preimage ::
  "private_requester_intent \<Rightarrow> bytes \<Rightarrow> round_id \<Rightarrow> commitment_error + bytes" where
  "build_requester_preimage intent nonce round =
     (let cap_bytes = tag_bytes (pri_required_capability intent)
      in if cap_bytes = [] then Inl (InvalidField ''required_capability'')
         else if max_capability_bytes < length cap_bytes
         then Inl (CapabilityTooLong (length cap_bytes) max_capability_bytes)
         else
           let domain = str_bytes commit_domain_requester;
               buf = replicate requester_preimage_len 0;
               buf = copy_at 0 (u32_be (word_of_nat (length domain))) buf;
               buf = copy_at 4 domain buf;
               buf = copy_at 35 [commit_schema_version] buf;
               buf = copy_at 36 (u64_be round) buf;
               buf = copy_at 44 (nid_bytes (pri_node_id intent)) buf;
               buf = copy_at 76 [0] buf;
               buf = copy_at 77 (u32_be (word_of_nat (length cap_bytes))) buf;
               buf = copy_at 81 cap_bytes buf;
               buf = copy_at 113 (u64_be (expose (pri_budget_cents intent))) buf;
               buf = copy_at 121 nonce buf
           in Inr buf)"

fun check_claims :: "capability_tag list \<Rightarrow> commitment_error + unit" where
  "check_claims [] = Inr ()"
| "check_claims (claim # claims) =
     (if tag_bytes claim = [] then Inl (InvalidField ''capability_claim'')
      else if max_capability_bytes < length (tag_bytes claim)
      then Inl (CapabilityTooLong (length (tag_bytes claim)) max_capability_bytes)
      else check_claims claims)"

fun write_claims :: "nat \<Rightarrow> capability_tag list \<Rightarrow> bytes \<Rightarrow> bytes" where
  "write_claims idx [] buf = buf"
| "write_claims idx (claim # claims) buf =
     (let slot = 80 + idx * (4 + max_capability_bytes);
          buf = copy_at slot (u32_be (word_of_nat (length (tag_bytes claim)))) buf;
          buf = copy_at (slot + 4) (tag_bytes claim) buf
      in write_claims (Suc idx) claims buf)"

definition build_provider_preimage ::
  "private_provider_intent \<Rightarrow> bytes \<Rightarrow> round_id \<Rightarrow> commitment_error + bytes" where
  "build_provider_preimage intent nonce round =
     (let claims = ppi_capability_claims intent
      in if claims = [] then Inl (InvalidField ''capability_claims'')
         else if max_capability_claims < length claims
         then Inl (TooManyClaims (length claims) max_capability_claims)
         else and_then (check_claims claims) (\<lambda>_.
           let domain = str_bytes commit_domain_provider;
               buf = replicate provider_preimage_len 0;
               buf = copy_at 0 (u32_be (word_of_nat (length domain))) buf;
               buf = copy_at 4 domain buf;
               buf = copy_at 34 [commit_schema_version] buf;
               buf = copy_at 35 (u64_be round) buf;
               buf = copy_at 43 (nid_bytes (ppi_node_id intent)) buf;
               buf = copy_at 75 [1] buf;
               buf = copy_at 76 (u32_be (word_of_nat (length claims))) buf;
               buf = write_claims 0 claims buf;
               claims_end = 80 + max_capability_claims * (4 + max_capability_bytes);
               buf = copy_at claims_end (u64_be (expose (ppi_reservation_cents intent))) buf;
               buf = copy_at (claims_end + 8) nonce buf
           in Inr buf))"

definition hash_preimage :: "crates \<Rightarrow> bytes \<Rightarrow> bytes" where
  "hash_preimage c preimage = blake2s c preimage"

definition commit_requester ::
  "crates \<Rightarrow> private_requester_intent \<Rightarrow> bytes \<Rightarrow> round_id \<Rightarrow> commitment_error + bytes" where
  "commit_requester c intent nonce round =
     and_then (build_requester_preimage intent nonce round) (\<lambda>p. Inr (hash_preimage c p))"

definition commit_provider ::
  "crates \<Rightarrow> private_provider_intent \<Rightarrow> bytes \<Rightarrow> round_id \<Rightarrow> commitment_error + bytes" where
  "commit_provider c intent nonce round =
     and_then (build_provider_preimage intent nonce round) (\<lambda>p. Inr (hash_preimage c p))"

definition derive_test_nonce :: "crates \<Rightarrow> node_id \<Rightarrow> round_id \<Rightarrow> bytes \<Rightarrow> bytes" where
  "derive_test_nonce c node round salt =
     blake2s c (str_bytes ''vertex-veil/v1/test-nonce'' @ nid_bytes node @ u64_be round @ salt)"

section \<open>The documented layout\<close>

text \<open>A capability in its 32-byte slot, preceded by its length.\<close>

definition cap_slot :: "bytes \<Rightarrow> bytes" where
  "cap_slot bs = u32_be (word_of_nat (length bs)) @ bs @ replicate (32 - length bs) 0"

definition requester_layout ::
  "round_id \<Rightarrow> node_id \<Rightarrow> capability_tag \<Rightarrow> u64 \<Rightarrow> bytes \<Rightarrow> bytes" where
  "requester_layout round n cap budget nonce =
     u32_be 31 @ str_bytes commit_domain_requester @ [commit_schema_version] @ u64_be round @
     nid_bytes n @ [0] @ cap_slot (tag_bytes cap) @ u64_be budget @ nonce"

definition provider_layout ::
  "round_id \<Rightarrow> node_id \<Rightarrow> capability_tag list \<Rightarrow> u64 \<Rightarrow> bytes \<Rightarrow> bytes" where
  "provider_layout round n claims reservation nonce =
     u32_be 30 @ str_bytes commit_domain_provider @ [commit_schema_version] @ u64_be round @
     nid_bytes n @ [1] @ u32_be (word_of_nat (length claims)) @
     concat (map (\<lambda>t. cap_slot (tag_bytes t)) claims) @ replicate (36 * (4 - length claims)) 0 @
     u64_be reservation @ nonce"

text \<open>Writing just behind what is already written, into the zeroed rest.\<close>

lemma copy_at_zeros:
  assumes "length pre = off" "length bs \<le> k"
  shows "copy_at off bs (pre @ replicate k 0) = (pre @ bs) @ replicate (k - length bs) 0"
  using assms by (simp add: copy_at_def)

lemma zeros_split: "j \<le> k \<Longrightarrow> replicate k (0 :: u8) = replicate j 0 @ replicate (k - j) 0"
  by (metis le_add_diff_inverse replicate_add)

lemma length_cap_slot: "length bs \<le> 32 \<Longrightarrow> length (cap_slot bs) = 36"
  by (simp add: cap_slot_def)

lemma length_slots:
  "\<forall>t \<in> set claims. length (tag_bytes t) \<le> 32 \<Longrightarrow>
     length (concat (map (\<lambda>t. cap_slot (tag_bytes t)) claims)) = 36 * length claims"
  by (induction claims) (auto simp: length_cap_slot)

lemma copy_cap_slot:
  assumes "length pre = off" "length bs \<le> 32" "36 \<le> k"
  shows "copy_at (off + 4) bs
           (copy_at off (u32_be (word_of_nat (length bs))) (pre @ replicate k 0)) =
         (pre @ cap_slot bs) @ replicate (k - 36) 0"
proof -
  have "copy_at off (u32_be (word_of_nat (length bs))) (pre @ replicate k 0) =
      (pre @ u32_be (word_of_nat (length bs))) @ replicate (k - 4) 0"
    using assms by (subst copy_at_zeros) auto
  then have "copy_at (off + 4) bs
      (copy_at off (u32_be (word_of_nat (length bs))) (pre @ replicate k 0)) =
      (pre @ u32_be (word_of_nat (length bs)) @ bs) @ replicate (k - 4 - length bs) 0"
    using assms by (simp add: copy_at_zeros [of "pre @ u32_be (word_of_nat (length bs))"]
        del: append_assoc add: append_assoc [symmetric])
  moreover have "replicate (k - 4 - length bs) (0 :: u8) =
      replicate (32 - length bs) 0 @ replicate (k - 36) 0"
    using assms zeros_split [of "32 - length bs" "k - 4 - length bs"] by simp
  ultimately show ?thesis by (simp add: cap_slot_def)
qed

lemma check_claims_Inr:
  "check_claims claims = Inr u \<longleftrightarrow>
     (\<forall>t \<in> set claims. tag_bytes t \<noteq> [] \<and> length (tag_bytes t) \<le> 32)"
  by (induction claims) (auto simp: commit_consts)

lemma write_claims_layout:
  assumes "length pre = 80 + idx * 36" "\<forall>t \<in> set claims. length (tag_bytes t) \<le> 32"
    "36 * length claims \<le> k"
  shows "write_claims idx claims (pre @ replicate k 0) =
     (pre @ concat (map (\<lambda>t. cap_slot (tag_bytes t)) claims)) @
       replicate (k - 36 * length claims) 0"
  using assms
proof (induction claims arbitrary: idx pre k)
  case (Cons t claims)
  have "write_claims idx (t # claims) (pre @ replicate k 0) =
      write_claims (Suc idx) claims ((pre @ cap_slot (tag_bytes t)) @ replicate (k - 36) 0)"
    using Cons.prems copy_cap_slot [of pre "80 + idx * 36" "tag_bytes t" k]
    by (simp add: Let_def commit_consts)
  also have "\<dots> = ((pre @ cap_slot (tag_bytes t)) @
      concat (map (\<lambda>t. cap_slot (tag_bytes t)) claims)) @
      replicate (k - 36 - 36 * length claims) 0"
    using Cons.prems by (intro Cons.IH) (auto simp: length_cap_slot)
  finally show ?case by simp
qed simp

lemma length_domains [simp]:
  "length commit_domain_requester = 31" "length commit_domain_provider = 30"
  by (simp_all add: commit_domain_requester_def commit_domain_provider_def)

lemma build_requester_layout:
  assumes "node_wf (pri_node_id i)" "length nonce = 32"
    and "tag_bytes (pri_required_capability i) \<noteq> []"
    and len: "length (tag_bytes (pri_required_capability i)) \<le> 32"
  shows "build_requester_preimage i nonce round =
     Inr (requester_layout round (pri_node_id i) (pri_required_capability i)
            (expose (pri_budget_cents i)) nonce)"
proof -
  let ?cap = "tag_bytes (pri_required_capability i)" and ?n = "nid_bytes (pri_node_id i)"
  let ?head = "((((([] @ u32_be 31) @ str_bytes commit_domain_requester) @
      [commit_schema_version]) @ u64_be round) @ ?n) @ [0]"
  have n: "length ?n = 32" using assms(1) by (simp add: node_wf_def)
  have head: "copy_at 76 [0] (copy_at 44 ?n (copy_at 36 (u64_be round)
      (copy_at 35 [commit_schema_version] (copy_at 4 (str_bytes commit_domain_requester)
      (copy_at 0 (u32_be 31) ([] @ replicate 153 0)))))) = ?head @ replicate 76 0"
    by (simp add: copy_at_zeros n del: append_assoc append_Nil append.simps)
  have cap: "copy_at 81 ?cap (copy_at 77 (u32_be (word_of_nat (length ?cap)))
      (?head @ replicate 76 0)) = (?head @ cap_slot ?cap) @ replicate 40 0"
    using copy_cap_slot [of ?head 77 ?cap 76] len n by simp
  have "copy_at 121 nonce (copy_at 113 (u64_be b) ((?head @ cap_slot ?cap) @ replicate 40 0)) =
      (((?head @ cap_slot ?cap) @ u64_be b) @ nonce) @ replicate 0 0" for b
    using len n assms(2)
    by (simp add: copy_at_zeros length_cap_slot del: append_assoc append_Nil append.simps)
  with head cap assms(3) len show ?thesis
    by (simp add: build_requester_preimage_def requester_layout_def commit_consts Let_def)
qed

lemma build_provider_layout:
  assumes "node_wf (ppi_node_id i)" "length nonce = 32" "ppi_capability_claims i \<noteq> []"
    and cnt: "length (ppi_capability_claims i) \<le> 4"
    and len: "\<forall>t \<in> set (ppi_capability_claims i). tag_bytes t \<noteq> [] \<and> length (tag_bytes t) \<le> 32"
  shows "build_provider_preimage i nonce round =
     Inr (provider_layout round (ppi_node_id i) (ppi_capability_claims i)
            (expose (ppi_reservation_cents i)) nonce)"
proof -
  let ?cs = "ppi_capability_claims i" and ?n = "nid_bytes (ppi_node_id i)"
  let ?head = "(((((([] @ u32_be 30) @ str_bytes commit_domain_provider) @
      [commit_schema_version]) @ u64_be round) @ ?n) @ [1]) @ u32_be (word_of_nat (length ?cs))"
  let ?slots = "concat (map (\<lambda>t. cap_slot (tag_bytes t)) ?cs)"
  let ?pad = "replicate (36 * (4 - length ?cs)) (0 :: u8)"
  have n: "length ?n = 32" using assms(1) by (simp add: node_wf_def)
  have slots: "length ?slots = 36 * length ?cs" using len by (intro length_slots) auto
  have head: "copy_at 76 (u32_be (word_of_nat (length ?cs))) (copy_at 75 [1] (copy_at 43 ?n
      (copy_at 35 (u64_be round) (copy_at 34 [commit_schema_version]
      (copy_at 4 (str_bytes commit_domain_provider)
      (copy_at 0 (u32_be 30) ([] @ replicate 264 0))))))) = ?head @ replicate 184 0"
    by (simp add: copy_at_zeros n del: append_assoc append_Nil append.simps)
  have claims: "write_claims 0 ?cs (?head @ replicate 184 0) =
      ((?head @ ?slots) @ ?pad) @ replicate 40 0"
  proof -
    have "write_claims 0 ?cs (?head @ replicate 184 0) =
        (?head @ ?slots) @ replicate (184 - 36 * length ?cs) 0"
      using n len cnt by (intro write_claims_layout) auto
    also have "replicate (184 - 36 * length ?cs) (0 :: u8) = ?pad @ replicate 40 0"
      using cnt zeros_split [of "36 * (4 - length ?cs)" "184 - 36 * length ?cs"]
      by (simp add: diff_mult_distrib2)
    finally show ?thesis by simp
  qed
  have "copy_at 232 nonce (copy_at 224 (u64_be b) (((?head @ ?slots) @ ?pad) @ replicate 40 0)) =
      ((((?head @ ?slots) @ ?pad) @ u64_be b) @ nonce) @ replicate 0 0" for b
    using cnt n slots assms(2)
    by (simp add: copy_at_zeros del: append_assoc append_Nil append.simps)
  with head claims assms(3) cnt len show ?thesis
    by (simp add: build_provider_preimage_def provider_layout_def commit_consts Let_def
        check_claims_Inr)
qed

text \<open>Both preimages have the fixed length the circuits index into.\<close>

lemma length_requester_layout:
  assumes "node_wf n" "length nonce = 32" "length (tag_bytes cap) \<le> 32"
  shows "length (requester_layout r n cap b nonce) = requester_preimage_len"
  using assms by (simp add: requester_layout_def node_wf_def length_cap_slot commit_consts)

lemma length_provider_layout:
  assumes "node_wf n" "length nonce = 32" "length claims \<le> 4"
    "\<forall>t \<in> set claims. length (tag_bytes t) \<le> 32"
  shows "length (provider_layout r n claims b nonce) = provider_preimage_len"
  using assms by (simp add: provider_layout_def node_wf_def length_slots commit_consts)

section \<open>What a preimage determines\<close>

lemma tag_bytes_inject: "tag_bytes s = tag_bytes t \<longleftrightarrow> s = t"
  by (auto simp: tag_bytes_def str_bytes_inject capability_tag.expand)

lemma small_u32_inject:
  assumes "a \<le> 36" "b \<le> 36" "(word_of_nat a :: u32) = word_of_nat b"
  shows "a = b"
proof -
  have "unat (word_of_nat a :: u32) = a" "unat (word_of_nat b :: u32) = b"
    using assms(1,2) by (simp_all only: unat_of_nat) (auto intro!: take_bit_nat_eq_self)
  with assms(3) show ?thesis by metis
qed

lemma cap_slot_inject:
  assumes "length a \<le> 32" "length b \<le> 32"
  shows "cap_slot a = cap_slot b \<longleftrightarrow> a = b"
proof
  assume "cap_slot a = cap_slot b"
  then have "(word_of_nat (length a) :: u32) = word_of_nat (length b)"
    "a @ replicate (32 - length a) 0 = b @ replicate (32 - length b) 0"
    by (simp_all add: cap_slot_def u32c.enc_append_inject)
  moreover from this(1) have "length a = length b"
    using assms small_u32_inject by simp
  ultimately show "a = b" by simp
qed simp

lemma slots_inject:
  assumes "\<forall>t \<in> set xs. length (tag_bytes t) \<le> 32" "\<forall>t \<in> set ys. length (tag_bytes t) \<le> 32"
    "length xs = length ys"
  shows "concat (map (\<lambda>t. cap_slot (tag_bytes t)) xs) =
      concat (map (\<lambda>t. cap_slot (tag_bytes t)) ys) \<longleftrightarrow> xs = ys"
  using assms(3,1,2)
  by (induction rule: list_induct2)
    (auto simp: append_eq_append_conv length_cap_slot cap_slot_inject tag_bytes_inject)

lemma requester_layout_inject:
  assumes "node_wf n" "node_wf n'" "length nonce = 32" "length nonce' = 32"
    "length (tag_bytes cap) \<le> 32" "length (tag_bytes cap') \<le> 32"
  shows "requester_layout r n cap b nonce = requester_layout r' n' cap' b' nonce' \<longleftrightarrow>
     r = r' \<and> n = n' \<and> cap = cap' \<and> b = b' \<and> nonce = nonce'"
  using assms
  by (auto simp: requester_layout_def node_wf_def u64c.enc_append_inject append_eq_append_conv
      length_cap_slot cap_slot_inject tag_bytes_inject node_id.expand)

lemma provider_layout_inject:
  assumes "node_wf n" "node_wf n'" "length nonce = 32" "length nonce' = 32"
    "length cs \<le> 4" "length cs' \<le> 4"
    "\<forall>t \<in> set cs. length (tag_bytes t) \<le> 32" "\<forall>t \<in> set cs'. length (tag_bytes t) \<le> 32"
  shows "provider_layout r n cs b nonce = provider_layout r' n' cs' b' nonce' \<longleftrightarrow>
     r = r' \<and> n = n' \<and> cs = cs' \<and> b = b' \<and> nonce = nonce'"
proof
  assume eq: "provider_layout r n cs b nonce = provider_layout r' n' cs' b' nonce'"
  then have "r = r'" "nid_bytes n = nid_bytes n'"
    "u32_be (word_of_nat (length cs)) = u32_be (word_of_nat (length cs'))"
    using assms(1,2)
    by (simp_all add: provider_layout_def node_wf_def u64c.enc_append_inject
        append_eq_append_conv u32c.enc_append_inject u32c.enc_inject)
  moreover have len: "length cs = length cs'"
    using calculation(3) assms(5,6) small_u32_inject by (simp add: u32c.enc_inject)
  moreover have "cs = cs' \<and> b = b' \<and> nonce = nonce'"
    using eq assms len slots_inject [OF assms(7,8) len] length_slots [OF assms(7)]
      length_slots [OF assms(8)]
    by (simp add: provider_layout_def node_wf_def u64c.enc_append_inject append_eq_append_conv)
  ultimately show "r = r' \<and> n = n' \<and> cs = cs' \<and> b = b' \<and> nonce = nonce'"
    by (simp add: node_id.expand)
qed simp

text \<open>The commitment helpers fail exactly on the documented shapes.\<close>

lemma commit_requester_ok_iff:
  "is_ok (commit_requester c i nonce r) \<longleftrightarrow>
     tag_bytes (pri_required_capability i) \<noteq> [] \<and>
     length (tag_bytes (pri_required_capability i)) \<le> 32"
  by (auto simp: commit_requester_def build_requester_preimage_def Let_def commit_consts)

lemma commit_provider_ok_iff:
  "is_ok (commit_provider c i nonce r) \<longleftrightarrow>
     ppi_capability_claims i \<noteq> [] \<and> length (ppi_capability_claims i) \<le> 4 \<and>
     (\<forall>t \<in> set (ppi_capability_claims i). tag_bytes t \<noteq> [] \<and> length (tag_bytes t) \<le> 32)"
  by (auto simp: commit_provider_def build_provider_preimage_def Let_def commit_consts
      is_ok_iff check_claims_Inr [unfolded commit_consts])

lemma length_commit:
  assumes "blake_ok c"
  shows "commit_requester c ri nonce r = Inr h \<Longrightarrow> length h = 32"
    "commit_provider c pi nonce r = Inr h \<Longrightarrow> length h = 32"
  using assms by (auto simp: commit_requester_def commit_provider_def hash_preimage_def blake_ok_def)

end
