(* ===== verification/Runtime.thy ===== *)
theory Runtime
  imports Transport Adversarial Commitments
begin

text \<open>
  \<open>runtime.rs\<close>: the coordination runtime. Its state is the record \<open>runtime\<close> over any
  transport state; one definition per method, composed as \<open>run_one_round\<close> and \<open>run\<close>
  compose them. Results: the outer \<open>option\<close> is \<open>None\<close> when a drain loop does not return,
  \<open>Inl (Fail e)\<close> is the method's \<open>Err(e)\<close> and \<open>Inl (Panic s)\<close> a failed \<open>expect\<close>.
  The observer's callbacks are recorded in order as \<open>rt_events\<close>.
\<close>

record agent_state =
  ag_node_id :: node_id
  ag_role :: role
  ag_requester :: "private_requester_intent option"
  ag_provider :: "private_provider_intent option"

definition agent_requester :: "private_requester_intent \<Rightarrow> agent_state" where
  "agent_requester i =
     \<lparr>ag_node_id = pri_node_id i, ag_role = Requester, ag_requester = Some i, ag_provider = None\<rparr>"

definition agent_provider :: "private_provider_intent \<Rightarrow> agent_state" where
  "agent_provider i =
     \<lparr>ag_node_id = ppi_node_id i, ag_role = Provider, ag_requester = None, ag_provider = Some i\<rparr>"

datatype runtime_error =
  NoRequester
| NoProviders
| MissingPrivateIntent string
| RoundErr round_error
| ProposerErr proposer_error
| CommitmentErr commitment_error
| ExceededMaxRounds u64
| TransportErr transport_error

datatype fault = Fail runtime_error | Panic string

datatype observer_event =
  OnRoundCommitted round_id bool
| OnCommitment node_id round_id
| OnProposal node_id round_id string
| OnProofVerified node_id round_id
| OnReceipt node_id round_id
| OnAbort string round_id

record runtime_outcome =
  ro_log :: coordination_log
  ro_finalized :: bool
  ro_final_round :: round_id

datatype round_outcome = Finalized | Fallback

record 't runtime =
  rt_topology :: topology_config
  rt_transport :: 't
  rt_log :: coordination_log
  rt_agents :: "(node_id, agent_state) btree_map"
  rt_round_machine :: round_machine
  rt_scenario :: scenario
  rt_invalid_proof_schedule :: "(node_id \<times> round_id) set"
  rt_historical :: "(node_id \<times> round_id, commitment_record) btree_map"
  rt_max_rounds :: u64
  rt_run_salt :: bytes
  rt_events :: "observer_event list"

definition invalid_proof_schedule :: "scenario \<Rightarrow> (node_id \<times> round_id) set" where
  "invalid_proof_schedule s =
     set (List.map_filter
       (\<lambda>e. case e of InjectInvalidProof node round \<Rightarrow> Some (node, round) | _ \<Rightarrow> None)
       (sc_events s))"

definition runtime_new ::
  "crates \<Rightarrow> topology_config \<Rightarrow> 't \<Rightarrow> (node_id, agent_state) btree_map \<Rightarrow> scenario \<Rightarrow> u64 \<Rightarrow>
     runtime_error + 't runtime" where
  "runtime_new c topology transport agents scenario max_rounds =
     (if length (filter (\<lambda>n. nc_role n = Requester) (topo_nodes topology)) \<noteq> 1 then Inl NoRequester
      else if length (filter (\<lambda>n. nc_role n = Provider) (topo_nodes topology)) = 0
      then Inl NoProviders
      else case List.find (\<lambda>i. \<not> list_ex (\<lambda>n. nc_id n = i) (topo_nodes topology)) (bt_keys agents) of
        Some i \<Rightarrow> Inl (MissingPrivateIntent (to_hex c i))
      | None \<Rightarrow>
          if agents = [] then Inl (MissingPrivateIntent ''at least one local agent required'')
          else Inr \<lparr>rt_topology = topology, rt_transport = transport,
                    rt_log = log_new ''run-pending'', rt_agents = agents,
                    rt_round_machine = round_machine_new topology 0, rt_scenario = scenario,
                    rt_invalid_proof_schedule = invalid_proof_schedule scenario,
                    rt_historical = [], rt_max_rounds = max_rounds,
                    rt_run_salt = replicate 32 0x5a, rt_events = []\<rparr>)"

definition with_run_salt :: "bytes \<Rightarrow> 't runtime \<Rightarrow> 't runtime" where
  "with_run_salt salt rt = rt\<lparr>rt_run_salt := salt\<rparr>"

section \<open>Proof artifacts and their public inputs\<close>

definition proof_public_inputs_len :: nat where
  "proof_public_inputs_len = 8 + 32 + 32 + 1"

definition role_byte :: "public_intent \<Rightarrow> u8" where
  "role_byte i = (case i of PubRequester _ _ _ \<Rightarrow> 0 | PubProvider _ _ _ \<Rightarrow> 1)"

definition public_inputs ::
  "crates \<Rightarrow> commitment_record \<Rightarrow> node_id \<Rightarrow> round_id \<Rightarrow> bytes" where
  "public_inputs c commitment node round =
     (let commit_bytes =
            (case hex_decode c (cr_commitment_hex commitment) of
               Some bs \<Rightarrow> bs | None \<Rightarrow> replicate 32 0);
          buf = replicate proof_public_inputs_len 0;
          buf = copy_at 0 (u64_be round) buf;
          buf = copy_at 8 (nid_bytes node) buf;
          commit_len = min (length commit_bytes) 32;
          buf = copy_at 40 (take commit_len commit_bytes) buf;
          buf = copy_at 72 [role_byte (cr_public_intent commitment)] buf
      in buf)"

definition build_proof_artifact ::
  "crates \<Rightarrow> commitment_record \<Rightarrow> node_id \<Rightarrow> round_id \<Rightarrow> proof_artifact_record" where
  "build_proof_artifact c commitment node round =
     (let buf = public_inputs c commitment node round;
          attest = blake2s c (str_bytes ''vertex-veil/v1/proof-attest'' @ buf);
          proof = 1 # attest
      in \<lparr>pf_node_id = node, pf_round = round, pf_public_inputs_hex = hex_encode c buf,
          pf_proof_hex = hex_encode c proof\<rparr>)"

definition extract_commitment_hash_hex :: "crates \<Rightarrow> string \<Rightarrow> string option" where
  "extract_commitment_hash_hex c public_inputs_hex =
     (case hex_decode c public_inputs_hex of
        None \<Rightarrow> None
      | Some bs \<Rightarrow> if length bs < 72 then None else Some (hex_encode c (take 32 (drop 40 bs))))"

definition tamper_public_inputs :: "crates \<Rightarrow> string \<Rightarrow> string" where
  "tamper_public_inputs c h =
     (case hex_decode c h of
        None \<Rightarrow> h
      | Some bs \<Rightarrow> if length bs < 41 then h
                  else hex_encode c (bs[40 := xor (bs ! 40) 0x01]))"

definition parse_public_inputs ::
  "crates \<Rightarrow> string \<Rightarrow> (round_id \<times> node_id \<times> bytes \<times> u8) option" where
  "parse_public_inputs c public_inputs_hex =
     (case hex_decode c public_inputs_hex of
        None \<Rightarrow> None
      | Some bs \<Rightarrow>
          if length bs \<noteq> proof_public_inputs_len then None
          else Some (u64_from_be (take 8 bs), NodeId (take 32 (drop 8 bs)),
                     take 32 (drop 40 bs), bs ! 72))"

definition expected_signature_hex :: "crates \<Rightarrow> node_id \<Rightarrow> round_id \<Rightarrow> string \<Rightarrow> string" where
  "expected_signature_hex c provider round capability =
     hex_encode c (legacy_signature c provider round capability)"

fun round_error_code :: "round_error \<Rightarrow> string" where
  "round_error_code (RoundMismatch _ _) = ''round_mismatch''"
| "round_error_code (DuplicateCommitment _) = ''duplicate_commitment''"
| "round_error_code ReplayDetected = ''replay_detected''"
| "round_error_code UnknownNode = ''unknown_node''"
| "round_error_code RoleMismatch = ''role_mismatch''"
| "round_error_code BackwardTransition = ''backward_transition''"
| "round_error_code (ProposerError _) = ''proposer_error''"
| "round_error_code WrongProposer = ''wrong_proposer''"
| "round_error_code UnknownRequesterCommitment = ''unknown_requester_commitment''"
| "round_error_code UnknownProviderCommitment = ''unknown_provider_commitment''"
| "round_error_code (TamperedProposal _) = ''tampered_proposal''"
| "round_error_code AlreadyFinalized = ''already_finalized''"

lemma round_error_code_nonempty [simp]: "round_error_code e \<noteq> []"
  by (cases e) auto

definition deterministic_proposer ::
  "crates \<Rightarrow> topology_config \<Rightarrow> round_id \<Rightarrow> runtime_error + node_id" where
  "deterministic_proposer c topology round =
     (case proposer_for_round c round (map nc_id (providers_stable_order topology)) of
        Inl e \<Rightarrow> Inl (ProposerErr e) | Inr p \<Rightarrow> Inr p)"

fun log_denial_code :: "predicate_denial \<Rightarrow> string" where
  "log_denial_code ProviderLacksCapability = ''provider_lacks_capability''"
| "log_denial_code WrongRequesterRole = ''wrong_requester_role''"
| "log_denial_code WrongProviderRole = ''wrong_provider_role''"
| "log_denial_code RequesterRoundMismatch = ''requester_round_mismatch''"
| "log_denial_code ProviderRoundMismatch = ''provider_round_mismatch''"
| "log_denial_code RequesterProviderRoundMismatch = ''requester_provider_round_mismatch''"
| "log_denial_code RequesterIdentityMismatch = ''requester_identity_mismatch''"
| "log_denial_code ProviderIdentityMismatch = ''provider_identity_mismatch''"
| "log_denial_code CapabilityAnnotationMismatch = ''capability_annotation_mismatch''"

definition predicate_holds_for_log ::
  "coordination_log \<Rightarrow> round_id \<Rightarrow> node_id \<Rightarrow> node_id \<Rightarrow> string + unit" where
  "predicate_holds_for_log l round requester provider =
     and_then (ok_or ''requester_commitment_missing'' (find_commitment l requester round)) (\<lambda>req.
     and_then (ok_or ''provider_commitment_missing'' (find_commitment l provider round)) (\<lambda>prov.
     (case match_predicate (cr_public_intent req) (cr_public_intent prov) round of
        Inl d \<Rightarrow> Inl (log_denial_code d)
      | Inr _ \<Rightarrow> Inr ())))"

section \<open>Effects shared by the methods\<close>

definition reject_msg :: "round_id \<Rightarrow> node_id \<Rightarrow> string \<Rightarrow> string \<Rightarrow> 't runtime \<Rightarrow> 't runtime" where
  "reject_msg round node kind code rt =
     rt\<lparr>rt_log := append_rejection
          \<lparr>rj_round = round, rj_node_id = node, rj_kind = kind, rj_reason_code = code\<rparr> (rt_log rt)\<rparr>"

definition observe :: "observer_event \<Rightarrow> 't runtime \<Rightarrow> 't runtime" where
  "observe ev rt = rt\<lparr>rt_events := rt_events rt @ [ev]\<rparr>"

definition rt_broadcast ::
  "'t transport \<Rightarrow> coordination_message \<Rightarrow> 't runtime \<Rightarrow> fault + 't runtime" where
  "rt_broadcast ops msg rt =
     (case tr_broadcast ops msg (rt_transport rt) of
        (Inl e, t) \<Rightarrow> Inl (Fail (TransportErr e))
      | (Inr _, t) \<Rightarrow> Inr (rt\<lparr>rt_transport := t\<rparr>))"

definition rt_flush :: "'t transport \<Rightarrow> 't runtime \<Rightarrow> 't runtime" where
  "rt_flush ops rt = rt\<lparr>rt_transport := tr_flush ops (rt_transport rt)\<rparr>"

definition rt_drain ::
  "'t transport \<Rightarrow> (coordination_message \<Rightarrow> 't runtime \<Rightarrow> 't runtime) \<Rightarrow> 't runtime \<Rightarrow>
     't runtime option" where
  "rt_drain ops body rt =
     map_option (\<lambda>(t, rt'). rt'\<lparr>rt_transport := t\<rparr>)
       (drain_loop (tr_next_ordered ops) body (rt_transport rt) rt)"

section \<open>Step 1: commitments\<close>

fun update_intent_round :: "public_intent \<Rightarrow> round_id \<Rightarrow> public_intent" where
  "update_intent_round (PubRequester n _ cap) new_round = PubRequester n new_round cap"
| "update_intent_round (PubProvider n _ claims) new_round = PubProvider n new_round claims"

definition build_commitment ::
  "crates \<Rightarrow> 't runtime \<Rightarrow> node_id \<Rightarrow> round_id \<Rightarrow> fault + commitment_record" where
  "build_commitment c rt node round =
     (case bt_get (rt_agents rt) node of
        None \<Rightarrow> Inl (Fail (MissingPrivateIntent (to_hex c node)))
      | Some agent \<Rightarrow>
        let nonce = derive_test_nonce c node round (rt_run_salt rt)
        in case find_node (rt_topology rt) node of
          None \<Rightarrow> Inl (Panic ''agents validated against topology'')
        | Some node_cfg \<Rightarrow>
            and_then
              (case ag_role agent of
                 Requester \<Rightarrow>
                   (case ag_requester agent of
                      None \<Rightarrow> Inl (Fail (MissingPrivateIntent
                                 (''requester-private for '' @ to_hex c node)))
                    | Some intent \<Rightarrow>
                        (case commit_requester c intent nonce round of
                           Inl e \<Rightarrow> Inl (Fail (CommitmentErr e))
                         | Inr commit \<Rightarrow>
                             (case nc_required_capability node_cfg of
                                None \<Rightarrow> Inl (Panic ''topology requester has required_capability'')
                              | Some required \<Rightarrow>
                                  Inr (hex_encode c commit, PubRequester node round required))))
               | Provider \<Rightarrow>
                   (case ag_provider agent of
                      None \<Rightarrow> Inl (Fail (MissingPrivateIntent
                                 (''provider-private for '' @ to_hex c node)))
                    | Some intent \<Rightarrow>
                        (case commit_provider c intent nonce round of
                           Inl e \<Rightarrow> Inl (Fail (CommitmentErr e))
                         | Inr commit \<Rightarrow>
                             Inr (hex_encode c commit,
                                  PubProvider node round (nc_capability_claims node_cfg)))))
              (\<lambda>(commitment_hex, public).
                 Inr \<lparr>cr_node_id = node, cr_round = round, cr_commitment_hex = commitment_hex,
                      cr_public_intent = public\<rparr>))"

definition replay_event ::
  "'t transport \<Rightarrow> round_id \<Rightarrow> scenario_event \<Rightarrow> 't runtime \<Rightarrow> fault + 't runtime" where
  "replay_event ops round ev rt =
     (case ev of
        ReplayPriorCommitment node _ from_round \<Rightarrow>
          (case bt_get (rt_historical rt) (node, from_round) of
             None \<Rightarrow> Inr rt
           | Some prior \<Rightarrow>
               rt_broadcast ops
                 \<lparr>msg_origin = node, msg_payload = PCommitment
                    \<lparr>cr_node_id = cr_node_id prior, cr_round = round,
                     cr_commitment_hex = cr_commitment_hex prior,
                     cr_public_intent = update_intent_round (cr_public_intent prior) round\<rparr>\<rparr> rt)
      | _ \<Rightarrow> Inr rt)"

definition double_commit_event ::
  "'t transport \<Rightarrow> scenario_event \<Rightarrow> 't runtime \<Rightarrow> fault + 't runtime" where
  "double_commit_event ops ev rt =
     (case ev of
        DoubleCommit node r \<Rightarrow>
          (case bt_get (rt_historical rt) (node, r) of
             None \<Rightarrow> Inr rt
           | Some rec \<Rightarrow>
               rt_broadcast ops \<lparr>msg_origin = node, msg_payload = PCommitment rec\<rparr> rt)
      | _ \<Rightarrow> Inr rt)"

definition broadcast_commitment_of ::
  "crates \<Rightarrow> 't transport \<Rightarrow> round_id \<Rightarrow> node_id \<Rightarrow> 't runtime \<Rightarrow> fault + 't runtime" where
  "broadcast_commitment_of c ops round node rt =
     and_then (try_fold (replay_event ops round) (events_for_round (rt_scenario rt) node round) rt)
       (\<lambda>rt. if has_dropped (rt_scenario rt) node round
             then Inr (reject_msg round node ''commitment'' ''node_dropped'' rt)
             else and_then (build_commitment c rt node round) (\<lambda>base_record.
                  and_then
                    (rt_broadcast ops \<lparr>msg_origin = node, msg_payload = PCommitment base_record\<rparr>
                       (rt\<lparr>rt_historical :=
                             bt_insert (node, round) base_record (rt_historical rt)\<rparr>))
                    (\<lambda>rt. try_fold (double_commit_event ops)
                            (events_for_round (rt_scenario rt) node round) rt)))"

definition broadcast_commitments ::
  "crates \<Rightarrow> 't transport \<Rightarrow> round_id \<Rightarrow> 't runtime \<Rightarrow> fault + 't runtime" where
  "broadcast_commitments c ops round rt =
     try_fold (broadcast_commitment_of c ops round) (bt_keys (rt_agents rt)) rt"

definition handle_commitment ::
  "round_id \<Rightarrow> coordination_message \<Rightarrow> 't runtime \<Rightarrow> 't runtime" where
  "handle_commitment round msg rt =
     (case msg_payload msg of
        PCommitment rec \<Rightarrow>
          if msg_origin msg \<noteq> cr_node_id rec
          then reject_msg round (msg_origin msg) ''commitment'' ''origin_mismatch'' rt
          else (case accept_commitment rec (rt_round_machine rt) of
             (Inr _, m) \<Rightarrow>
               (case append_commitment rec (rt_log rt) of
                  (Inl _, l) \<Rightarrow>
                    reject_msg round (cr_node_id rec) ''commitment'' ''log_duplicate''
                      (rt\<lparr>rt_round_machine := m, rt_log := l\<rparr>)
                | (Inr _, l) \<Rightarrow>
                    observe (OnCommitment (cr_node_id rec) round)
                      (rt\<lparr>rt_round_machine := m, rt_log := l\<rparr>))
           | (Inl err, m) \<Rightarrow>
               reject_msg round (cr_node_id rec) ''commitment'' (round_error_code err)
                 (rt\<lparr>rt_round_machine := m\<rparr>))
      | p \<Rightarrow> reject_msg round (msg_origin msg) (payload_label p) ''out_of_phase'' rt)"

definition drain_commitments :: "'t transport \<Rightarrow> round_id \<Rightarrow> 't runtime \<Rightarrow> 't runtime option" where
  "drain_commitments ops round = rt_drain ops (handle_commitment round)"

end
