(* ===== verification/Rounds.thy ===== *)
theory Rounds
  imports Runtime
begin

text \<open>
  \<open>runtime.rs\<close>, steps 2 to 4 of a round (proposal, proofs, receipt) and the drivers
  \<open>run_one_round\<close>, \<open>run\<close> and \<open>run_with_transport\<close>.
\<close>

definition go :: "('e + 'a) option \<Rightarrow> ('a \<Rightarrow> ('e + 'b) option) \<Rightarrow> ('e + 'b) option" where
  "go r k = (case r of None \<Rightarrow> None | Some (Inl e) \<Rightarrow> Some (Inl e) | Some (Inr x) \<Rightarrow> k x)"

lemma go_simps [simp]:
  "go None k = None" "go (Some (Inl e)) k = Some (Inl e)" "go (Some (Inr x)) k = k x"
  by (simp_all add: go_def)

lemma go_Inr: "go r k = Some (Inr y) \<longleftrightarrow> (\<exists>x. r = Some (Inr x) \<and> k x = Some (Inr y))"
  by (auto simp: go_def split: option.splits sum.splits)

definition drained :: "'a option \<Rightarrow> ('e + 'a) option" where
  "drained r = map_option Inr r"

lemma drained_simps [simp]: "drained (Some x) = Some (Inr x)" "drained None = None"
  by (simp_all add: drained_def)

lemma drained_Inr [simp]: "drained r = Some (Inr x) \<longleftrightarrow> r = Some x"
  by (auto simp: drained_def)

section \<open>Step 2: proposal\<close>

fun candidate_rejection_debug :: "candidate_rejection \<Rightarrow> string" where
  "candidate_rejection_debug MissingRequesterCapability = ''MissingRequesterCapability''"
| "candidate_rejection_debug WrongRoundInRequester = ''WrongRoundInRequester''"

definition broadcast_proposal ::
  "crates \<Rightarrow> 't transport \<Rightarrow> round_id \<Rightarrow> 't runtime \<Rightarrow> fault + bool \<times> 't runtime" where
  "broadcast_proposal c ops round rt =
     (case current_proposer c (rt_round_machine rt) of
        Inl e \<Rightarrow> Inl (Fail (RoundErr e))
      | Inr proposer \<Rightarrow>
        if \<not> bt_contains (rt_agents rt) proposer then Inr (True, rt)
        else case topo_requester (rt_topology rt) of
          None \<Rightarrow> Inl (Panic ''from_raw enforces exactly one requester'')
        | Some req_cfg \<Rightarrow>
          let req_id = nc_id req_cfg; commitments = rm_commitments (rt_round_machine rt)
          in case bt_get commitments req_id of
            None \<Rightarrow> Inr (False, reject_msg round proposer ''proposal'' ''requester_missing'' rt)
          | Some req_commit \<Rightarrow>
              (case derive_candidate round req_commit
                     (map snd (filter (\<lambda>(nid, rec). nid \<noteq> req_id) commitments)) of
                 Inr (Some cand) \<Rightarrow>
                   and_then
                     (rt_broadcast ops
                       \<lparr>msg_origin = proposer, msg_payload = PProposal
                          \<lparr>pr_proposer = proposer, pr_round = round,
                           pr_candidate_requester = cand_requester cand,
                           pr_candidate_provider = cand_provider cand,
                           pr_matched_capability = cand_matched_capability cand\<rparr>\<rparr> rt)
                     (\<lambda>rt. Inr (True, rt))
               | Inr None \<Rightarrow>
                   Inr (False, reject_msg round proposer ''proposal'' ''no_feasible_provider'' rt)
               | Inl e \<Rightarrow>
                   Inr (False, reject_msg round proposer ''proposal''
                     (''candidate_error:'' @ candidate_rejection_debug e) rt)))"

definition handle_proposal ::
  "crates \<Rightarrow> round_id \<Rightarrow> coordination_message \<Rightarrow> 't runtime \<Rightarrow> 't runtime" where
  "handle_proposal c round msg rt =
     (case msg_payload msg of
        PProposal p \<Rightarrow>
          if msg_origin msg \<noteq> pr_proposer p
          then reject_msg round (msg_origin msg) ''proposal'' ''origin_mismatch'' rt
          else (case accept_proposal c p (rt_round_machine rt) of
             (Inr _, m) \<Rightarrow>
               observe (OnProposal (pr_proposer p) round (tag_str (pr_matched_capability p)))
                 (rt\<lparr>rt_round_machine := m, rt_log := append_proposal p (rt_log rt)\<rparr>)
           | (Inl err, m) \<Rightarrow>
               reject_msg round (pr_proposer p) ''proposal'' (round_error_code err)
                 (rt\<lparr>rt_round_machine := m\<rparr>))
      | p \<Rightarrow> reject_msg round (msg_origin msg) (payload_label p) ''out_of_phase'' rt)"

definition drain_proposal ::
  "crates \<Rightarrow> 't transport \<Rightarrow> round_id \<Rightarrow> 't runtime \<Rightarrow> 't runtime option" where
  "drain_proposal c ops round = rt_drain ops (handle_proposal c round)"

section \<open>Step 3: proofs\<close>

definition broadcast_proof_of ::
  "crates \<Rightarrow> 't transport \<Rightarrow> round_id \<Rightarrow> node_id \<Rightarrow> 't runtime \<Rightarrow> fault + 't runtime" where
  "broadcast_proof_of c ops round participant rt =
     (if \<not> bt_contains (rt_agents rt) participant then Inr rt
      else case bt_get (rm_commitments (rt_round_machine rt)) participant of
        None \<Rightarrow> Inl (Panic ''proposal validated against commitment set'')
      | Some commitment \<Rightarrow>
          let artifact = build_proof_artifact c commitment participant round;
              artifact =
                (if (participant, round) \<in> rt_invalid_proof_schedule rt
                 then artifact\<lparr>pf_public_inputs_hex :=
                        tamper_public_inputs c (pf_public_inputs_hex artifact)\<rparr>
                 else artifact)
          in rt_broadcast ops \<lparr>msg_origin = participant, msg_payload = PProof artifact\<rparr> rt)"

definition broadcast_proofs ::
  "crates \<Rightarrow> 't transport \<Rightarrow> round_id \<Rightarrow> proposal_record \<Rightarrow> 't runtime \<Rightarrow> fault + 't runtime" where
  "broadcast_proofs c ops round proposal rt =
     try_fold (broadcast_proof_of c ops round)
       [pr_candidate_requester proposal, pr_candidate_provider proposal] rt"

definition handle_proof ::
  "crates \<Rightarrow> round_id \<Rightarrow> coordination_message \<Rightarrow> 't runtime \<Rightarrow> 't runtime" where
  "handle_proof c round msg rt =
     (case msg_payload msg of
        PProof rec \<Rightarrow>
          if msg_origin msg \<noteq> pf_node_id rec
          then reject_msg round (msg_origin msg) ''proof'' ''origin_mismatch'' rt
          else if pf_round rec \<noteq> round
          then reject_msg round (pf_node_id rec) ''proof'' ''wrong_round'' rt
          else
            let expected_commit = map_option cr_commitment_hex
                  (bt_get (rm_commitments (rt_round_machine rt)) (pf_node_id rec));
                embedded_commit = extract_commitment_hash_hex c (pf_public_inputs_hex rec)
            in if expected_commit = None
               then reject_msg round (pf_node_id rec) ''proof'' ''unknown_commitment'' rt
               else if embedded_commit \<noteq> expected_commit
               then reject_msg round (pf_node_id rec) ''proof'' ''public_inputs_mismatch'' rt
               else observe (OnProofVerified (pf_node_id rec) round)
                      (rt\<lparr>rt_log := append_proof rec (rt_log rt)\<rparr>)
      | p \<Rightarrow> reject_msg round (msg_origin msg) (payload_label p) ''out_of_phase'' rt)"

definition drain_proofs ::
  "crates \<Rightarrow> 't transport \<Rightarrow> round_id \<Rightarrow> 't runtime \<Rightarrow> 't runtime option" where
  "drain_proofs c ops round = rt_drain ops (handle_proof c round)"

section \<open>Step 4: receipt\<close>

definition agent_signing_seed :: "'t runtime \<Rightarrow> node_id \<Rightarrow> signing_secret_seed option" where
  "agent_signing_seed rt provider =
     Option.bind (bt_get (rt_agents rt) provider)
       (\<lambda>a. Option.bind (ag_provider a) (\<lambda>i. map_option expose (ppi_signing_secret_key i)))"

definition receipt_signature_hex ::
  "crates \<Rightarrow> 't runtime \<Rightarrow> node_id \<Rightarrow> round_id \<Rightarrow> string \<Rightarrow> string" where
  "receipt_signature_hex c rt provider round capability =
     (case agent_signing_seed rt provider of
        Some seed \<Rightarrow> hex_encode c (sign_receipt_ed25519 c seed provider round capability)
      | None \<Rightarrow> hex_encode c (legacy_signature c provider round capability))"

definition broadcast_receipt ::
  "crates \<Rightarrow> 't transport \<Rightarrow> round_id \<Rightarrow> proposal_record \<Rightarrow> 't runtime \<Rightarrow> fault + 't runtime" where
  "broadcast_receipt c ops round proposal rt =
     (let provider = pr_candidate_provider proposal
      in if \<not> bt_contains (rt_agents rt) provider then Inr rt
         else
           let capability = tag_str (pr_matched_capability proposal);
               receipt = \<lparr>rc_provider = provider, rc_round = round,
                          rc_signature_hex = receipt_signature_hex c rt provider round capability\<rparr>
           in rt_broadcast ops \<lparr>msg_origin = provider, msg_payload = PReceipt receipt\<rparr> rt)"

definition handle_receipt ::
  "round_id \<Rightarrow> coordination_message \<Rightarrow> 't runtime \<Rightarrow> 't runtime" where
  "handle_receipt round msg rt =
     (case msg_payload msg of
        PReceipt r \<Rightarrow>
          if msg_origin msg \<noteq> rc_provider r
          then reject_msg round (msg_origin msg) ''receipt'' ''origin_mismatch'' rt
          else if rc_round r \<noteq> round
          then reject_msg round (rc_provider r) ''receipt'' ''wrong_round'' rt
          else if rc_signature_hex r = []
          then reject_msg round (rc_provider r) ''receipt'' ''missing_signature'' rt
          else observe (OnReceipt (rc_provider r) round)
                 (rt\<lparr>rt_log := append_receipt r (rt_log rt)\<rparr>)
      | p \<Rightarrow> reject_msg round (msg_origin msg) (payload_label p) ''out_of_phase'' rt)"

definition drain_receipts :: "'t transport \<Rightarrow> round_id \<Rightarrow> 't runtime \<Rightarrow> 't runtime option" where
  "drain_receipts ops round = rt_drain ops (handle_receipt round)"

section \<open>One round\<close>

text \<open>
  \<open>run_one_round\<close> in the order the code runs it; each phase continues with the next.
\<close>

definition logged_proposal :: "round_id \<Rightarrow> coordination_log \<Rightarrow> proposal_record option" where
  "logged_proposal round l = List.find (\<lambda>p. pr_round p = round) (rev (log_proposals l))"

definition has_proof :: "round_id \<Rightarrow> node_id \<Rightarrow> coordination_log \<Rightarrow> bool" where
  "has_proof round node l \<longleftrightarrow> list_ex (\<lambda>p. pf_round p = round \<and> pf_node_id p = node) (log_proofs l)"

definition receipt_phase ::
  "crates \<Rightarrow> 't transport \<Rightarrow> round_id \<Rightarrow> proposal_record \<Rightarrow> 't runtime \<Rightarrow>
     (fault + round_outcome \<times> 't runtime) option" where
  "receipt_phase c ops round proposal rt =
     go (Some (broadcast_receipt c ops round proposal rt)) (\<lambda>rt.
     go (drained (drain_receipts ops round (rt_flush ops rt))) (\<lambda>rt.
     Some (Inr (Finalized, rt))))"

definition proof_phase ::
  "crates \<Rightarrow> 't transport \<Rightarrow> round_id \<Rightarrow> proposal_record \<Rightarrow> 't runtime \<Rightarrow>
     (fault + round_outcome \<times> 't runtime) option" where
  "proof_phase c ops round proposal rt =
     go (Some (broadcast_proofs c ops round proposal rt)) (\<lambda>rt.
     go (drained (drain_proofs c ops round (rt_flush ops rt))) (\<lambda>rt.
     if \<not> (has_proof round (pr_candidate_requester proposal) (rt_log rt) \<and>
           has_proof round (pr_candidate_provider proposal) (rt_log rt))
     then Some (Inr (Fallback, rt))
     else receipt_phase c ops round proposal rt))"

definition proposal_phase ::
  "crates \<Rightarrow> 't transport \<Rightarrow> round_id \<Rightarrow> 't runtime \<Rightarrow>
     (fault + round_outcome \<times> 't runtime) option" where
  "proposal_phase c ops round rt =
     go (Some (broadcast_proposal c ops round rt)) (\<lambda>(proceed, rt).
     if \<not> proceed then Some (Inr (Fallback, rt))
     else
       go (drained (drain_proposal c ops round (rt_flush ops rt))) (\<lambda>rt.
       case logged_proposal round (rt_log rt) of
         None \<Rightarrow> Some (Inr (Fallback, rt))
       | Some proposal \<Rightarrow> proof_phase c ops round proposal rt))"

definition run_one_round ::
  "crates \<Rightarrow> 't transport \<Rightarrow> round_id \<Rightarrow> 't runtime \<Rightarrow>
     (fault + round_outcome \<times> 't runtime) option" where
  "run_one_round c ops round rt =
     go (Some (broadcast_commitments c ops round rt)) (\<lambda>rt.
     go (drained (drain_commitments ops round (rt_flush ops rt))) (\<lambda>rt.
     case topo_requester (rt_topology rt) of
       None \<Rightarrow> Some (Inl (Panic ''from_raw enforces exactly one requester''))
     | Some req_cfg \<Rightarrow>
         if \<not> bt_contains (rm_commitments (rt_round_machine rt)) (nc_id req_cfg)
         then Some (Inr (Fallback,
                reject_msg round (nc_id req_cfg) ''round'' ''requester_missing'' rt))
         else proposal_phase c ops round rt))"

section \<open>The run\<close>

text \<open>
  The \<open>for _ in 0..max_rounds\<close> loop: it carries the last round entered, stops at the first
  finalized round and otherwise falls back to the next one.
\<close>

fun run_rounds ::
  "crates \<Rightarrow> 't transport \<Rightarrow> nat \<Rightarrow> round_id \<Rightarrow> 't runtime \<Rightarrow>
     (fault + (bool \<times> round_id) \<times> 't runtime) option" where
  "run_rounds c ops 0 final_round rt = Some (Inr ((False, final_round), rt))"
| "run_rounds c ops (Suc n) _ rt =
     (let round = rm_current (rt_round_machine rt)
      in go (run_one_round c ops round rt) (\<lambda>(outcome, rt).
         let rt = observe (OnRoundCommitted round (outcome = Finalized)) rt
         in case outcome of
           Finalized \<Rightarrow> Some (Inr ((True, round), rt))
         | Fallback \<Rightarrow>
             (case advance_fallback (rt_round_machine rt) of
                (Inl e, _) \<Rightarrow> Some (Inl (Fail (RoundErr e)))
              | (Inr _, m) \<Rightarrow> run_rounds c ops n round (rt\<lparr>rt_round_machine := m\<rparr>))))"

definition close_run :: "bool \<Rightarrow> round_id \<Rightarrow> 't runtime \<Rightarrow> 't runtime" where
  "close_run finalized final_round rt =
     (let rt = rt\<lparr>rt_log := set_final_round final_round finalized (rt_log rt)\<rparr>
      in if \<not> finalized
         then observe (OnAbort ''max_rounds_exceeded'' final_round)
                (rt\<lparr>rt_log := set_abort_reason ''max_rounds_exceeded'' (rt_log rt)\<rparr>)
         else rt)"

definition run_with_transport ::
  "crates \<Rightarrow> 't transport \<Rightarrow> string \<Rightarrow> 't runtime \<Rightarrow> (fault + runtime_outcome \<times> 't) option" where
  "run_with_transport c ops run_id rt =
     go (run_rounds c ops (unat (rt_max_rounds rt)) 0 (rt\<lparr>rt_log := log_new run_id\<rparr>))
       (\<lambda>((finalized, final_round), rt).
         let rt = close_run finalized final_round rt
         in Some (Inr (\<lparr>ro_log = rt_log rt, ro_finalized = finalized,
                        ro_final_round = final_round\<rparr>, rt_transport rt)))"

definition run ::
  "crates \<Rightarrow> 't transport \<Rightarrow> string \<Rightarrow> 't runtime \<Rightarrow> (fault + runtime_outcome) option" where
  "run c ops run_id rt =
     go (run_rounds c ops (unat (rt_max_rounds rt)) 0 (rt\<lparr>rt_log := log_new run_id\<rparr>))
       (\<lambda>((finalized, final_round), rt).
         Some (Inr \<lparr>ro_log = rt_log (close_run finalized final_round rt),
                    ro_finalized = finalized, ro_final_round = final_round\<rparr>))"

definition into_transport :: "'t runtime \<Rightarrow> 't" where
  "into_transport rt = rt_transport rt"

end
