(* ===== verification/Verifier.thy ===== *)
theory Verifier
  imports Runtime
begin

text \<open>
  \<open>verifier.rs\<close>: \<open>StandaloneVerifier::verify_log\<close>, one definition per numbered section of
  the function. Each returns the reasons its section pushes, in order; \<open>continue\<close> is the
  end of the item's list, and the two early returns of section 4 skip section 5.
\<close>

definition at_node :: "crates \<Rightarrow> string \<Rightarrow> node_id \<Rightarrow> string" where
  "at_node c s n = s @ to_hex c n"

definition at_round :: "string \<Rightarrow> round_id \<Rightarrow> string" where
  "at_round s r = s @ show_u64 r"

definition at_node_round :: "crates \<Rightarrow> string \<Rightarrow> node_id \<Rightarrow> round_id \<Rightarrow> string" where
  "at_node_round c s n r = s @ to_hex c n @ ''_'' @ show_u64 r"

definition verify_schema :: "coordination_log \<Rightarrow> string list" where
  "verify_schema l =
     (if log_schema_version l \<noteq> 1
      then [''unsupported_schema_version='' @ show_nat (unat (log_schema_version l))] else [])"

section \<open>1. Commitments\<close>

definition commitment_reasons ::
  "crates \<Rightarrow> topology_config \<Rightarrow> (node_id \<times> round_id) set \<Rightarrow> commitment_record \<Rightarrow>
     string list \<times> (node_id \<times> round_id) set" where
  "commitment_reasons c t seen r =
     (case find_node t (cr_node_id r) of
        None \<Rightarrow> ([at_node c ''commitment_from_unknown_node='' (cr_node_id r)], seen)
      | Some node \<Rightarrow>
          ((if intent_role (cr_public_intent r) \<noteq> nc_role node
            then [at_node c ''commitment_role_mismatch='' (cr_node_id r)] else []) @
           (if intent_node (cr_public_intent r) \<noteq> cr_node_id r
            then [at_node c ''commitment_public_intent_node_mismatch='' (cr_node_id r)] else []) @
           (if intent_round (cr_public_intent r) \<noteq> cr_round r
            then [at_node_round c ''commitment_round_mismatch='' (cr_node_id r) (cr_round r)]
            else []) @
           (if (cr_node_id r, cr_round r) \<in> seen
            then [at_node_round c ''duplicate_commitment='' (cr_node_id r) (cr_round r)] else []),
           insert (cr_node_id r, cr_round r) seen))"

fun verify_commitments ::
  "crates \<Rightarrow> topology_config \<Rightarrow> (node_id \<times> round_id) set \<Rightarrow> commitment_record list \<Rightarrow>
     string list" where
  "verify_commitments c t seen [] = []"
| "verify_commitments c t seen (r # rs) =
     (case commitment_reasons c t seen r of
        (reasons, seen') \<Rightarrow> reasons @ verify_commitments c t seen' rs)"

section \<open>2. Proposals\<close>

definition verify_proposal ::
  "crates \<Rightarrow> topology_config \<Rightarrow> coordination_log \<Rightarrow> proposal_record \<Rightarrow> string list" where
  "verify_proposal c t l p =
     (case deterministic_proposer c t (pr_round p) of
        Inr expected \<Rightarrow>
          if expected = pr_proposer p then []
          else [at_round ''proposal_wrong_proposer_round='' (pr_round p)]
      | Inl _ \<Rightarrow> [at_round ''proposer_rotation_error_round='' (pr_round p)]) @
     (case (find_commitment l (pr_candidate_requester p) (pr_round p),
            find_commitment l (pr_candidate_provider p) (pr_round p)) of
        (Some req, Some prov) \<Rightarrow>
          (case validate_proposal_annotation (pr_candidate_requester p) (cr_public_intent req)
                  (pr_candidate_provider p) (cr_public_intent prov) (pr_matched_capability p) of
             Inl d \<Rightarrow> [at_round ''proposal_annotation_tampered_round='' (pr_round p) @ '':'' @
                        denial_tag d]
           | Inr _ \<Rightarrow> []) @
          (case cr_public_intent prov of
             PubProvider _ _ claims \<Rightarrow>
               if pr_matched_capability p \<notin> set claims
               then [at_round ''proposal_provider_lacks_capability_round='' (pr_round p)] else []
           | PubRequester _ _ _ \<Rightarrow> [])
      | _ \<Rightarrow> [at_round ''proposal_unknown_commitment_round='' (pr_round p)])"

section \<open>3. Proofs\<close>

definition verify_proof ::
  "crates \<Rightarrow> coordination_log \<Rightarrow> proof_artifact_record \<Rightarrow> string list" where
  "verify_proof c l proof =
     (case parse_public_inputs c (pf_public_inputs_hex proof) of
        None \<Rightarrow> [at_node c ''proof_malformed_public_inputs='' (pf_node_id proof)]
      | Some (pi_round, pi_node, pi_commit, pi_role) \<Rightarrow>
          (if pi_round \<noteq> pf_round proof
           then [at_node_round c ''proof_public_inputs_round_mismatch=''
                   (pf_node_id proof) (pf_round proof)] else []) @
          (if pi_node \<noteq> pf_node_id proof
           then [at_node c ''proof_public_inputs_node_mismatch='' (pf_node_id proof)] else []) @
          (case find_commitment l (pf_node_id proof) (pf_round proof) of
             None \<Rightarrow> [at_node_round c ''proof_no_matching_commitment=''
                        (pf_node_id proof) (pf_round proof)]
           | Some commit \<Rightarrow>
               (if hex_encode c pi_commit \<noteq> cr_commitment_hex commit
                then [at_node_round c ''proof_public_inputs_commitment_mismatch=''
                        (pf_node_id proof) (pf_round proof)] else []) @
               (if pi_role \<noteq> role_byte (cr_public_intent commit)
                then [at_node c ''proof_role_byte_mismatch='' (pf_node_id proof)] else []) @
               (case hex_decode c (pf_proof_hex proof) of
                  None \<Rightarrow> [at_node c ''proof_hex_malformed='' (pf_node_id proof)]
                | Some bs \<Rightarrow>
                    if bs = [] \<or> (hd bs \<noteq> 1 \<and> hd bs \<noteq> 2)
                    then [at_node c ''proof_marker_unexpected='' (pf_node_id proof)] else [])))"

section \<open>4. The final round\<close>

definition signature_ok ::
  "crates \<Rightarrow> topology_config \<Rightarrow> proposal_record \<Rightarrow> round_id \<Rightarrow> completion_receipt_record \<Rightarrow> bool"
where
  "signature_ok c t proposal final_round r =
     (let cap_str = tag_str (pr_matched_capability proposal)
      in case Option.bind (find_node t (pr_candidate_provider proposal)) nc_signing_public_key of
           Some pk \<Rightarrow> is_ok (verify_receipt_ed25519 c pk (rc_signature_hex r)
                        (pr_candidate_provider proposal) final_round cap_str)
         | None \<Rightarrow> rc_signature_hex r =
                    expected_signature_hex c (pr_candidate_provider proposal) final_round cap_str)"

text \<open>Whether the function returns from this section, and the reasons it pushes.\<close>

definition verify_final_round ::
  "crates \<Rightarrow> topology_config \<Rightarrow> coordination_log \<Rightarrow> bool \<times> string list" where
  "verify_final_round c t l =
     (let final_round = log_final_round l
      in if log_finalized l then
        (case List.find (\<lambda>p. pr_round p = final_round) (rev (log_proposals l)) of
           None \<Rightarrow> (True, [''final_round_missing_proposal''])
         | Some proposal \<Rightarrow>
           let predicate =
             (case predicate_holds_for_log l final_round (pr_candidate_requester proposal)
                     (pr_candidate_provider proposal) of
                Inl code \<Rightarrow> [''final_round_predicate_failed:'' @ code] | Inr _ \<Rightarrow> [])
           in case List.find (\<lambda>r. rc_round r = final_round \<and>
                  rc_provider r = pr_candidate_provider proposal) (log_receipts l) of
                None \<Rightarrow> (True, predicate @ [''final_round_missing_receipt''])
              | Some r \<Rightarrow>
                 (False, predicate @
                   (if rc_signature_hex r = [] then [''final_round_empty_signature'']
                    else if \<not> signature_ok c t proposal final_round r
                    then [''final_round_signature_mismatch''] else []) @
                   (if \<not> list_ex (\<lambda>p. pf_round p = final_round \<and>
                        pf_node_id p = pr_candidate_requester proposal) (log_proofs l)
                    then [''final_round_missing_requester_proof''] else []) @
                   (if \<not> list_ex (\<lambda>p. pf_round p = final_round \<and>
                        pf_node_id p = pr_candidate_provider proposal) (log_proofs l)
                    then [''final_round_missing_provider_proof''] else [])))
      else (False,
        if list_ex (\<lambda>r. rc_round r = final_round) (log_receipts l)
        then [''aborted_run_has_receipt''] else []))"

section \<open>5. Rejections\<close>

definition verify_rejection ::
  "crates \<Rightarrow> round_id \<Rightarrow> rejection_record \<Rightarrow> string list" where
  "verify_rejection c final_round rj =
     (if rj_round rj > final_round
      then [at_node_round c ''rejection_round_out_of_range='' (rj_node_id rj) (rj_round rj)]
      else []) @
     (if rj_kind rj = [] \<or> rj_reason_code rj = [] then [''rejection_record_missing_fields'']
      else [])"

section \<open>The report\<close>

definition verify_reasons :: "crates \<Rightarrow> topology_config \<Rightarrow> coordination_log \<Rightarrow> string list" where
  "verify_reasons c t l =
     (let reasons = verify_schema l @ verify_commitments c t {} (log_commitments l) @
            concat (map (verify_proposal c t l) (log_proposals l)) @
            concat (map (verify_proof c l) (log_proofs l))
      in case verify_final_round c t l of
           (returned, final) \<Rightarrow>
             reasons @ final @
             (if returned then []
              else concat (map (verify_rejection c (log_final_round l)) (log_rejections l))))"

definition verify_log :: "crates \<Rightarrow> topology_config \<Rightarrow> coordination_log \<Rightarrow> verifier_report" where
  "verify_log c t l =
     (let reasons = verify_reasons c t l
      in \<lparr>vr_run_id = log_run_id l, vr_valid = (reasons = []), vr_final_round = log_final_round l,
          vr_reasons = reasons\<rparr>)"

section \<open>What a valid report means\<close>

text \<open>
  The documented invariants, stated without reference to how the verifier scans the log.
\<close>

definition commitment_sound :: "topology_config \<Rightarrow> commitment_record \<Rightarrow> bool" where
  "commitment_sound t r \<longleftrightarrow>
     (\<exists>cfg. find_node t (cr_node_id r) = Some cfg \<and>
        intent_role (cr_public_intent r) = nc_role cfg) \<and>
     intent_node (cr_public_intent r) = cr_node_id r \<and>
     intent_round (cr_public_intent r) = cr_round r"

definition proposal_sound ::
  "crates \<Rightarrow> topology_config \<Rightarrow> coordination_log \<Rightarrow> proposal_record \<Rightarrow> bool" where
  "proposal_sound c t l p \<longleftrightarrow>
     deterministic_proposer c t (pr_round p) = Inr (pr_proposer p) \<and>
     (\<exists>req prov. find_commitment l (pr_candidate_requester p) (pr_round p) = Some req \<and>
        find_commitment l (pr_candidate_provider p) (pr_round p) = Some prov \<and>
        (\<exists>r. cr_public_intent req = PubRequester (pr_candidate_requester p) r (pr_matched_capability p)) \<and>
        intent_node (cr_public_intent prov) = pr_candidate_provider p \<and>
        (\<forall>n s claims. cr_public_intent prov = PubProvider n s claims \<longrightarrow>
           pr_matched_capability p \<in> set claims))"

definition proof_sound :: "crates \<Rightarrow> coordination_log \<Rightarrow> proof_artifact_record \<Rightarrow> bool" where
  "proof_sound c l proof \<longleftrightarrow>
     (\<exists>commit bs. find_commitment l (pf_node_id proof) (pf_round proof) = Some commit \<and>
        parse_public_inputs c (pf_public_inputs_hex proof) =
          Some (pf_round proof, pf_node_id proof, bs, role_byte (cr_public_intent commit)) \<and>
        hex_encode c bs = cr_commitment_hex commit) \<and>
     (\<exists>m rest. hex_decode c (pf_proof_hex proof) = Some (m # rest) \<and> (m = 1 \<or> m = 2))"

definition finalization_sound :: "crates \<Rightarrow> topology_config \<Rightarrow> coordination_log \<Rightarrow> bool" where
  "finalization_sound c t l \<longleftrightarrow>
     (\<exists>p r. List.find (\<lambda>p. pr_round p = log_final_round l) (rev (log_proposals l)) = Some p \<and>
        predicate_holds_for_log l (log_final_round l) (pr_candidate_requester p)
          (pr_candidate_provider p) = Inr () \<and>
        List.find (\<lambda>r. rc_round r = log_final_round l \<and> rc_provider r = pr_candidate_provider p)
          (log_receipts l) = Some r \<and>
        rc_signature_hex r \<noteq> [] \<and> signature_ok c t p (log_final_round l) r \<and>
        (\<forall>n \<in> {pr_candidate_requester p, pr_candidate_provider p}.
           \<exists>q \<in> set (log_proofs l). pf_round q = log_final_round l \<and> pf_node_id q = n))"

definition rejection_sound :: "round_id \<Rightarrow> rejection_record \<Rightarrow> bool" where
  "rejection_sound final_round rj \<longleftrightarrow>
     rj_round rj \<le> final_round \<and> rj_kind rj \<noteq> [] \<and> rj_reason_code rj \<noteq> []"

definition log_sound :: "crates \<Rightarrow> topology_config \<Rightarrow> coordination_log \<Rightarrow> bool" where
  "log_sound c t l \<longleftrightarrow> log_schema_version l = 1 \<and>
     (\<forall>r \<in> set (log_commitments l). commitment_sound t r) \<and>
     distinct (map commitment_key (log_commitments l)) \<and>
     (\<forall>p \<in> set (log_proposals l). proposal_sound c t l p) \<and>
     (\<forall>p \<in> set (log_proofs l). proof_sound c l p) \<and>
     (if log_finalized l then finalization_sound c t l
      else \<forall>r \<in> set (log_receipts l). rc_round r \<noteq> log_final_round l) \<and>
     (\<forall>rj \<in> set (log_rejections l). rejection_sound (log_final_round l) rj)"

lemma reason_nonempty [simp]:
  "s \<noteq> [] \<Longrightarrow> at_node c s n \<noteq> []" "s \<noteq> [] \<Longrightarrow> at_round s r \<noteq> []"
  "s \<noteq> [] \<Longrightarrow> at_node_round c s n r \<noteq> []"
  by (simp_all add: at_node_def at_round_def at_node_round_def)

lemma verify_commitments_Nil:
  "verify_commitments c t seen rs = [] \<longleftrightarrow>
     (\<forall>r \<in> set rs. commitment_sound t r) \<and> distinct (map commitment_key rs) \<and>
     commitment_key ` set rs \<inter> seen = {}"
proof (induction rs arbitrary: seen)
  case (Cons r rs)
  then show ?case
    by (auto simp: commitment_reasons_def commitment_sound_def commitment_key_def
        split: option.splits)
qed simp

lemma deterministic_proposer_case:
  "(case d of Inr e \<Rightarrow> if e = p then [] else [a] | Inl _ \<Rightarrow> [b]) = [] \<longleftrightarrow> d = Inr p"
  by (cases d) auto

lemma annotation_case:
  "(case v of Inl d \<Rightarrow> [f d] | Inr _ \<Rightarrow> []) = [] \<longleftrightarrow> v = Inr ()"
  by (cases v) auto

lemma claims_case:
  "(case i of PubProvider _ _ claims \<Rightarrow> if cap \<notin> set claims then [a] else []
    | PubRequester _ _ _ \<Rightarrow> []) = [] \<longleftrightarrow>
   (\<forall>n s claims. i = PubProvider n s claims \<longrightarrow> cap \<in> set claims)"
  by (cases i) auto

lemma verify_proposal_Nil: "verify_proposal c t l p = [] \<longleftrightarrow> proposal_sound c t l p"
  unfolding verify_proposal_def proposal_sound_def
  by (auto simp: deterministic_proposer_case annotation_case claims_case validate_annotation_Inr
      split: option.splits)

lemma verify_proof_Nil: "verify_proof c l p = [] \<longleftrightarrow> proof_sound c l p"
  unfolding verify_proof_def proof_sound_def
  by (auto simp: neq_Nil_conv split: option.splits if_splits list.splits)

lemma verify_final_round_returned:
  "verify_final_round c t l = (True, rs) \<Longrightarrow> rs \<noteq> []"
  by (auto simp: verify_final_round_def Let_def split: if_splits option.splits)

lemma verify_final_round_Nil:
  "snd (verify_final_round c t l) = [] \<longleftrightarrow>
     (if log_finalized l then finalization_sound c t l
      else \<forall>r \<in> set (log_receipts l). rc_round r \<noteq> log_final_round l)"
  unfolding verify_final_round_def finalization_sound_def
  by (auto simp: Let_def list_ex_iff annotation_case split: option.splits)

lemma verify_rejection_Nil: "verify_rejection c r rj = [] \<longleftrightarrow> rejection_sound r rj"
  by (auto simp: verify_rejection_def rejection_sound_def)

lemma verify_reasons_Nil: "verify_reasons c t l = [] \<longleftrightarrow> log_sound c t l"
proof (cases "verify_final_round c t l")
  case (Pair returned final)
  have "returned \<Longrightarrow> final \<noteq> []" using verify_final_round_returned Pair by (cases returned) auto
  then show ?thesis
    using verify_final_round_Nil [of c t l]
    by (auto simp: verify_reasons_def log_sound_def Pair verify_commitments_Nil
        verify_proposal_Nil verify_proof_Nil verify_rejection_Nil verify_schema_def)
qed

lemma verify_log_sel [simp]:
  "vr_valid (verify_log c t l) \<longleftrightarrow> log_sound c t l" "vr_reasons (verify_log c t l) = verify_reasons c t l"
  "vr_run_id (verify_log c t l) = log_run_id l" "vr_final_round (verify_log c t l) = log_final_round l"
  by (simp_all add: verify_log_def Let_def verify_reasons_Nil)

end
