(* ===== verification/Runtime_Inv.thy ===== *)
theory Runtime_Inv
  imports Rounds Verifier
begin

text \<open>
  What the runtime guarantees over \<^emph>\<open>any\<close> transport: whatever messages arrive, in whatever
  order, the log and the round machine stay in agreement and the log stays auditable. The
  invariant is preserved by every handler, hence by every drain (the locale
  \<open>drained_handler\<close>), by the broadcasts, and so by every round of a run.
\<close>

section \<open>The invariant of the log\<close>

definition proposal_inv ::
  "crates \<Rightarrow> topology_config \<Rightarrow> coordination_log \<Rightarrow> proposal_record \<Rightarrow> bool" where
  "proposal_inv c t l p \<longleftrightarrow>
     deterministic_proposer c t (pr_round p) = Inr (pr_proposer p) \<and>
     (\<exists>req prov claims.
        find_commitment l (pr_candidate_requester p) (pr_round p) = Some req \<and>
        find_commitment l (pr_candidate_provider p) (pr_round p) = Some prov \<and>
        cr_public_intent req =
          PubRequester (pr_candidate_requester p) (pr_round p) (pr_matched_capability p) \<and>
        cr_public_intent prov = PubProvider (pr_candidate_provider p) (pr_round p) claims \<and>
        pr_matched_capability p \<in> set claims)"

definition proof_linked :: "crates \<Rightarrow> coordination_log \<Rightarrow> proof_artifact_record \<Rightarrow> bool" where
  "proof_linked c l q \<longleftrightarrow>
     (\<exists>commit. find_commitment l (pf_node_id q) (pf_round q) = Some commit \<and>
        extract_commitment_hash_hex c (pf_public_inputs_hex q) = Some (cr_commitment_hex commit))"

definition log_inv :: "crates \<Rightarrow> topology_config \<Rightarrow> round_id \<Rightarrow> coordination_log \<Rightarrow> bool" where
  "log_inv c t r l \<longleftrightarrow> log_indexed l \<and> log_schema_version l = 1 \<and>
     (\<forall>rec \<in> set (log_commitments l). commitment_sound t rec \<and> cr_round rec \<le> r) \<and>
     (\<forall>p \<in> set (log_proposals l). proposal_inv c t l p \<and> pr_round p \<le> r) \<and>
     (\<forall>q \<in> set (log_proofs l). proof_linked c l q \<and> pf_round q \<le> r) \<and>
     (\<forall>x \<in> set (log_receipts l). rc_round x \<le> r \<and> rc_signature_hex x \<noteq> []) \<and>
     (\<forall>rj \<in> set (log_rejections l). rejection_sound r rj)"

text \<open>The machine's active round is the log's last round.\<close>

definition rt_inv :: "crates \<Rightarrow> topology_config \<Rightarrow> round_id \<Rightarrow> 't runtime \<Rightarrow> bool" where
  "rt_inv c t r rt \<longleftrightarrow> log_inv c t r (rt_log rt) \<and> rt_topology rt = t \<and>
     rm_topology (rt_round_machine rt) = t \<and> rm_current (rt_round_machine rt) = r \<and>
     rm_inv c (rt_round_machine rt) \<and>
     (\<forall>i. bt_get (rm_commitments (rt_round_machine rt)) i = find_commitment (rt_log rt) i r) \<and>
     (\<forall>p \<in> set (log_proposals (rt_log rt)).
        pr_round p = r \<longrightarrow> rm_proposal (rt_round_machine rt) = Some p)"

lemma find_commitment_frame [simp]:
  "find_commitment (append_proposal p l) = find_commitment l"
  "find_commitment (append_proof q l) = find_commitment l"
  "find_commitment (append_receipt x l) = find_commitment l"
  "find_commitment (append_rejection j l) = find_commitment l"
  "find_commitment (set_final_round r b l) = find_commitment l"
  "find_commitment (set_abort_reason s l) = find_commitment l"
  by (simp_all add: fun_eq_iff find_commitment_def log_op_defs)

lemma proposal_inv_frame:
  "find_commitment l = find_commitment l' \<Longrightarrow> proposal_inv c t l p = proposal_inv c t l' p"
  by (simp add: proposal_inv_def)

lemma proof_linked_frame:
  "find_commitment l = find_commitment l' \<Longrightarrow> proof_linked c l q = proof_linked c l' q"
  by (simp add: proof_linked_def)

lemma proposal_inv_sound: "proposal_inv c t l p \<Longrightarrow> proposal_sound c t l p"
  by (auto simp: proposal_inv_def proposal_sound_def)

lemma proposal_inv_predicate:
  "proposal_inv c t l p \<Longrightarrow> predicate_holds_for_log l (pr_round p) (pr_candidate_requester p)
     (pr_candidate_provider p) = Inr ()"
  by (auto simp: proposal_inv_def predicate_holds_for_log_def match_predicate_def)

lemma log_inv_new [wf_intros]: "log_inv c t r (log_new run_id)"
  using log_indexed_new [of run_id] by (auto simp: log_inv_def log_new_def)

lemma log_inv_mono: "log_inv c t r l \<Longrightarrow> r \<le> s \<Longrightarrow> log_inv c t s l"
  by (auto simp: log_inv_def rejection_sound_def)

lemma log_inv_append:
  "log_inv c t r l \<Longrightarrow> rejection_sound r rj \<Longrightarrow> log_inv c t r (append_rejection rj l)"
  "log_inv c t r l \<Longrightarrow> proposal_inv c t l p \<Longrightarrow> pr_round p \<le> r \<Longrightarrow>
     log_inv c t r (append_proposal p l)"
  "log_inv c t r l \<Longrightarrow> proof_linked c l q \<Longrightarrow> pf_round q \<le> r \<Longrightarrow> log_inv c t r (append_proof q l)"
  "log_inv c t r l \<Longrightarrow> rc_round x \<le> r \<Longrightarrow> rc_signature_hex x \<noteq> [] \<Longrightarrow>
     log_inv c t r (append_receipt x l)"
  unfolding log_inv_def
  by (auto simp: inv_simps proposal_inv_def proof_linked_def)
    (auto simp: log_op_defs)

lemma find_commitment_snoc:
  "find_commitment (l\<lparr>log_commitment_keys := ks, log_commitments := log_commitments l @ [rec]\<rparr>) i r =
     (case find_commitment l i r of
        Some x \<Rightarrow> Some x
      | None \<Rightarrow> if cr_node_id rec = i \<and> cr_round rec = r then Some rec else None)"
  by (simp add: find_commitment_def find_append split: option.split)

lemma find_commitment_None:
  "find_commitment l i r = None \<longleftrightarrow>
     (\<forall>x \<in> set (log_commitments l). \<not> (cr_node_id x = i \<and> cr_round x = r))"
  by (auto simp: find_commitment_def find_None_iff)

lemma append_commitment_new:
  assumes "log_indexed l" "find_commitment l (cr_node_id rec) (cr_round rec) = None"
  shows "append_commitment rec l =
    (Inr (), l\<lparr>log_commitment_keys := insert (cr_node_id rec, cr_round rec) (log_commitment_keys l),
               log_commitments := log_commitments l @ [rec]\<rparr>)"
  using assms
  by (auto simp: append_commitment_def log_indexed_def find_commitment_None commitment_key_def
      Let_def)

lemma log_inv_commit:
  assumes inv: "log_inv c t r l" and new: "find_commitment l (cr_node_id rec) (cr_round rec) = None"
    and ok: "commitment_sound t rec" "cr_round rec \<le> r"
  shows "log_inv c t r (snd (append_commitment rec l))"
proof -
  have ix: "log_indexed l" using inv by (simp add: log_inv_def)
  note app = append_commitment_new [OF ix new]
  have "log_indexed (snd (append_commitment rec l))"
    using log_register.accept_wf [OF ix] by simp
  moreover have "find_commitment (snd (append_commitment rec l)) i s = Some x"
    if "find_commitment l i s = Some x" for i s x
    using that by (simp add: app find_commitment_snoc)
  ultimately show ?thesis
    using inv ok unfolding log_inv_def proposal_inv_def proof_linked_def
    by (auto simp: app)
qed

section \<open>The handlers\<close>

lemma rt_inv_observe [simp]: "rt_inv c t r (observe ev rt) = rt_inv c t r rt"
  by (simp add: rt_inv_def observe_def)

lemma rt_inv_transport [simp]: "rt_inv c t r (rt\<lparr>rt_transport := tr\<rparr>) = rt_inv c t r rt"
  by (simp add: rt_inv_def)

lemma rt_inv_historical [simp]: "rt_inv c t r (rt\<lparr>rt_historical := h\<rparr>) = rt_inv c t r rt"
  by (simp add: rt_inv_def)

lemma rt_inv_reject:
  "rt_inv c t r rt \<Longrightarrow> kind \<noteq> [] \<Longrightarrow> code \<noteq> [] \<Longrightarrow>
     rt_inv c t r (reject_msg r n kind code rt)"
  unfolding rt_inv_def reject_msg_def
  by (auto simp: rejection_sound_def log_inv_append) (auto simp: log_op_defs)

lemma accept_commitment_new:
  assumes inv: "rt_inv c t r rt"
    and acc: "accept_commitment rec (rt_round_machine rt) = (Inr u, m)"
  shows "cr_round rec = r" "commitment_sound t rec"
    "find_commitment (rt_log rt) (cr_node_id rec) r = None"
  using inv acc unfolding rt_inv_def
  by (auto simp: accept_commitment_Inr check_commitment_Inr commitment_sound_def)

text \<open>
  A commitment the machine accepts is never already in the log, so the runtime's
  \<open>log_duplicate\<close> branch is unreachable.
\<close>

lemma accepted_not_in_log:
  assumes "rt_inv c t r rt" and "accept_commitment rec (rt_round_machine rt) = (Inr u, m)"
  shows "fst (append_commitment rec (rt_log rt)) = Inr ()"
proof -
  have "log_indexed (rt_log rt)" using assms(1) by (simp add: rt_inv_def log_inv_def)
  then show ?thesis using accept_commitment_new [OF assms] by (simp add: append_commitment_new)
qed

lemma rt_inv_commit:
  assumes inv: "rt_inv c t r rt"
    and acc: "accept_commitment rec (rt_round_machine rt) = (Inr u, m)"
  shows "rt_inv c t r (rt\<lparr>rt_round_machine := m, rt_log := snd (append_commitment rec (rt_log rt))\<rparr>)"
proof -
  note new = accept_commitment_new [OF inv acc]
  have ix: "log_indexed (rt_log rt)" using inv by (simp add: rt_inv_def log_inv_def)
  have app: "append_commitment rec (rt_log rt) = (Inr (), rt_log rt
      \<lparr>log_commitment_keys := insert (cr_node_id rec, cr_round rec) (log_commitment_keys (rt_log rt)),
       log_commitments := log_commitments (rt_log rt) @ [rec]\<rparr>)"
    using new by (intro append_commitment_new [OF ix]) simp
  have "log_inv c t r (snd (append_commitment rec (rt_log rt)))"
    using inv new by (intro log_inv_commit) (auto simp: rt_inv_def)
  moreover have "rm_inv c m"
    using inv acc by (auto simp: rt_inv_def intro: accept_commitment_inv)
  ultimately show ?thesis
    using inv acc new
    by (auto simp: rt_inv_def app accept_commitment_Inr check_commitment_Inr find_commitment_snoc
        bt_get_insert split: option.split)
qed

lemma handle_commitment_inv:
  assumes "rt_inv c t r rt"
  shows "rt_inv c t r (handle_commitment r msg rt)"
proof (cases "msg_payload msg")
  case (PCommitment rec)
  show ?thesis
  proof (cases "accept_commitment rec (rt_round_machine rt)")
    case (Pair res m)
    show ?thesis
    proof (cases res)
      case (Inl e)
      with Pair have "m = rt_round_machine rt" by (simp add: accept_commitment_Inl)
      with assms PCommitment Pair Inl show ?thesis
        by (simp add: handle_commitment_def rt_inv_reject)
    next
      case (Inr u)
      note acc = Pair [unfolded Inr]
      show ?thesis
        using rt_inv_commit [OF assms acc] accepted_not_in_log [OF assms acc] assms PCommitment acc
        by (cases "append_commitment rec (rt_log rt)")
          (simp add: handle_commitment_def rt_inv_reject)
    qed
  qed
qed (use assms in \<open>simp_all add: handle_commitment_def rt_inv_reject\<close>)

lemma current_proposer_deterministic:
  "rm_topology m = t \<Longrightarrow> rm_current m = r \<Longrightarrow>
     current_proposer c m = Inr p \<longleftrightarrow> deterministic_proposer c t r = Inr p"
  by (auto simp: current_proposer_def deterministic_proposer_def providers_stable_def
      split: sum.splits)

lemma rt_inv_propose:
  assumes inv: "rt_inv c t r rt" and acc: "accept_proposal c p (rt_round_machine rt) = (Inr u, m)"
  shows "rt_inv c t r (rt\<lparr>rt_round_machine := m, rt_log := append_proposal p (rt_log rt)\<rparr>)"
proof -
  let ?m = "rt_round_machine rt"
  note chk = acc [unfolded accept_proposal_Inr check_proposal_Inr]
  have r: "pr_round p = r" and cur: "rm_current ?m = r" "rm_topology ?m = t"
    and get: "\<And>i. bt_get (rm_commitments ?m) i = find_commitment (rt_log rt) i r"
    using inv chk by (auto simp: rt_inv_def)
  have rm: "rm_inv c ?m" and li: "log_inv c t r (rt_log rt)" using inv by (auto simp: rt_inv_def)
  have rounds: "intent_round (cr_public_intent x) = r" if "bt_get (rm_commitments ?m) i = Some x" for i x
    using rm that cur by (auto simp: rm_inv_def commitment_accepted_def)
  have "proposal_inv c t (rt_log rt) p"
    using chk rounds current_proposer_deterministic [OF cur(2,1), of c "pr_proposer p"]
    unfolding proposal_inv_def r get by fastforce
  then have "log_inv c t r (append_proposal p (rt_log rt))"
    using li r by (intro log_inv_append(2)) auto
  moreover have "rm_inv c m" using rm acc by (rule accept_proposal_inv)
  ultimately show ?thesis
    using inv chk r by (auto simp: rt_inv_def append_proposal_def find_commitment_def)
qed

lemma handle_proposal_inv:
  assumes "rt_inv c t r rt"
  shows "rt_inv c t r (handle_proposal c r msg rt)"
proof (cases "msg_payload msg")
  case (PProposal p)
  show ?thesis
  proof (cases "accept_proposal c p (rt_round_machine rt)")
    case (Pair res m)
    have "m = rt_round_machine rt" if "res = Inl e" for e
      using Pair that by (simp add: accept_proposal_Inl)
    then show ?thesis
      using assms PProposal Pair rt_inv_propose [OF assms, of p _ m]
      by (cases res) (auto simp: handle_proposal_def rt_inv_reject)
  qed
qed (use assms in \<open>simp_all add: handle_proposal_def rt_inv_reject\<close>)

lemma rt_inv_proof:
  "rt_inv c t r rt \<Longrightarrow> proof_linked c (rt_log rt) q \<Longrightarrow> pf_round q \<le> r \<Longrightarrow>
     rt_inv c t r (rt\<lparr>rt_log := append_proof q (rt_log rt)\<rparr>)"
  by (auto simp: rt_inv_def log_inv_append) (auto simp: append_proof_def)

lemma rt_inv_receipt:
  "rt_inv c t r rt \<Longrightarrow> rc_round x \<le> r \<Longrightarrow> rc_signature_hex x \<noteq> [] \<Longrightarrow>
     rt_inv c t r (rt\<lparr>rt_log := append_receipt x (rt_log rt)\<rparr>)"
  by (auto simp: rt_inv_def log_inv_append) (auto simp: append_receipt_def)

lemma handle_proof_inv:
  assumes "rt_inv c t r rt"
  shows "rt_inv c t r (handle_proof c r msg rt)"
proof (cases "msg_payload msg")
  case (PProof q)
  have "bt_get (rm_commitments (rt_round_machine rt)) i = find_commitment (rt_log rt) i r" for i
    using assms by (simp add: rt_inv_def)
  then show ?thesis
    using assms PProof
    by (auto simp: handle_proof_def Let_def rt_inv_reject proof_linked_def intro!: rt_inv_proof)
qed (use assms in \<open>simp_all add: handle_proof_def rt_inv_reject\<close>)

lemma handle_receipt_inv:
  assumes "rt_inv c t r rt"
  shows "rt_inv c t r (handle_receipt r msg rt)"
  using assms
  by (cases "msg_payload msg") (auto simp: handle_receipt_def rt_inv_reject intro!: rt_inv_receipt)

section \<open>Rounds in progress\<close>

text \<open>Before step 4 of its last round, a run has logged no receipt.\<close>

definition rt_open :: "crates \<Rightarrow> topology_config \<Rightarrow> round_id \<Rightarrow> 't runtime \<Rightarrow> bool" where
  "rt_open c t r rt \<longleftrightarrow> rt_inv c t r rt \<and> log_receipts (rt_log rt) = []"

lemma reject_msg_log [simp]:
  "log_receipts (rt_log (reject_msg r n k e rt)) = log_receipts (rt_log rt)"
  "log_proposals (rt_log (reject_msg r n k e rt)) = log_proposals (rt_log rt)"
  "log_proofs (rt_log (reject_msg r n k e rt)) = log_proofs (rt_log rt)"
  by (simp_all add: reject_msg_def append_rejection_def)

lemma observe_log [simp]: "rt_log (observe ev rt) = rt_log rt"
  by (simp add: observe_def)

lemma append_commitment_receipts:
  "append_commitment rec l = (res, l') \<Longrightarrow> log_receipts l' = log_receipts l"
  by (auto simp: append_commitment_def Let_def split: if_splits)

lemma handler_receipts [simp]:
  "log_receipts (rt_log (handle_commitment r msg rt)) = log_receipts (rt_log rt)"
  "log_receipts (rt_log (handle_proposal c r msg rt)) = log_receipts (rt_log rt)"
  "log_receipts (rt_log (handle_proof c r msg rt)) = log_receipts (rt_log rt)"
  by (auto simp: handle_commitment_def handle_proposal_def handle_proof_def Let_def
      append_proposal_def append_proof_def append_commitment_receipts
      split: message_payload.split prod.split sum.split)

text \<open>A handler run by \<open>rt_drain\<close>, whose invariant does not look at the transport.\<close>

locale runtime_handler = drained_handler body I
  for body :: "coordination_message \<Rightarrow> 't runtime \<Rightarrow> 't runtime" and I +
  assumes transport_frame: "I rt \<Longrightarrow> I (rt\<lparr>rt_transport := tr\<rparr>)"
begin

lemma rt_drain_inv:
  assumes "rt_drain ops body rt = Some rt'" and "I rt"
  shows "I rt'"
proof -
  obtain tr s where s: "drain_loop (tr_next_ordered ops) body (rt_transport rt) rt = Some (tr, s)"
    "rt' = s\<lparr>rt_transport := tr\<rparr>"
    using assms(1) by (auto simp: rt_drain_def)
  show ?thesis using transport_frame [OF drain_inv [OF s(1) assms(2)]] s(2) by simp
qed

lemma flushed_drain_inv:
  assumes "rt_drain ops body (rt_flush ops rt) = Some rt'" and "I rt"
  shows "I rt'"
  using rt_drain_inv [OF assms(1)] transport_frame [OF assms(2)] by (simp add: rt_flush_def)

end

interpretation commitments_drain: runtime_handler "handle_commitment r" "rt_open c t r" for c t r
  by unfold_locales (auto simp: rt_open_def handle_commitment_inv)

interpretation proposal_drain: runtime_handler "handle_proposal c r" "rt_open c t r" for c t r
  by unfold_locales (auto simp: rt_open_def handle_proposal_inv)

lemma later_handlers_log [simp]:
  "log_proposals (rt_log (handle_proof c r msg rt)) = log_proposals (rt_log rt)"
  "log_proposals (rt_log (handle_receipt r msg rt)) = log_proposals (rt_log rt)"
  "log_proofs (rt_log (handle_receipt r msg rt)) = log_proofs (rt_log rt)"
  by (auto simp: handle_proof_def handle_receipt_def Let_def append_proof_def append_receipt_def
      split: message_payload.split)

interpretation proofs_drain: runtime_handler "handle_proof c r"
    "\<lambda>rt. rt_open c t r rt \<and> log_proposals (rt_log rt) = ps" for c t r ps
  by unfold_locales (auto simp: rt_open_def handle_proof_inv)

interpretation receipts_drain: runtime_handler "handle_receipt r"
    "\<lambda>rt. rt_inv c t r rt \<and> log_proposals (rt_log rt) = ps \<and> log_proofs (rt_log rt) = qs"
    for c t r ps qs
  by unfold_locales (auto simp: handle_receipt_inv)

section \<open>The broadcasts\<close>

lemma rt_broadcast_Inr:
  "rt_broadcast ops msg rt = Inr rt' \<Longrightarrow> \<exists>tr. rt' = rt\<lparr>rt_transport := tr\<rparr>"
  by (auto simp: rt_broadcast_def split: prod.splits sum.splits)

lemma rt_open_frame [simp]:
  "rt_open c t r (rt\<lparr>rt_transport := tr\<rparr>) = rt_open c t r rt"
  "rt_open c t r (rt\<lparr>rt_historical := h\<rparr>) = rt_open c t r rt"
  "rt_open c t r (observe ev rt) = rt_open c t r rt"
  by (simp_all add: rt_open_def)

lemma rt_broadcast_open: "rt_broadcast ops msg rt = Inr rt' \<Longrightarrow> rt_open c t r rt' = rt_open c t r rt"
  by (auto dest: rt_broadcast_Inr)

lemma rt_open_reject:
  "rt_open c t r rt \<Longrightarrow> kind \<noteq> [] \<Longrightarrow> code \<noteq> [] \<Longrightarrow> rt_open c t r (reject_msg r n kind code rt)"
  by (simp add: rt_open_def rt_inv_reject)

lemma replay_event_open: "replay_event ops r ev rt = Inr rt' \<Longrightarrow> rt_open c t s rt' = rt_open c t s rt"
  by (auto simp: replay_event_def rt_broadcast_open split: scenario_event.splits option.splits)

lemma double_commit_event_open:
  "double_commit_event ops ev rt = Inr rt' \<Longrightarrow> rt_open c t s rt' = rt_open c t s rt"
  by (auto simp: double_commit_event_def rt_broadcast_open split: scenario_event.splits option.splits)

lemma events_open:
  assumes "try_fold f evs rt = Inr rt'" "rt_open c t s rt"
    and "\<And>ev rt rt'. f ev rt = Inr rt' \<Longrightarrow> rt_open c t s rt' = rt_open c t s rt"
  shows "rt_open c t s rt'"
  using assms(1,2) by (rule try_fold_invariant) (use assms(3) in blast)

lemma broadcast_commitment_of_open:
  assumes "broadcast_commitment_of c ops r node rt = Inr rt'" "rt_open c t r rt"
  shows "rt_open c t r rt'"
proof -
  obtain rt1 where 1: "try_fold (replay_event ops r) (events_for_round (rt_scenario rt) node r) rt = Inr rt1"
    using assms(1) by (auto simp: broadcast_commitment_of_def)
  have o1: "rt_open c t r rt1"
    using events_open [OF 1 assms(2) replay_event_open] .
  show ?thesis
  proof (cases "has_dropped (rt_scenario rt1) node r")
    case True
    with assms(1) 1 o1 show ?thesis
      by (auto simp: broadcast_commitment_of_def rt_open_reject)
  next
    case False
    with assms(1) 1 obtain base rt2 where
      2: "rt_broadcast ops \<lparr>msg_origin = node, msg_payload = PCommitment base\<rparr>
            (rt1\<lparr>rt_historical := bt_insert (node, r) base (rt_historical rt1)\<rparr>) = Inr rt2"
      and 3: "try_fold (double_commit_event ops) (events_for_round (rt_scenario rt2) node r) rt2 = Inr rt'"
      by (auto simp: broadcast_commitment_of_def)
    have "rt_open c t r rt2" using o1 rt_broadcast_open [OF 2] by simp
    then show ?thesis by (rule events_open [OF 3 _ double_commit_event_open])
  qed
qed

lemma broadcast_commitments_open:
  "broadcast_commitments c ops r rt = Inr rt' \<Longrightarrow> rt_open c t r rt \<Longrightarrow> rt_open c t r rt'"
  unfolding broadcast_commitments_def
  by (erule try_fold_invariant) (auto intro: broadcast_commitment_of_open)

lemma broadcast_proposal_open:
  assumes "broadcast_proposal c ops r rt = Inr (b, rt')" "rt_open c t r rt"
  shows "rt_open c t r rt'"
  using assms
  by (auto simp: broadcast_proposal_def Let_def rt_open_reject rt_broadcast_open
      simp del: case_sum_map_err
      split: sum.split_asm option.split_asm if_split_asm)

lemma broadcast_proofs_open:
  assumes "broadcast_proofs c ops r p rt = Inr rt'" "rt_open c t r rt"
  shows "rt_open c t r rt'"
  using assms unfolding broadcast_proofs_def
  by (rule try_fold_invariant)
    (auto simp: broadcast_proof_of_def Let_def rt_broadcast_open split: if_splits option.splits)

lemma broadcast_receipt_open:
  assumes "broadcast_receipt c ops r p rt = Inr rt'" "rt_open c t r rt"
  shows "rt_open c t r rt'"
  using assms
  by (auto simp: broadcast_receipt_def Let_def rt_broadcast_open split: if_splits)


lemma broadcast_proofs_log:
  "broadcast_proofs c ops r p rt = Inr rt' \<Longrightarrow> rt_log rt' = rt_log rt"
  unfolding broadcast_proofs_def
  by (erule try_fold_invariant [where P = "\<lambda>x. rt_log x = rt_log rt"])
    (auto simp: broadcast_proof_of_def Let_def dest!: rt_broadcast_Inr
      split: if_split_asm option.split_asm)

lemma broadcast_receipt_log:
  "broadcast_receipt c ops r p rt = Inr rt' \<Longrightarrow> rt_log rt' = rt_log rt"
  by (auto simp: broadcast_receipt_def Let_def dest!: rt_broadcast_Inr split: if_split_asm)

section \<open>One round\<close>

text \<open>A round that finalized has its proposal and both participants' proofs in the log.\<close>

definition round_complete :: "round_id \<Rightarrow> coordination_log \<Rightarrow> bool" where
  "round_complete r l \<longleftrightarrow> (\<exists>p. logged_proposal r l = Some p \<and>
     has_proof r (pr_candidate_requester p) l \<and> has_proof r (pr_candidate_provider p) l)"

definition round_post ::
  "crates \<Rightarrow> topology_config \<Rightarrow> round_id \<Rightarrow> round_outcome \<Rightarrow> 't runtime \<Rightarrow> bool" where
  "round_post c t r outcome rt \<longleftrightarrow>
     (case outcome of
        Fallback \<Rightarrow> rt_open c t r rt
      | Finalized \<Rightarrow> rt_inv c t r rt \<and> round_complete r (rt_log rt))"

lemma receipt_phase_post:
  assumes "receipt_phase c ops r p rt = Some (Inr (outcome, rt'))" and op: "rt_open c t r rt"
    and "round_complete r (rt_log rt)"
  shows "round_post c t r outcome rt'"
proof -
  obtain rt1 where 1: "broadcast_receipt c ops r p rt = Inr rt1"
    and 2: "rt_drain ops (handle_receipt r) (rt_flush ops rt1) = Some rt'" and fin: "outcome = Finalized"
    using assms(1) by (auto simp: receipt_phase_def go_Inr drain_receipts_def)
  have "rt_inv c t r rt1" using broadcast_receipt_open [OF 1 op] by (simp add: rt_open_def)
  then have "rt_inv c t r rt' \<and> log_proposals (rt_log rt') = log_proposals (rt_log rt1) \<and>
      log_proofs (rt_log rt') = log_proofs (rt_log rt1)"
    using receipts_drain.flushed_drain_inv [OF 2] by blast
  with assms(3) fin show ?thesis
    by (simp add: round_post_def round_complete_def logged_proposal_def has_proof_def
        broadcast_receipt_log [OF 1])
qed

lemma proof_phase_post:
  assumes "proof_phase c ops r p rt = Some (Inr (outcome, rt'))" and op: "rt_open c t r rt"
    and pr: "logged_proposal r (rt_log rt) = Some p"
  shows "round_post c t r outcome rt'"
proof -
  obtain rt1 rt2 where 1: "broadcast_proofs c ops r p rt = Inr rt1"
    and 2: "rt_drain ops (handle_proof c r) (rt_flush ops rt1) = Some rt2"
    and 3: "(if \<not> (has_proof r (pr_candidate_requester p) (rt_log rt2) \<and>
           has_proof r (pr_candidate_provider p) (rt_log rt2))
     then Some (Inr (Fallback, rt2)) else receipt_phase c ops r p rt2) = Some (Inr (outcome, rt'))"
    using assms(1) by (auto simp: proof_phase_def go_Inr drain_proofs_def)
  have o2: "rt_open c t r rt2 \<and> log_proposals (rt_log rt2) = log_proposals (rt_log rt)"
    using proofs_drain.flushed_drain_inv [OF 2] broadcast_proofs_open [OF 1 op]
      broadcast_proofs_log [OF 1] by metis
  then have "logged_proposal r (rt_log rt2) = Some p" using pr by (simp add: logged_proposal_def)
  with 3 o2 show ?thesis
    using receipt_phase_post [of c ops r p rt2 outcome rt' t]
    by (auto simp: round_post_def round_complete_def split: if_split_asm)
qed

lemma proposal_phase_post:
  assumes "proposal_phase c ops r rt = Some (Inr (outcome, rt'))" and op: "rt_open c t r rt"
  shows "round_post c t r outcome rt'"
proof -
  obtain proceed rt1 where 1: "broadcast_proposal c ops r rt = Inr (proceed, rt1)"
    and 2: "(if \<not> proceed then Some (Inr (Fallback, rt1)) else
       go (drained (drain_proposal c ops r (rt_flush ops rt1))) (\<lambda>rt.
       case logged_proposal r (rt_log rt) of None \<Rightarrow> Some (Inr (Fallback, rt))
       | Some p \<Rightarrow> proof_phase c ops r p rt)) = Some (Inr (outcome, rt'))"
    using assms(1) by (auto simp: proposal_phase_def go_Inr)
  note o1 = broadcast_proposal_open [OF 1 op]
  show ?thesis
  proof (cases proceed)
    case True
    with 2 obtain rt2 where 3: "rt_drain ops (handle_proposal c r) (rt_flush ops rt1) = Some rt2"
      and 4: "(case logged_proposal r (rt_log rt2) of None \<Rightarrow> Some (Inr (Fallback, rt2))
        | Some p \<Rightarrow> proof_phase c ops r p rt2) = Some (Inr (outcome, rt'))"
      by (auto simp: go_Inr drain_proposal_def)
    have "rt_open c t r rt2" using proposal_drain.flushed_drain_inv [OF 3 o1] .
    with 4 show ?thesis
      using proof_phase_post by (auto simp: round_post_def split: option.split_asm)
  qed (use 2 o1 in \<open>auto simp: round_post_def\<close>)
qed

lemma run_one_round_post:
  assumes "run_one_round c ops r rt = Some (Inr (outcome, rt'))" and op: "rt_open c t r rt"
  shows "round_post c t r outcome rt'"
proof -
  obtain rt1 rt2 where 1: "broadcast_commitments c ops r rt = Inr rt1"
    and 2: "rt_drain ops (handle_commitment r) (rt_flush ops rt1) = Some rt2"
    and 3: "(case topo_requester (rt_topology rt2) of
       None \<Rightarrow> Some (Inl (Panic ''from_raw enforces exactly one requester''))
     | Some q \<Rightarrow>
         if \<not> bt_contains (rm_commitments (rt_round_machine rt2)) (nc_id q)
         then Some (Inr (Fallback, reject_msg r (nc_id q) ''round'' ''requester_missing'' rt2))
         else proposal_phase c ops r rt2) = Some (Inr (outcome, rt'))"
    using assms(1) by (auto simp: run_one_round_def go_Inr drain_commitments_def)
  have "rt_open c t r rt2"
    using commitments_drain.flushed_drain_inv [OF 2 broadcast_commitments_open [OF 1 op]] .
  with 3 show ?thesis
    using proposal_phase_post
    by (auto simp: round_post_def rt_open_reject split: option.split_asm if_split_asm)
qed

section \<open>The run\<close>

lemma log_inv_later:
  assumes "log_inv c t r l" "r < s"
  shows "find_commitment l i s = None" "p \<in> set (log_proposals l) \<Longrightarrow> pr_round p \<noteq> s"
proof -
  have "cr_round x \<le> r" if "x \<in> set (log_commitments l)" for x
    using assms(1) that by (simp add: log_inv_def)
  with assms(2) show "find_commitment l i s = None"
    unfolding find_commitment_None by (metis leD)
  have "pr_round p \<le> r" if "p \<in> set (log_proposals l)"
    using assms(1) that by (simp add: log_inv_def)
  with assms(2) show "p \<in> set (log_proposals l) \<Longrightarrow> pr_round p \<noteq> s" by (metis leD)
qed

lemma rt_open_advance:
  assumes "rt_open c t r rt" and "advance_fallback (rt_round_machine rt) = (Inr u, m)"
  shows "rt_open c t (round_next r) (rt\<lparr>rt_round_machine := m\<rparr>)" "r < round_next r"
proof -
  let ?m = "rt_round_machine rt"
  have inv: "rt_inv c t r rt" using assms(1) by (simp add: rt_open_def)
  then have cur: "rm_current ?m = r" "rm_inv c ?m" and li: "log_inv c t r (rt_log rt)"
    by (simp_all add: rt_inv_def)
  have adv: "advance_to (round_next r) ?m = (Inr u, m)"
    using assms(2) cur by (simp add: advance_fallback_def)
  note m = adv [unfolded advance_to_Inr]
  show less: "r < round_next r" using m cur by simp
  have "\<forall>i. find_commitment (rt_log rt) i (round_next r) = None"
    "\<forall>p \<in> set (log_proposals (rt_log rt)). pr_round p \<noteq> round_next r"
    using log_inv_later [OF li less] by simp_all
  moreover have "log_inv c t (round_next r) (rt_log rt)"
    by (rule log_inv_mono [OF li order.strict_implies_order [OF less]])
  moreover have "rm_inv c m" using cur(2) adv by (rule advance_to_inv)
  moreover have "rm_current m = round_next r" "rm_commitments m = []" "rm_topology m = t"
    using m inv by (simp_all add: rt_inv_def)
  ultimately have "rt_inv c t (round_next r) (rt\<lparr>rt_round_machine := m\<rparr>)"
    using inv by (simp add: rt_inv_def)
  then show "rt_open c t (round_next r) (rt\<lparr>rt_round_machine := m\<rparr>)"
    using assms(1) by (simp add: rt_open_def)
qed

definition run_post ::
  "crates \<Rightarrow> topology_config \<Rightarrow> bool \<Rightarrow> round_id \<Rightarrow> coordination_log \<Rightarrow> bool" where
  "run_post c t finalized r l \<longleftrightarrow> log_inv c t r l \<and>
     (if finalized then round_complete r l else log_receipts l = [])"

lemma run_rounds_post:
  assumes "run_rounds c ops n fr rt = Some (Inr ((fin, fr'), rt'))"
    and "rt_open c t (rm_current (rt_round_machine rt)) rt" and "log_inv c t fr (rt_log rt)"
  shows "run_post c t fin fr' (rt_log rt')"
  using assms
proof (induction n arbitrary: fr rt)
  case 0
  then show ?case by (simp add: run_post_def rt_open_def)
next
  case (Suc n)
  let ?r = "rm_current (rt_round_machine rt)"
  obtain outcome rt1 where 1: "run_one_round c ops ?r rt = Some (Inr (outcome, rt1))"
    and 2: "(case outcome of
           Finalized \<Rightarrow> Some (Inr ((True, ?r), observe (OnRoundCommitted ?r (outcome = Finalized)) rt1))
         | Fallback \<Rightarrow>
             (case advance_fallback (rt_round_machine
                 (observe (OnRoundCommitted ?r (outcome = Finalized)) rt1)) of
                (Inl e, _) \<Rightarrow> Some (Inl (Fail (RoundErr e)))
              | (Inr _, m) \<Rightarrow> run_rounds c ops n ?r
                  (observe (OnRoundCommitted ?r (outcome = Finalized)) rt1\<lparr>rt_round_machine := m\<rparr>)))
       = Some (Inr ((fin, fr'), rt'))"
    using Suc.prems(1) by (auto simp: go_Inr Let_def)
  have post: "round_post c t ?r outcome rt1" using run_one_round_post [OF 1 Suc.prems(2)] .
  show ?case
  proof (cases outcome)
    case Finalized
    with 2 post show ?thesis by (auto simp: run_post_def round_post_def rt_inv_def)
  next
    case Fallback
    let ?rt = "observe (OnRoundCommitted ?r False) rt1"
    have op: "rt_open c t ?r ?rt" using post Fallback by (simp add: round_post_def)
    obtain m where adv: "advance_fallback (rt_round_machine ?rt) = (Inr (), m)"
      and rec: "run_rounds c ops n ?r (?rt\<lparr>rt_round_machine := m\<rparr>) = Some (Inr ((fin, fr'), rt'))"
      using 2 Fallback by (auto split: prod.split_asm sum.split_asm)
    note op' = rt_open_advance [OF op adv]
    then have cur: "rm_current m = round_next ?r" by (simp add: rt_open_def rt_inv_def)
    show ?thesis
      using op' op cur by (intro Suc.IH [OF rec]) (auto simp: rt_open_def rt_inv_def)
  qed
qed

lemma runtime_new_Inr:
  "runtime_new c t tr agents sc mr = Inr rt \<longleftrightarrow>
     length (filter (\<lambda>n. nc_role n = Requester) (topo_nodes t)) = 1 \<and>
     (\<exists>n \<in> set (topo_nodes t). nc_role n = Provider) \<and>
     set (bt_keys agents) \<subseteq> nc_id ` set (topo_nodes t) \<and> agents \<noteq> [] \<and>
     rt = \<lparr>rt_topology = t, rt_transport = tr, rt_log = log_new ''run-pending'', rt_agents = agents,
           rt_round_machine = round_machine_new t 0, rt_scenario = sc,
           rt_invalid_proof_schedule = invalid_proof_schedule sc, rt_historical = [],
           rt_max_rounds = mr, rt_run_salt = replicate 32 0x5a, rt_events = []\<rparr>"
proof -
  have find: "List.find (\<lambda>i. \<not> list_ex (\<lambda>n. nc_id n = i) (topo_nodes t)) (bt_keys agents) = None \<longleftrightarrow>
      set (bt_keys agents) \<subseteq> nc_id ` set (topo_nodes t)"
    by (auto simp: find_None_iff list_ex_iff)
  show ?thesis
    by (auto simp: runtime_new_def filter_empty_conv simp flip: find split: option.split)
qed

lemma runtime_new_open:
  "runtime_new c t tr agents sc mr = Inr rt \<Longrightarrow> rt_open c t 0 (with_run_salt salt rt\<lparr>rt_log := log_new run_id\<rparr>)"
  by (auto simp: runtime_new_Inr with_run_salt_def rt_open_def rt_inv_def log_inv_new rm_inv_new)
    (auto simp: log_new_def find_commitment_def)

lemma close_run_log:
  "run_post c t fin r (rt_log rt) \<Longrightarrow>
     run_post c t fin r (rt_log (close_run fin r rt)) \<and>
     log_final_round (rt_log (close_run fin r rt)) = r \<and>
     log_finalized (rt_log (close_run fin r rt)) = fin"
  by (auto simp: run_post_def close_run_def Let_def log_inv_def round_complete_def
      logged_proposal_def has_proof_def proposal_inv_def proof_linked_def inv_simps)
    (auto simp: log_op_defs)

lemma run_log_post:
  assumes new: "runtime_new c t tr agents sc mr = Inr rt"
    and run: "run c ops run_id (with_run_salt salt rt) = Some (Inr out)"
  shows "run_post c t (ro_finalized out) (ro_final_round out) (ro_log out)"
    "log_final_round (ro_log out) = ro_final_round out"
    "log_finalized (ro_log out) = ro_finalized out"
proof -
  let ?rt = "with_run_salt salt rt\<lparr>rt_log := log_new run_id\<rparr>"
  obtain fin fr rt' where r: "run_rounds c ops (unat (rt_max_rounds (with_run_salt salt rt))) 0 ?rt =
      Some (Inr ((fin, fr), rt'))"
    and out: "out = \<lparr>ro_log = rt_log (close_run fin fr rt'), ro_finalized = fin, ro_final_round = fr\<rparr>"
    using run by (auto simp: run_def go_Inr)
  have op: "rt_open c t 0 ?rt" using runtime_new_open [OF new] .
  then have "rm_current (rt_round_machine ?rt) = 0" by (simp add: rt_open_def rt_inv_def)
  then have post: "run_post c t fin fr (rt_log rt')"
    using run_rounds_post [OF r, of t] op by (simp add: log_inv_new)
  show "run_post c t (ro_finalized out) (ro_final_round out) (ro_log out)"
    "log_final_round (ro_log out) = ro_final_round out"
    "log_finalized (ro_log out) = ro_finalized out"
    using close_run_log [OF post] by (simp_all add: out)
qed

section \<open>What the verifier says of such a log\<close>

lemma log_inv_reasons:
  assumes "log_inv c t (log_final_round l) l"
  shows "verify_reasons c t l =
    concat (map (verify_proof c l) (log_proofs l)) @ snd (verify_final_round c t l)"
proof -
  have "verify_schema l = []" using assms by (simp add: log_inv_def verify_schema_def)
  moreover have "verify_commitments c t {} (log_commitments l) = []"
    using assms by (simp add: verify_commitments_Nil log_inv_def log_indexed_def)
  moreover have "concat (map (verify_proposal c t l) (log_proposals l)) = []"
    using assms by (simp add: verify_proposal_Nil log_inv_def proposal_inv_sound)
  moreover have "concat (map (verify_rejection c (log_final_round l)) (log_rejections l)) = []"
    using assms by (simp add: verify_rejection_Nil log_inv_def)
  ultimately show ?thesis
    by (simp only: verify_reasons_def Let_def append_Nil) (simp split: prod.split)
qed

lemma round_complete_final:
  assumes inv: "log_inv c t r l" and "round_complete r l" and l: "log_final_round l = r" "log_finalized l"
  shows "set (snd (verify_final_round c t l)) \<subseteq>
    {''final_round_missing_receipt'', ''final_round_signature_mismatch''}"
proof -
  obtain p where p: "logged_proposal r l = Some p" "has_proof r (pr_candidate_requester p) l"
    "has_proof r (pr_candidate_provider p) l"
    using assms(2) by (auto simp: round_complete_def)
  have "p \<in> set (log_proposals l)" "pr_round p = r"
    using find_Some_mem [OF p(1) [unfolded logged_proposal_def]] by auto
  then have "predicate_holds_for_log l r (pr_candidate_requester p) (pr_candidate_provider p) = Inr ()"
    using inv proposal_inv_predicate [of c t l p] by (auto simp: log_inv_def)
  moreover have "rc_signature_hex x \<noteq> []" if "List.find P (log_receipts l) = Some x" for P x
    using find_Some_mem [OF that] inv by (simp add: log_inv_def)
  ultimately show ?thesis
    using p l by (auto simp: verify_final_round_def Let_def logged_proposal_def has_proof_def
        split: option.split)
qed

lemma aborted_final:
  "log_receipts l = [] \<Longrightarrow> \<not> log_finalized l \<Longrightarrow> snd (verify_final_round c t l) = []"
  by (simp add: verify_final_round_def)

end
