(* ===== verification/Bus_Run.thy ===== *)
theory Bus_Run
  imports Runtime_Inv
begin

text \<open>
  Runs over the in-process \<open>OrderedBus\<close> with agents that fit the topology, under any
  adversarial scenario: no step faults, every drain returns, and the log the run leaves is
  one the standalone verifier accepts.
\<close>

section \<open>Proof artifacts\<close>

definition hex32 :: "crates \<Rightarrow> string \<Rightarrow> bool" where
  "hex32 c s \<longleftrightarrow> (\<exists>bs. length bs = 32 \<and> s = hex_encode c bs)"

lemma copy_at_last: "length pre = off \<Longrightarrow> copy_at off [x] (pre @ [y]) = pre @ [x]"
  by (simp add: copy_at_def)

lemma public_inputs_layout:
  assumes "hex_ok c" "node_wf n" "length bs = 32" "cr_commitment_hex commit = hex_encode c bs"
  shows "public_inputs c commit n r =
    u64_be r @ nid_bytes n @ bs @ [role_byte (cr_public_intent commit)]"
proof -
  have n: "length (nid_bytes n) = 32" using assms(2) by (simp add: node_wf_def)
  have "copy_at 72 [role_byte (cr_public_intent commit)] (copy_at 40 bs (copy_at 8 (nid_bytes n)
      (copy_at 0 (u64_be r) ([] @ replicate 73 0)))) =
      (((([] @ u64_be r) @ nid_bytes n) @ bs) @ [role_byte (cr_public_intent commit)]) @ replicate 0 0"
    using n assms(3) by (simp add: copy_at_zeros copy_at_last del: append_assoc append_Nil append.simps)
  then show ?thesis
    using assms by (simp add: public_inputs_def proof_public_inputs_len_def hex_laws)
qed

lemma public_inputs_parts:
  assumes "hex_ok c" "node_wf n" "length bs = 32"
    and h: "h = hex_encode c (u64_be r @ nid_bytes n @ bs @ [b])"
  shows "parse_public_inputs c h = Some (r, n, bs, b)"
    "extract_commitment_hash_hex c h = Some (hex_encode c bs)"
proof -
  have n: "length (nid_bytes n) = 32" using assms(2) by (simp add: node_wf_def)
  show "parse_public_inputs c h = Some (r, n, bs, b)"
    "extract_commitment_hash_hex c h = Some (hex_encode c bs)"
    using assms(1,3) n
    by (simp_all add: h parse_public_inputs_def extract_commitment_hash_hex_def hex_laws
        proof_public_inputs_len_def nth_append)
qed

lemma build_proof_artifact_sound:
  assumes ok: "crates_ok c" and n: "node_wf n" and hx: "hex32 c (cr_commitment_hex commit)"
    and "find_commitment l n r = Some commit"
  shows "proof_sound c l (build_proof_artifact c commit n r)"
proof -
  obtain bs where bs: "length bs = 32" "cr_commitment_hex commit = hex_encode c bs"
    using hx by (auto simp: hex32_def)
  have h: "hex_ok c" using ok by (simp add: crates_ok_def)
  show ?thesis
    using assms(4) public_inputs_parts(1) [OF h n bs(1) refl] bs
    by (auto simp: proof_sound_def build_proof_artifact_def Let_def hex_laws [OF h]
        public_inputs_layout [OF h n bs])
qed

text \<open>The injected corruption always changes the embedded commitment hash.\<close>

lemma tampered_extract:
  assumes h: "hex_ok c" and n: "node_wf n" and hx: "hex32 c (cr_commitment_hex commit)"
  shows "extract_commitment_hash_hex c
      (tamper_public_inputs c (hex_encode c (public_inputs c commit n r))) \<noteq>
    Some (cr_commitment_hex commit)"
proof -
  obtain bs where bs: "length bs = 32" "cr_commitment_hex commit = hex_encode c bs"
    using hx by (auto simp: hex32_def)
  obtain b rest where b: "bs = b # rest" using bs(1) by (cases bs) auto
  let ?role = "role_byte (cr_public_intent commit)"
  have nl: "length (nid_bytes n) = 32" using n by (simp add: node_wf_def)
  have "tamper_public_inputs c (hex_encode c (public_inputs c commit n r)) =
      hex_encode c (u64_be r @ nid_bytes n @ (xor b 1 # rest) @ [?role])"
    using nl bs(1) b
    by (simp add: tamper_public_inputs_def public_inputs_layout [OF h n bs] hex_laws [OF h]
        nth_append list_update_append)
  moreover have "length (xor b 1 # rest) = 32" using bs(1) b by simp
  ultimately have "extract_commitment_hash_hex c
      (tamper_public_inputs c (hex_encode c (public_inputs c commit n r))) =
      Some (hex_encode c (xor b 1 # rest))"
    using public_inputs_parts(2) [OF h n] by metis
  moreover have "xor b 1 \<noteq> b"
  proof
    assume "xor b 1 = b"
    then have "xor b (xor b 1) = 0" by simp
    then show False by (simp flip: xor.assoc)
  qed
  ultimately show ?thesis using bs b by (simp add: hex_encode_inject [OF h])
qed

section \<open>Agents that fit their topology\<close>

text \<open>
  The agent holds the private intent of its configured role, with capabilities the
  commitment helpers accept; a provider's signing seed is the one whose public key the
  topology lists, or there is neither.
\<close>

definition signing_consistent :: "crates \<Rightarrow> node_config \<Rightarrow> private_provider_intent \<Rightarrow> bool" where
  "signing_consistent c cfg i \<longleftrightarrow>
     nc_signing_public_key cfg =
       map_option (\<lambda>s. seed_public c (expose s)) (ppi_signing_secret_key i) \<and>
     (case ppi_signing_secret_key i of None \<Rightarrow> True | Some s \<Rightarrow> seed_wf (expose s))"

definition agent_ok :: "crates \<Rightarrow> topology_config \<Rightarrow> node_id \<Rightarrow> agent_state \<Rightarrow> bool" where
  "agent_ok c t i a \<longleftrightarrow>
     (case find_node t i of
        None \<Rightarrow> False
      | Some cfg \<Rightarrow> ag_role a = nc_role cfg \<and>
          (case ag_role a of
             Requester \<Rightarrow>
               (case ag_requester a of
                  None \<Rightarrow> False
                | Some x \<Rightarrow> is_ok (commit_requester c x [] 0))
           | Provider \<Rightarrow>
               (case ag_provider a of
                  None \<Rightarrow> False
                | Some x \<Rightarrow> is_ok (commit_provider c x [] 0) \<and> signing_consistent c cfg x)))"

definition agents_ok :: "crates \<Rightarrow> topology_config \<Rightarrow> (node_id, agent_state) btree_map \<Rightarrow> bool" where
  "agents_ok c t agents \<longleftrightarrow> (\<forall>(i, a) \<in> set agents. agent_ok c t i a)"

lemma agents_ok_get: "agents_ok c t agents \<Longrightarrow> bt_get agents i = Some a \<Longrightarrow> agent_ok c t i a"
  by (auto simp: agents_ok_def dest!: bt_get_mem)

definition local_commit ::
  "crates \<Rightarrow> (node_id, agent_state) btree_map \<Rightarrow> commitment_record \<Rightarrow> bool" where
  "local_commit c agents rec \<longleftrightarrow>
     hex32 c (cr_commitment_hex rec) \<and> bt_contains agents (cr_node_id rec)"

lemma is_okE: "is_ok r \<Longrightarrow> (\<And>x. r = Inr x \<Longrightarrow> P) \<Longrightarrow> P"
  by (cases r) auto

lemma commit_ok_transfer:
  "is_ok (commit_requester c ri [] 0) \<Longrightarrow> is_ok (commit_requester c ri nonce r)"
  "is_ok (commit_provider c pi [] 0) \<Longrightarrow> is_ok (commit_provider c pi nonce r)"
  by (simp_all add: commit_requester_ok_iff commit_provider_ok_iff)

lemma build_commitment_total:
  assumes ok: "crates_ok c" and wf: "topology_wf c t" and t: "rt_topology rt = t"
    and agents: "agents_ok c t (rt_agents rt)" and get: "bt_get (rt_agents rt) i = Some a"
  shows "\<exists>rec. build_commitment c rt i r = Inr rec \<and> local_commit c (rt_agents rt) rec \<and>
    cr_node_id rec = i \<and> cr_round rec = r"
proof -
  note a = agents_ok_get [OF agents get]
  then obtain cfg where cfg: "find_node t i = Some cfg" "ag_role a = nc_role cfg"
    by (auto simp: agent_ok_def split: option.splits)
  have mem: "node_config_wf c (topo_capability_tags t) cfg"
    using wf find_node_mem [OF cfg(1)] by (simp add: topology_wf_def)
  have blake: "blake_ok c" using ok by (simp add: crates_ok_def)
  have loc: "bt_contains (rt_agents rt) i" using get by (simp add: bt_contains_def)
  show ?thesis
  proof (cases "nc_role cfg")
    case Requester
    with a cfg obtain x where x: "ag_requester a = Some x" "is_ok (commit_requester c x [] 0)"
      by (auto simp: agent_ok_def split: option.splits)
    then obtain h where h: "commit_requester c x (derive_test_nonce c i r (rt_run_salt rt)) r = Inr h"
      using commit_ok_transfer(1) by (blast elim: is_okE)
    from mem Requester obtain req where "nc_required_capability cfg = Some req"
      by (auto simp: node_config_wf_def)
    with get cfg Requester x h t loc length_commit(1) [OF blake h] show ?thesis
      by (auto simp: build_commitment_def Let_def local_commit_def hex32_def)
  next
    case Provider
    with a cfg obtain x where x: "ag_provider a = Some x" "is_ok (commit_provider c x [] 0)"
      by (auto simp: agent_ok_def split: option.splits)
    then obtain h where h: "commit_provider c x (derive_test_nonce c i r (rt_run_salt rt)) r = Inr h"
      using commit_ok_transfer(2) by (blast elim: is_okE)
    with get cfg Provider x h t loc length_commit(2) [OF blake h] show ?thesis
      by (auto simp: build_commitment_def Let_def local_commit_def hex32_def)
  qed
qed

section \<open>What an in-process run maintains\<close>

definition honest :: "crates \<Rightarrow> topology_config \<Rightarrow> 't runtime \<Rightarrow> bool" where
  "honest c t rt \<longleftrightarrow> agents_ok c t (rt_agents rt) \<and>
     (\<forall>i rec. bt_get (rm_commitments (rt_round_machine rt)) i = Some rec \<longrightarrow>
        local_commit c (rt_agents rt) rec) \<and>
     (\<forall>k rec. bt_get (rt_historical rt) k = Some rec \<longrightarrow> local_commit c (rt_agents rt) rec) \<and>
     (\<forall>q \<in> set (log_proofs (rt_log rt)). proof_sound c (rt_log rt) q)"

definition rt_queue :: "ordered_bus runtime \<Rightarrow> coordination_message list" where
  "rt_queue rt = bus_queue (rt_transport rt)"

lemma bus_broadcast_total:
  "rt_broadcast bus_ops m rt =
     Inr (rt\<lparr>rt_transport := \<lparr>bus_queue = rt_queue rt @ [m]\<rparr>\<rparr>)"
  by (simp add: rt_broadcast_def bus_ops_def bus_broadcast_def rt_queue_def)

lemma bus_drain:
  "rt_drain bus_ops body (rt_flush bus_ops rt) =
     Some (foldl (\<lambda>s m. body m s) rt (rt_queue rt) \<lparr>rt_transport := \<lparr>bus_queue = []\<rparr>\<rparr>)"
proof -
  have fl: "rt_flush bus_ops rt = rt" by (simp add: rt_flush_def bus_ops_def)
  obtain t' where "drain_loop (tr_next_ordered bus_ops) body (rt_transport rt) rt =
      Some (t', foldl (\<lambda>s m. body m s) rt (rt_queue rt))" "bus_queue t' = []"
    using bus.drain_fold [of body "rt_transport rt" rt] by (auto simp: rt_queue_def)
  then show ?thesis by (cases t') (simp add: rt_drain_def fl)
qed

lemma rt_queue_simps [simp]:
  "rt_queue (rt\<lparr>rt_transport := b\<rparr>) = bus_queue b"
  "rt_queue (rt\<lparr>rt_historical := h\<rparr>) = rt_queue rt"
  "rt_queue (reject_msg r n k e rt) = rt_queue rt"
  "rt_queue (observe ev rt) = rt_queue rt"
  by (simp_all add: rt_queue_def reject_msg_def observe_def)

lemma honest_transport [simp]: "honest c t (rt\<lparr>rt_transport := b\<rparr>) = honest c t rt"
  by (simp add: honest_def)

lemma honest_observe [simp]: "honest c t (observe ev rt) = honest c t rt"
  by (simp add: honest_def observe_def)

lemma proof_sound_frame:
  "find_commitment l = find_commitment l' \<Longrightarrow> proof_sound c l q = proof_sound c l' q"
  by (simp add: proof_sound_def)

lemma honest_reject [simp]: "honest c t (reject_msg r n k e rt) = honest c t rt"
proof -
  have "find_commitment (rt_log (reject_msg r n k e rt)) = find_commitment (rt_log rt)"
    by (simp add: reject_msg_def)
  from proof_sound_frame [OF this] show ?thesis
    by (simp add: honest_def reject_msg_def log_op_defs)
qed

lemma honest_historical:
  "honest c t rt \<Longrightarrow> local_commit c (rt_agents rt) rec \<Longrightarrow>
     honest c t (rt\<lparr>rt_historical := bt_insert k rec (rt_historical rt)\<rparr>)"
  by (auto simp: honest_def bt_get_insert split: if_split_asm)

lemma reject_static [simp]:
  "rt_agents (reject_msg r n k e rt) = rt_agents rt"
  "rt_historical (reject_msg r n k e rt) = rt_historical rt"
  "rt_round_machine (reject_msg r n k e rt) = rt_round_machine rt"
  "rt_agents (observe ev rt) = rt_agents rt"
  "rt_historical (observe ev rt) = rt_historical rt"
  "rt_round_machine (observe ev rt) = rt_round_machine rt"
  by (simp_all add: reject_msg_def observe_def)

lemma handler_static [simp]:
  "rt_agents (handle_commitment r m rt) = rt_agents rt"
  "rt_agents (handle_proposal c r m rt) = rt_agents rt"
  "rt_agents (handle_proof c r m rt) = rt_agents rt"
  "rt_agents (handle_receipt r m rt) = rt_agents rt"
  by (auto simp: handle_commitment_def handle_proposal_def handle_proof_def handle_receipt_def
      Let_def split: message_payload.split prod.split sum.split)

section \<open>Step 1 on the bus\<close>

definition commit_msg :: "crates \<Rightarrow> (node_id, agent_state) btree_map \<Rightarrow> coordination_message \<Rightarrow> bool" where
  "commit_msg c agents m \<longleftrightarrow>
     (\<forall>rec. msg_payload m = PCommitment rec \<longrightarrow> local_commit c agents rec)"

text \<open>Between the broadcasts of a step: everything queued satisfies \<open>Q\<close>.\<close>

definition sending ::
  "crates \<Rightarrow> topology_config \<Rightarrow> round_id \<Rightarrow> (coordination_message \<Rightarrow> bool) \<Rightarrow>
     (node_id, agent_state) btree_map \<Rightarrow> ordered_bus runtime \<Rightarrow> bool" where
  "sending c t r Q agents rt \<longleftrightarrow> rt_open c t r rt \<and> honest c t rt \<and> rt_agents rt = agents \<and>
     (\<forall>m \<in> set (rt_queue rt). Q m)"

lemma sending_broadcast:
  "sending c t r Q ags rt \<Longrightarrow> Q m \<Longrightarrow>
     \<exists>rt'. rt_broadcast bus_ops m rt = Inr rt' \<and> sending c t r Q ags rt'"
  by (auto simp: sending_def bus_broadcast_total)

lemma local_relabel:
  "local_commit c ags rec \<Longrightarrow> local_commit c ags
     \<lparr>cr_node_id = cr_node_id rec, cr_round = r, cr_commitment_hex = cr_commitment_hex rec,
      cr_public_intent = i\<rparr>"
  by (simp add: local_commit_def)

lemma replay_event_total:
  assumes s: "sending c t r (commit_msg c ags) ags rt"
  shows "\<exists>rt'. replay_event bus_ops r ev rt = Inr rt' \<and> sending c t r (commit_msg c ags) ags rt'"
proof (cases ev)
  case (ReplayPriorCommitment node r' from_round)
  show ?thesis
  proof (cases "bt_get (rt_historical rt) (node, from_round)")
    case (Some prior)
    then have "local_commit c ags prior" using s by (auto simp: sending_def honest_def)
    then have "commit_msg c ags \<lparr>msg_origin = node, msg_payload = PCommitment
       \<lparr>cr_node_id = cr_node_id prior, cr_round = r, cr_commitment_hex = cr_commitment_hex prior,
        cr_public_intent = update_intent_round (cr_public_intent prior) r\<rparr>\<rparr>"
      by (simp add: commit_msg_def local_relabel)
    from sending_broadcast [OF s this] Some ReplayPriorCommitment show ?thesis
      by (simp add: replay_event_def)
  qed (use s ReplayPriorCommitment in \<open>simp add: replay_event_def\<close>)
qed (use s in \<open>simp_all add: replay_event_def\<close>)

lemma double_commit_event_total:
  assumes s: "sending c t r (commit_msg c ags) ags rt"
  shows "\<exists>rt'. double_commit_event bus_ops ev rt = Inr rt' \<and>
    sending c t r (commit_msg c ags) ags rt'"
proof (cases ev)
  case (DoubleCommit node r')
  show ?thesis
  proof (cases "bt_get (rt_historical rt) (node, r')")
    case (Some rec)
    then have "local_commit c ags rec" using s by (auto simp: sending_def honest_def)
    then have "commit_msg c ags \<lparr>msg_origin = node, msg_payload = PCommitment rec\<rparr>"
      by (simp add: commit_msg_def)
    from sending_broadcast [OF s this] Some DoubleCommit show ?thesis
      by (simp add: double_commit_event_def)
  qed (use s DoubleCommit in \<open>simp add: double_commit_event_def\<close>)
qed (use s in \<open>simp_all add: double_commit_event_def\<close>)

lemma sending_reject:
  "sending c t r Q ags rt \<Longrightarrow> k \<noteq> [] \<Longrightarrow> e \<noteq> [] \<Longrightarrow> sending c t r Q ags (reject_msg r n k e rt)"
  by (simp add: sending_def rt_open_reject)

lemma sending_historical:
  "sending c t r Q ags rt \<Longrightarrow> local_commit c ags rec \<Longrightarrow>
     sending c t r Q ags (rt\<lparr>rt_historical := bt_insert k rec (rt_historical rt)\<rparr>)"
  by (auto simp: sending_def honest_historical)

lemma broadcast_commitment_of_total:
  assumes ok: "crates_ok c" and wf: "topology_wf c t" and node: "node \<in> set (bt_keys ags)"
    and s: "sending c t r (commit_msg c ags) ags rt"
  shows "\<exists>rt'. broadcast_commitment_of c bus_ops r node rt = Inr rt' \<and>
    sending c t r (commit_msg c ags) ags rt'"
proof -
  let ?S = "sending c t r (commit_msg c ags) ags"
  obtain rt1 where 1: "try_fold (replay_event bus_ops r) (events_for_round (rt_scenario rt) node r) rt
      = Inr rt1" "?S rt1"
    using try_fold_total [of ?S rt _ "replay_event bus_ops r", OF s replay_event_total] by blast
  show ?thesis
  proof (cases "has_dropped (rt_scenario rt1) node r")
    case True
    with 1 sending_reject [OF 1(2)] show ?thesis by (simp add: broadcast_commitment_of_def)
  next
    case False
    obtain a where a: "bt_get (rt_agents rt1) node = Some a"
      using node 1(2) by (auto simp: set_bt_keys sending_def)
    have "rt_topology rt1 = t" "agents_ok c t (rt_agents rt1)" "rt_agents rt1 = ags"
      using 1(2) by (auto simp: sending_def rt_open_def rt_inv_def honest_def)
    then obtain base where base: "build_commitment c rt1 node r = Inr base" "local_commit c ags base"
      using build_commitment_total [OF ok wf _ _ a] by metis
    have "commit_msg c ags \<lparr>msg_origin = node, msg_payload = PCommitment base\<rparr>"
      using base(2) by (simp add: commit_msg_def)
    then obtain rt2 where 2: "rt_broadcast bus_ops \<lparr>msg_origin = node, msg_payload = PCommitment base\<rparr>
        (rt1\<lparr>rt_historical := bt_insert (node, r) base (rt_historical rt1)\<rparr>) = Inr rt2" "?S rt2"
      using sending_broadcast [OF sending_historical [OF 1(2) base(2)]] by blast
    obtain rt3 where "try_fold (double_commit_event bus_ops)
        (events_for_round (rt_scenario rt2) node r) rt2 = Inr rt3" "?S rt3"
      using try_fold_total [of ?S rt2 _ "double_commit_event bus_ops",
          OF 2(2) double_commit_event_total] by blast
    with 1 2 base False show ?thesis by (simp add: broadcast_commitment_of_def)
  qed
qed

lemma broadcast_commitments_total:
  assumes "crates_ok c" "topology_wf c t" and s: "sending c t r (commit_msg c ags) ags rt"
  shows "\<exists>rt'. broadcast_commitments c bus_ops r rt = Inr rt' \<and>
    sending c t r (commit_msg c ags) ags rt'"
proof -
  have "rt_agents rt = ags" using s by (simp add: sending_def)
  with try_fold_total [of "sending c t r (commit_msg c ags) ags" rt "bt_keys ags", OF s]
    broadcast_commitment_of_total [OF assms(1,2)]
  show ?thesis unfolding broadcast_commitments_def by blast
qed

lemma proof_sound_mono:
  assumes "proof_sound c l q" "\<And>i s x. find_commitment l i s = Some x \<Longrightarrow> find_commitment l' i s = Some x"
  shows "proof_sound c l' q"
  using assms by (fastforce simp: proof_sound_def)

lemma honest_commit:
  assumes inv: "rt_inv c t r rt" and h: "honest c t rt" and loc: "local_commit c (rt_agents rt) rec"
    and acc: "accept_commitment rec (rt_round_machine rt) = (Inr u, m)"
  shows "honest c t (rt\<lparr>rt_round_machine := m, rt_log := snd (append_commitment rec (rt_log rt))\<rparr>)"
proof -
  have ix: "log_indexed (rt_log rt)" using inv by (simp add: rt_inv_def log_inv_def)
  have app: "append_commitment rec (rt_log rt) = (Inr (), rt_log rt
      \<lparr>log_commitment_keys := insert (cr_node_id rec, cr_round rec) (log_commitment_keys (rt_log rt)),
       log_commitments := log_commitments (rt_log rt) @ [rec]\<rparr>)"
    using accept_commitment_new [OF inv acc] by (intro append_commitment_new [OF ix]) simp
  have "proof_sound c (snd (append_commitment rec (rt_log rt))) q" if "q \<in> set (log_proofs (rt_log rt))" for q
    using h that by (auto simp: honest_def app find_commitment_snoc intro: proof_sound_mono)
  moreover have "log_proofs (snd (append_commitment rec (rt_log rt))) = log_proofs (rt_log rt)"
    by (simp add: app)
  ultimately show ?thesis
    using h acc loc by (auto simp: honest_def accept_commitment_Inr bt_get_insert split: if_split_asm)
qed

lemma handle_commitment_honest:
  assumes inv: "rt_inv c t r rt" and h: "honest c t rt" and q: "commit_msg c (rt_agents rt) msg"
  shows "honest c t (handle_commitment r msg rt)"
proof (cases "msg_payload msg")
  case (PCommitment rec)
  obtain res m where acc: "accept_commitment rec (rt_round_machine rt) = (res, m)" by fastforce
  show ?thesis
  proof (cases res)
    case (Inl e)
    with acc have "m = rt_round_machine rt" by (simp add: accept_commitment_Inl)
    with h PCommitment acc Inl show ?thesis by (simp add: handle_commitment_def)
  next
    case (Inr u)
    note acc' = acc [unfolded Inr]
    have "local_commit c (rt_agents rt) rec" using q PCommitment by (simp add: commit_msg_def)
    from honest_commit [OF inv h this acc'] accepted_not_in_log [OF inv acc'] h PCommitment acc'
    show ?thesis
      by (cases "append_commitment rec (rt_log rt)") (simp add: handle_commitment_def)
  qed
qed (use h in \<open>simp_all add: handle_commitment_def\<close>)

text \<open>The state between two steps: nothing queued.\<close>

definition quiet ::
  "crates \<Rightarrow> topology_config \<Rightarrow> round_id \<Rightarrow> ordered_bus runtime \<Rightarrow> bool" where
  "quiet c t r rt \<longleftrightarrow> rt_open c t r rt \<and> honest c t rt \<and> rt_queue rt = []"

lemma quiet_sending: "quiet c t r rt \<Longrightarrow> sending c t r Q (rt_agents rt) rt"
  by (simp add: quiet_def sending_def)

lemma commitments_phase:
  assumes "crates_ok c" "topology_wf c t" "quiet c t r rt"
  shows "\<exists>rt1 rt2. broadcast_commitments c bus_ops r rt = Inr rt1 \<and>
    drain_commitments bus_ops r (rt_flush bus_ops rt1) = Some rt2 \<and> quiet c t r rt2"
proof -
  let ?ags = "rt_agents rt"
  obtain rt1 where 1: "broadcast_commitments c bus_ops r rt = Inr rt1"
    and s: "sending c t r (commit_msg c ?ags) ?ags rt1"
    using broadcast_commitments_total [OF assms(1,2) quiet_sending [OF assms(3)]] by blast
  let ?I = "\<lambda>x. rt_open c t r x \<and> honest c t x \<and> rt_agents x = ?ags"
  have "?I (foldl (\<lambda>x m. handle_commitment r m x) rt1 (rt_queue rt1))"
    using s by (intro foldl_messages [where Q = "commit_msg c ?ags" and I = ?I])
      (auto simp: sending_def handle_commitment_honest commitments_drain.body_inv rt_open_def
        handle_commitment_inv)
  with 1 show ?thesis by (simp add: drain_commitments_def bus_drain quiet_def)
qed

section \<open>Step 2 on the bus\<close>

lemma current_proposer_total:
  assumes "topology_wf c t" "rm_topology m = t"
  shows "\<exists>p. current_proposer c m = Inr p \<and> p \<in> set (provider_ids t)"
proof -
  have "distinct (provider_ids t)" "provider_ids t \<noteq> []"
    using assms(1) by (simp_all add: distinct_provider_ids provider_ids_nonempty)
  from proposer_total [OF this(2,1), of c "rm_current m"] show ?thesis
    using proposer_mem assms(2)
    by (fastforce simp: current_proposer_def providers_stable_def provider_ids_def)
qed

lemma broadcast_proposal_total:
  assumes wf: "topology_wf c t" and s: "sending c t r (\<lambda>_. True) ags rt"
  shows "\<exists>b rt'. broadcast_proposal c bus_ops r rt = Inr (b, rt') \<and>
    sending c t r (\<lambda>_. True) ags rt'"
proof -
  have t: "rt_topology rt = t" "rm_topology (rt_round_machine rt) = t"
    using s by (simp_all add: sending_def rt_open_def rt_inv_def)
  obtain p where p: "current_proposer c (rt_round_machine rt) = Inr p"
    using current_proposer_total [OF wf t(2)] by blast
  obtain q where q: "topo_requester t = Some q" using topo_requester_exists [OF wf] by blast
  have send: "\<exists>rt'. rt_broadcast bus_ops m rt = Inr rt' \<and> sending c t r (\<lambda>_. True) ags rt'" for m
    using sending_broadcast [OF s] by blast
  show ?thesis
  proof (cases "bt_get (rm_commitments (rt_round_machine rt)) (nc_id q)")
    case None
    with p q t s show ?thesis by (simp add: broadcast_proposal_def sending_reject ex_bool_eq)
  next
    case (Some rec)
    let ?d = "derive_candidate r rec (map snd (filter (\<lambda>(nid, rec). nid \<noteq> nc_id q)
      (rm_commitments (rt_round_machine rt))))"
    consider e where "?d = Inl e" | "?d = Inr None" | cd where "?d = Inr (Some cd)"
      by (cases ?d) auto
    then show ?thesis
    proof cases
      case (3 cd)
      then show ?thesis
        using p q t s Some send
          [of "\<lparr>msg_origin = p, msg_payload = PProposal \<lparr>pr_proposer = p, pr_round = r,
             pr_candidate_requester = cand_requester cd, pr_candidate_provider = cand_provider cd,
             pr_matched_capability = cand_matched_capability cd\<rparr>\<rparr>"]
        by (auto simp: broadcast_proposal_def Let_def)
    qed (use p q t s Some in \<open>simp_all add: broadcast_proposal_def Let_def sending_reject ex_bool_eq\<close>)
  qed
qed

lemma append_sel [simp]:
  "log_proofs (append_proposal p l) = log_proofs l"
  "log_proposals (append_proof q l) = log_proposals l"
  "log_proofs (append_proof q l) = log_proofs l @ [q]"
  "log_receipts (append_receipt x l) = log_receipts l @ [x]"
  by (simp_all add: append_proposal_def append_proof_def append_receipt_def)

lemma honest_frame:
  assumes "honest c t rt" "rt_agents rt' = rt_agents rt" "rt_historical rt' = rt_historical rt"
    "rm_commitments (rt_round_machine rt') = rm_commitments (rt_round_machine rt)"
    "find_commitment (rt_log rt') = find_commitment (rt_log rt)"
    "\<forall>q \<in> set (log_proofs (rt_log rt')) - set (log_proofs (rt_log rt)). proof_sound c (rt_log rt) q"
  shows "honest c t rt'"
proof -
  have "\<forall>q \<in> set (log_proofs (rt_log rt')). proof_sound c (rt_log rt) q"
    using assms(1,6) by (auto simp: honest_def)
  with assms(1-4) show ?thesis by (simp add: honest_def proof_sound_frame [OF assms(5)])
qed

lemma handle_proposal_honest:
  assumes "honest c t rt"
  shows "honest c t (handle_proposal c r msg rt)"
proof (cases "msg_payload msg")
  case (PProposal p)
  obtain res m where acc: "accept_proposal c p (rt_round_machine rt) = (res, m)" by fastforce
  then have "rm_commitments m = rm_commitments (rt_round_machine rt)"
    by (cases res) (auto simp: accept_proposal_Inr accept_proposal_Inl)
  then have "honest c t (rt\<lparr>rt_round_machine := m, rt_log := append_proposal p (rt_log rt)\<rparr>)"
    "honest c t (rt\<lparr>rt_round_machine := m\<rparr>)"
    using assms by (auto intro!: honest_frame [of c t rt])
  with assms acc PProposal show ?thesis
    by (cases res) (simp_all add: handle_proposal_def)
qed (use assms in \<open>simp_all add: handle_proposal_def\<close>)

lemma proposal_drained:
  assumes "sending c t r (\<lambda>_. True) ags rt"
  shows "\<exists>rt'. drain_proposal c bus_ops r (rt_flush bus_ops rt) = Some rt' \<and> quiet c t r rt'"
proof -
  let ?I = "\<lambda>x. rt_open c t r x \<and> honest c t x"
  have "?I (foldl (\<lambda>x m. handle_proposal c r m x) rt (rt_queue rt))"
    using assms by (intro foldl_messages [where Q = "\<lambda>_. True" and I = ?I])
      (auto simp: sending_def handle_proposal_honest proposal_drain.body_inv)
  then show ?thesis by (simp add: drain_proposal_def bus_drain quiet_def)
qed

section \<open>Step 3 on the bus\<close>

text \<open>The participants of the logged proposal have accepted commitments.\<close>

lemma logged_proposal_accepted:
  assumes "rt_inv c t r rt" "logged_proposal r (rt_log rt) = Some p"
  shows "proposal_accepted c (rt_round_machine rt) p" "pr_round p = r"
proof -
  have p: "p \<in> set (log_proposals (rt_log rt))" "pr_round p = r"
    using find_Some_mem [OF assms(2) [unfolded logged_proposal_def]] by auto
  then have "rm_proposal (rt_round_machine rt) = Some p" "rm_inv c (rt_round_machine rt)"
    using assms(1) by (auto simp: rt_inv_def)
  then show "proposal_accepted c (rt_round_machine rt) p" by (simp add: rm_inv_def)
  show "pr_round p = r" by (rule p(2))
qed

definition participants :: "proposal_record \<Rightarrow> node_id list" where
  "participants p = [pr_candidate_requester p, pr_candidate_provider p]"

lemma participant_committed:
  assumes wf: "topology_wf c t" and inv: "rt_inv c t r rt" and h: "honest c t rt"
    and p: "proposal_accepted c (rt_round_machine rt) p" and i: "i \<in> set (participants p)"
  shows "\<exists>rec. bt_get (rm_commitments (rt_round_machine rt)) i = Some rec \<and>
    hex32 c (cr_commitment_hex rec) \<and> find_commitment (rt_log rt) i r = Some rec \<and> node_wf i \<and>
    bt_contains (rt_agents rt) i"
proof -
  obtain rec where rec: "bt_get (rm_commitments (rt_round_machine rt)) i = Some rec"
    using p i by (auto simp: proposal_accepted_def participants_def)
  have acc: "commitment_accepted t r i rec" and get: "find_commitment (rt_log rt) i r = Some rec"
    using inv rec by (auto simp: rt_inv_def rm_inv_def)
  then obtain cfg where "find_node t i = Some cfg" and ni: "cr_node_id rec = i"
    by (auto simp: commitment_accepted_def)
  then have "node_wf i"
    using wf find_node_mem by (fastforce simp: topology_wf_def node_config_wf_def)
  moreover have "local_commit c (rt_agents rt) rec" using h rec by (auto simp: honest_def)
  ultimately show ?thesis using rec get ni by (auto simp: local_commit_def)
qed

definition proof_msg ::
  "crates \<Rightarrow> round_id \<Rightarrow> (node_id, commitment_record) btree_map \<Rightarrow> coordination_log \<Rightarrow>
     coordination_message \<Rightarrow> bool" where
  "proof_msg c r cm l m \<longleftrightarrow>
     (\<forall>q rec. msg_payload m = PProof q \<longrightarrow> bt_get cm (pf_node_id q) = Some rec \<longrightarrow>
        extract_commitment_hash_hex c (pf_public_inputs_hex q) = Some (cr_commitment_hex rec) \<longrightarrow>
        proof_sound c l q)"

lemma artifact_msg:
  assumes ok: "crates_ok c" and i: "node_wf i" "hex32 c (cr_commitment_hex rec)"
    "bt_get cm i = Some rec" "find_commitment l i r = Some rec"
    and q: "q = build_proof_artifact c rec i r \<or>
      q = (build_proof_artifact c rec i r)\<lparr>pf_public_inputs_hex :=
            tamper_public_inputs c (pf_public_inputs_hex (build_proof_artifact c rec i r))\<rparr>"
  shows "proof_msg c r cm l \<lparr>msg_origin = i, msg_payload = PProof q\<rparr>"
  using q
proof
  assume "q = build_proof_artifact c rec i r"
  then show ?thesis using build_proof_artifact_sound [OF ok i(1,2,4)] by (simp add: proof_msg_def)
next
  have h: "hex_ok c" using ok by (simp add: crates_ok_def)
  assume "q = (build_proof_artifact c rec i r)\<lparr>pf_public_inputs_hex :=
      tamper_public_inputs c (pf_public_inputs_hex (build_proof_artifact c rec i r))\<rparr>"
  then have "pf_node_id q = i" "extract_commitment_hash_hex c (pf_public_inputs_hex q) \<noteq>
      Some (cr_commitment_hex rec)"
    using tampered_extract [OF h i(1,2), of r] by (auto simp: build_proof_artifact_def Let_def)
  with i(3) show ?thesis by (simp add: proof_msg_def)
qed

definition proving ::
  "crates \<Rightarrow> topology_config \<Rightarrow> round_id \<Rightarrow> ordered_bus runtime \<Rightarrow> ordered_bus runtime \<Rightarrow> bool"
where
  "proving c t r rt0 rt \<longleftrightarrow> rt_open c t r rt \<and> honest c t rt \<and>
     rm_commitments (rt_round_machine rt) = rm_commitments (rt_round_machine rt0) \<and>
     find_commitment (rt_log rt) = find_commitment (rt_log rt0) \<and>
     log_proposals (rt_log rt) = log_proposals (rt_log rt0)"

lemma proving_frame [simp]:
  "proving c t r rt0 (rt\<lparr>rt_transport := b\<rparr>) = proving c t r rt0 rt"
  by (simp add: proving_def)

lemma handle_proof_cases:
  obtains n k e where "k \<noteq> []" "e \<noteq> []" "handle_proof c r msg rt = reject_msg r n k e rt"
  | q rec where "msg_payload msg = PProof q" "pf_round q = r" "msg_origin msg = pf_node_id q"
      "bt_get (rm_commitments (rt_round_machine rt)) (pf_node_id q) = Some rec"
      "extract_commitment_hash_hex c (pf_public_inputs_hex q) = Some (cr_commitment_hex rec)"
      "handle_proof c r msg rt = observe (OnProofVerified (pf_node_id q) r)
         (rt\<lparr>rt_log := append_proof q (rt_log rt)\<rparr>)"
proof (cases "msg_payload msg")
  case (PProof q)
  let ?get = "bt_get (rm_commitments (rt_round_machine rt)) (pf_node_id q)"
  consider "msg_origin msg \<noteq> pf_node_id q" | "msg_origin msg = pf_node_id q" "pf_round q \<noteq> r"
    | "msg_origin msg = pf_node_id q" "pf_round q = r" "?get = None"
    | rec where "msg_origin msg = pf_node_id q" "pf_round q = r" "?get = Some rec"
      "extract_commitment_hash_hex c (pf_public_inputs_hex q) \<noteq> Some (cr_commitment_hex rec)"
    | rec where "msg_origin msg = pf_node_id q" "pf_round q = r" "?get = Some rec"
      "extract_commitment_hash_hex c (pf_public_inputs_hex q) = Some (cr_commitment_hex rec)"
    by (cases ?get) auto
  then show ?thesis
  proof cases
    case (5 rec)
    with PProof show ?thesis by (intro that(2)) (simp_all add: handle_proof_def)
  qed (use PProof in \<open>intro that(1); simp add: handle_proof_def; fail\<close>)+
qed (rule that(1); simp add: handle_proof_def)+

lemma handle_proof_proving:
  assumes s: "proving c t r rt0 rt"
    and q: "proof_msg c r (rm_commitments (rt_round_machine rt0)) (rt_log rt0) msg"
  shows "proving c t r rt0 (handle_proof c r msg rt)"
proof (cases rule: handle_proof_cases [of c r msg rt])
  case (1 n k e)
  with s show ?thesis
    by (simp add: proving_def rt_open_reject) (simp add: reject_msg_def)
next
  case (2 x rec)
  have "proof_sound c (rt_log rt0) x"
    using q s 2 by (simp add: proof_msg_def proving_def)
  then have snd: "proof_sound c (rt_log rt) x"
    using s proof_sound_frame [of "rt_log rt" "rt_log rt0" c] by (simp add: proving_def)
  have "honest c t (rt\<lparr>rt_log := append_proof x (rt_log rt)\<rparr>)"
    by (rule honest_frame [of c t rt]) (use s snd in \<open>auto simp: proving_def\<close>)
  moreover have "rt_open c t r (handle_proof c r msg rt)"
    using s by (auto simp: proving_def rt_open_def handle_proof_inv)
  ultimately show ?thesis using s 2(6) by (simp add: proving_def)
qed

lemma broadcast_proof_of_total:
  assumes ok: "crates_ok c"
    and i: "\<exists>rec. bt_get (rm_commitments (rt_round_machine rt0)) i = Some rec \<and>
      hex32 c (cr_commitment_hex rec) \<and> find_commitment (rt_log rt0) i r = Some rec \<and> node_wf i"
    and s: "proving c t r rt0 rt"
    and q: "\<forall>m \<in> set (rt_queue rt). proof_msg c r (rm_commitments (rt_round_machine rt0)) (rt_log rt0) m"
  shows "\<exists>rt'. broadcast_proof_of c bus_ops r i rt = Inr rt' \<and> proving c t r rt0 rt' \<and>
    (\<forall>m \<in> set (rt_queue rt'). proof_msg c r (rm_commitments (rt_round_machine rt0)) (rt_log rt0) m)"
proof (cases "bt_contains (rt_agents rt) i")
  case True
  let ?cm = "rm_commitments (rt_round_machine rt0)"
  obtain rec where rec: "bt_get ?cm i = Some rec" "hex32 c (cr_commitment_hex rec)"
    "find_commitment (rt_log rt0) i r = Some rec" "node_wf i"
    using i by blast
  let ?a = "build_proof_artifact c rec i r"
  let ?q = "if (i, r) \<in> rt_invalid_proof_schedule rt
    then ?a\<lparr>pf_public_inputs_hex := tamper_public_inputs c (pf_public_inputs_hex ?a)\<rparr> else ?a"
  have "?q = ?a \<or> ?q = ?a\<lparr>pf_public_inputs_hex := tamper_public_inputs c (pf_public_inputs_hex ?a)\<rparr>"
    by simp
  from artifact_msg [OF ok rec(4,2,1,3) this]
  have "proof_msg c r ?cm (rt_log rt0) \<lparr>msg_origin = i, msg_payload = PProof ?q\<rparr>" .
  moreover have "bt_get (rm_commitments (rt_round_machine rt)) i = Some rec"
    using s rec(1) by (simp add: proving_def)
  ultimately show ?thesis
    using True s q by (simp add: broadcast_proof_of_def Let_def bus_broadcast_total)
qed (use s q in \<open>simp add: broadcast_proof_of_def\<close>)

lemma proofs_phase:
  assumes ok: "crates_ok c" and wf: "topology_wf c t" and s: "quiet c t r rt"
    and p: "logged_proposal r (rt_log rt) = Some p"
  shows "\<exists>rt1 rt2. broadcast_proofs c bus_ops r p rt = Inr rt1 \<and>
    drain_proofs c bus_ops r (rt_flush bus_ops rt1) = Some rt2 \<and> quiet c t r rt2 \<and>
    logged_proposal r (rt_log rt2) = Some p"
proof -
  let ?Q = "proof_msg c r (rm_commitments (rt_round_machine rt)) (rt_log rt)"
  have inv: "rt_inv c t r rt" and h: "honest c t rt"
    using s by (simp_all add: quiet_def rt_open_def)
  note acc = logged_proposal_accepted [OF inv p]
  have start: "proving c t r rt rt \<and> (\<forall>m \<in> set (rt_queue rt). ?Q m)"
    using s by (simp add: quiet_def proving_def)
  have each: "\<exists>s'. broadcast_proof_of c bus_ops r i x = Inr s' \<and>
      proving c t r rt s' \<and> (\<forall>m \<in> set (rt_queue s'). ?Q m)"
    if "i \<in> set (participants p)" "proving c t r rt x \<and> (\<forall>m \<in> set (rt_queue x). ?Q m)" for i x
    using broadcast_proof_of_total [OF ok, of rt i r t x] that(2)
      participant_committed [OF wf inv h acc(1) that(1)] by blast
  obtain rt1 where 1: "broadcast_proofs c bus_ops r p rt = Inr rt1"
    "proving c t r rt rt1" "\<forall>m \<in> set (rt_queue rt1). ?Q m"
    using try_fold_total [where P = "\<lambda>x. proving c t r rt x \<and> (\<forall>m \<in> set (rt_queue x). ?Q m)"
        and f = "broadcast_proof_of c bus_ops r" and xs = "participants p", OF start each]
    unfolding broadcast_proofs_def participants_def by blast
  have "proving c t r rt (foldl (\<lambda>x m. handle_proof c r m x) rt1 (rt_queue rt1))"
    using 1(2,3) by (rule foldl_messages) (rule handle_proof_proving)
  with 1(1) p show ?thesis
    by (simp add: drain_proofs_def bus_drain proving_def quiet_def logged_proposal_def)
qed

section \<open>Step 4 on the bus\<close>

definition receipt_logged ::
  "crates \<Rightarrow> topology_config \<Rightarrow> round_id \<Rightarrow> proposal_record \<Rightarrow> coordination_log \<Rightarrow> bool" where
  "receipt_logged c t r p l \<longleftrightarrow>
     (\<exists>x. log_receipts l = [x] \<and> rc_round x = r \<and> rc_provider x = pr_candidate_provider p \<and>
        rc_signature_hex x \<noteq> [] \<and> signature_ok c t p r x)"

lemma provider_agent:
  assumes "rt_inv c t r rt" "honest c t rt" "proposal_accepted c (rt_round_machine rt) p"
    and contains: "bt_contains (rt_agents rt) (pr_candidate_provider p)"
  shows "\<exists>a i cfg. bt_get (rt_agents rt) (pr_candidate_provider p) = Some a \<and>
    ag_provider a = Some i \<and> find_node t (pr_candidate_provider p) = Some cfg \<and>
    signing_consistent c cfg i"
proof -
  obtain prov s claims where
    prov: "bt_get (rm_commitments (rt_round_machine rt)) (pr_candidate_provider p) = Some prov"
      "cr_public_intent prov = PubProvider (pr_candidate_provider p) s claims"
    using assms(3) by (auto simp: proposal_accepted_def)
  then have "commitment_accepted t r (pr_candidate_provider p) prov"
    using assms(1) by (auto simp: rt_inv_def rm_inv_def)
  then obtain cfg where cfg: "find_node t (pr_candidate_provider p) = Some cfg"
    "nc_role cfg = Provider"
    using prov(2) by (auto simp: commitment_accepted_def)
  obtain a where a: "bt_get (rt_agents rt) (pr_candidate_provider p) = Some a"
    using contains by (auto simp: bt_contains_def)
  then have "agent_ok c t (pr_candidate_provider p) a"
    using assms(2) by (auto simp: honest_def intro: agents_ok_get)
  with a cfg show ?thesis by (auto simp: agent_ok_def split: option.split_asm)
qed

lemma receipt_signature_ok:
  assumes ok: "crates_ok c" and agent: "bt_get (rt_agents rt) (pr_candidate_provider p) = Some a"
    "ag_provider a = Some i" "find_node t (pr_candidate_provider p) = Some cfg"
    and sc: "signing_consistent c cfg i"
    and x: "x = \<lparr>rc_provider = pr_candidate_provider p, rc_round = r,
        rc_signature_hex = receipt_signature_hex c rt (pr_candidate_provider p) r
          (tag_str (pr_matched_capability p))\<rparr>"
  shows "signature_ok c t p r x" "rc_signature_hex x \<noteq> []"
proof -
  have h: "hex_ok c" and b: "blake_ok c" and e: "ed_ok c" using ok by (auto simp: crates_ok_def)
  have seed: "agent_signing_seed rt (pr_candidate_provider p) =
      map_option expose (ppi_signing_secret_key i)"
    using agent by (simp add: agent_signing_seed_def)
  have ne: "sign_receipt_ed25519 c sd n r cap \<noteq> []" "legacy_signature c n r cap \<noteq> []" for sd n cap
    using b e by (auto simp: sign_receipt_ed25519_def legacy_signature_def blake_ok_def ed_ok_def
        dest!: arg_cong [where f = length])
  show "signature_ok c t p r x"
    using agent(3) sc seed verify_sign_receipt [OF ok]
    by (cases "ppi_signing_secret_key i")
      (auto simp: x signature_ok_def signing_consistent_def receipt_signature_hex_def
        expected_signature_hex_def)
  show "rc_signature_hex x \<noteq> []"
    using seed ne by (cases "ppi_signing_secret_key i")
      (auto simp: x receipt_signature_hex_def hex_encode_empty [OF h])
qed

lemma receipts_phase:
  assumes ok: "crates_ok c" and wf: "topology_wf c t" and s: "quiet c t r rt"
    and p: "logged_proposal r (rt_log rt) = Some p"
  shows "\<exists>rt1 rt2. broadcast_receipt c bus_ops r p rt = Inr rt1 \<and>
    drain_receipts bus_ops r (rt_flush bus_ops rt1) = Some rt2 \<and>
    log_proofs (rt_log rt2) = log_proofs (rt_log rt) \<and>
    find_commitment (rt_log rt2) = find_commitment (rt_log rt) \<and>
    logged_proposal r (rt_log rt2) = Some p \<and> receipt_logged c t r p (rt_log rt2) \<and>
    (\<exists>x. rt_log rt2 = append_receipt x (rt_log rt) \<and>
       rc_provider x = pr_candidate_provider p \<and> rc_round x = r)"
proof -
  have inv: "rt_inv c t r rt" and h: "honest c t rt" and nr: "log_receipts (rt_log rt) = []"
    using s by (simp_all add: quiet_def rt_open_def)
  have pa: "proposal_accepted c (rt_round_machine rt) p"
    using logged_proposal_accepted [OF inv p] by blast
  have loc: "bt_contains (rt_agents rt) (pr_candidate_provider p)"
    using participant_committed [OF wf inv h pa, of "pr_candidate_provider p"]
    by (auto simp: participants_def)
  let ?x = "\<lparr>rc_provider = pr_candidate_provider p, rc_round = r,
        rc_signature_hex = receipt_signature_hex c rt (pr_candidate_provider p) r
          (tag_str (pr_matched_capability p))\<rparr>"
  obtain a i cfg where "bt_get (rt_agents rt) (pr_candidate_provider p) = Some a"
    "ag_provider a = Some i" "find_node t (pr_candidate_provider p) = Some cfg"
    "signing_consistent c cfg i"
    using provider_agent [OF inv h pa loc] by blast
  note sig = receipt_signature_ok [OF ok this refl, of r]
  let ?m = "\<lparr>msg_origin = pr_candidate_provider p, msg_payload = PReceipt ?x\<rparr>"
  let ?rt1 = "rt\<lparr>rt_transport := \<lparr>bus_queue = [?m]\<rparr>\<rparr>"
  have 1: "broadcast_receipt c bus_ops r p rt = Inr ?rt1"
    using loc s by (simp add: broadcast_receipt_def Let_def bus_broadcast_total quiet_def)
  have hd: "handle_receipt r ?m ?rt1 = observe (OnReceipt (pr_candidate_provider p) r)
      (?rt1\<lparr>rt_log := append_receipt ?x (rt_log rt)\<rparr>)"
    using sig(2) by (simp add: handle_receipt_def)
  have "drain_receipts bus_ops r (rt_flush bus_ops ?rt1) =
      Some (handle_receipt r ?m ?rt1\<lparr>rt_transport := \<lparr>bus_queue = []\<rparr>\<rparr>)"
    by (simp add: drain_receipts_def bus_drain)
  moreover have "receipt_logged c t r p (append_receipt ?x (rt_log rt))"
    using sig nr by (simp add: receipt_logged_def)
  moreover have "logged_proposal r (append_receipt ?x (rt_log rt)) = Some p"
    "log_proofs (append_receipt ?x (rt_log rt)) = log_proofs (rt_log rt)"
    using p by (simp_all add: logged_proposal_def append_receipt_def)
  ultimately show ?thesis using 1 by (simp add: hd) (intro exI [of _ ?x], simp)
qed

section \<open>A whole round, a whole run\<close>

text \<open>A finalized in-process round: complete, every proof sound, one matching receipt.\<close>

definition bus_final :: "crates \<Rightarrow> topology_config \<Rightarrow> round_id \<Rightarrow> coordination_log \<Rightarrow> bool" where
  "bus_final c t r l \<longleftrightarrow> (\<forall>q \<in> set (log_proofs l). proof_sound c l q) \<and>
     (\<exists>p. logged_proposal r l = Some p \<and> receipt_logged c t r p l)"

definition bus_post ::
  "crates \<Rightarrow> topology_config \<Rightarrow> round_id \<Rightarrow> round_outcome \<Rightarrow> ordered_bus runtime \<Rightarrow> bool" where
  "bus_post c t r outcome rt \<longleftrightarrow>
     (case outcome of Fallback \<Rightarrow> quiet c t r rt | Finalized \<Rightarrow> bus_final c t r (rt_log rt))"

lemma quiet_reject:
  "quiet c t r rt \<Longrightarrow> k \<noteq> [] \<Longrightarrow> e \<noteq> [] \<Longrightarrow> quiet c t r (reject_msg r n k e rt)"
  by (simp add: quiet_def rt_open_reject)

lemma proof_phase_total:
  assumes ok: "crates_ok c" and wf: "topology_wf c t" and s: "quiet c t r rt"
    and p: "logged_proposal r (rt_log rt) = Some p"
  shows "\<exists>outcome rt'. proof_phase c bus_ops r p rt = Some (Inr (outcome, rt')) \<and>
    bus_post c t r outcome rt'"
proof -
  obtain rt1 rt2 where 1: "broadcast_proofs c bus_ops r p rt = Inr rt1"
    "drain_proofs c bus_ops r (rt_flush bus_ops rt1) = Some rt2" "quiet c t r rt2"
    "logged_proposal r (rt_log rt2) = Some p"
    using proofs_phase [OF assms] by blast
  show ?thesis
  proof (cases "has_proof r (pr_candidate_requester p) (rt_log rt2) \<and>
      has_proof r (pr_candidate_provider p) (rt_log rt2)")
    case True
    obtain rt3 rt4 where 2: "broadcast_receipt c bus_ops r p rt2 = Inr rt3"
      "drain_receipts bus_ops r (rt_flush bus_ops rt3) = Some rt4"
      "log_proofs (rt_log rt4) = log_proofs (rt_log rt2)"
      "find_commitment (rt_log rt4) = find_commitment (rt_log rt2)"
      "logged_proposal r (rt_log rt4) = Some p" "receipt_logged c t r p (rt_log rt4)"
      using receipts_phase [OF ok wf 1(3,4)] by blast
    have "\<forall>q \<in> set (log_proofs (rt_log rt4)). proof_sound c (rt_log rt4) q"
      using 1(3) 2(3) proof_sound_frame [OF 2(4)] by (simp add: quiet_def honest_def)
    with 1 2 True show ?thesis
      by (simp add: proof_phase_def receipt_phase_def bus_post_def bus_final_def)
  next
    case False
    with 1 show ?thesis by (auto simp: proof_phase_def bus_post_def)
  qed
qed

lemma proposal_phase_total:
  assumes ok: "crates_ok c" and wf: "topology_wf c t" and s: "quiet c t r rt"
  shows "\<exists>outcome rt'. proposal_phase c bus_ops r rt = Some (Inr (outcome, rt')) \<and>
    bus_post c t r outcome rt'"
proof -
  obtain b rt1 where 1: "broadcast_proposal c bus_ops r rt = Inr (b, rt1)"
    "sending c t r (\<lambda>_. True) (rt_agents rt) rt1"
    using broadcast_proposal_total [OF wf quiet_sending [OF s]] by blast
  show ?thesis
  proof (cases b)
    case True
    obtain rt2 where 2: "drain_proposal c bus_ops r (rt_flush bus_ops rt1) = Some rt2" "quiet c t r rt2"
      using proposal_drained [OF 1(2)] by blast
    show ?thesis
    proof (cases "logged_proposal r (rt_log rt2)")
      case None
      with 1 2 True show ?thesis by (simp add: proposal_phase_def bus_post_def)
    next
      case (Some p)
      with 1 2 True proof_phase_total [OF ok wf 2(2) Some] show ?thesis
        by (simp add: proposal_phase_def)
    qed
  next
    case False
    \<comment> \<open>the refusing branches send nothing\<close>
    have "rt_queue rt1 = []"
      using 1(1) False s
      by (auto simp: broadcast_proposal_def Let_def quiet_def simp del: case_sum_map_err
          split: sum.split_asm option.split_asm if_split_asm)
    with 1 False show ?thesis
      by (simp add: proposal_phase_def bus_post_def quiet_def sending_def)
  qed
qed

lemma run_one_round_total:
  assumes ok: "crates_ok c" and wf: "topology_wf c t" and s: "quiet c t r rt"
  shows "\<exists>outcome rt'. run_one_round c bus_ops r rt = Some (Inr (outcome, rt')) \<and>
    bus_post c t r outcome rt'"
proof -
  obtain rt1 rt2 where 1: "broadcast_commitments c bus_ops r rt = Inr rt1"
    "drain_commitments bus_ops r (rt_flush bus_ops rt1) = Some rt2" "quiet c t r rt2"
    using commitments_phase [OF assms] by blast
  have "rt_topology rt2 = t" using 1(3) by (simp add: quiet_def rt_open_def rt_inv_def)
  moreover obtain q where "topo_requester t = Some q" using topo_requester_exists [OF wf] by blast
  ultimately show ?thesis
    using 1 proposal_phase_total [OF ok wf 1(3)] quiet_reject [OF 1(3)]
    by (simp add: run_one_round_def bus_post_def)
qed

definition bus_run_post ::
  "crates \<Rightarrow> topology_config \<Rightarrow> bool \<Rightarrow> round_id \<Rightarrow> coordination_log \<Rightarrow> bool" where
  "bus_run_post c t fin r l \<longleftrightarrow>
     (if fin then bus_final c t r l else \<forall>q \<in> set (log_proofs l). proof_sound c l q)"

text \<open>
  The round counter cannot wrap: \<open>n\<close> more rounds from \<open>r\<close> stay within \<open>u64\<close>.
\<close>

lemma run_rounds_total:
  assumes ok: "crates_ok c" and wf: "topology_wf c t"
    and "quiet c t (rm_current (rt_round_machine rt)) rt"
    and "unat (rm_current (rt_round_machine rt)) + n < 2 ^ 64"
  shows "\<exists>fin fr' rt'. run_rounds c bus_ops n fr rt = Some (Inr ((fin, fr'), rt')) \<and>
    bus_run_post c t fin fr' (rt_log rt')"
  using assms(3,4)
proof (induction n arbitrary: fr rt)
  case 0
  then show ?case by (simp add: bus_run_post_def quiet_def honest_def ex_bool_eq)
next
  case (Suc n)
  let ?r = "rm_current (rt_round_machine rt)"
  obtain outcome rt1 where 1: "run_one_round c bus_ops ?r rt = Some (Inr (outcome, rt1))"
    "bus_post c t ?r outcome rt1"
    using run_one_round_total [OF ok wf Suc.prems(1)] by blast
  show ?case
  proof (cases outcome)
    case Finalized
    with 1 show ?thesis by (simp add: bus_post_def bus_run_post_def Let_def ex_bool_eq)
  next
    case Fallback
    let ?rt = "observe (OnRoundCommitted ?r False) rt1"
    have q: "quiet c t ?r rt1" using 1(2) Fallback by (simp add: bus_post_def)
    then have op: "rt_open c t ?r ?rt" and cur: "rm_current (rt_round_machine ?rt) = ?r"
      by (simp_all add: quiet_def) (simp add: rt_open_def rt_inv_def)
    have last: "?r \<noteq> - 1"
    proof
      assume "?r = - 1"
      then have "unat ?r = 2 ^ 64 - 1" by (simp add: unsigned_minus_1_eq_mask mask_eq_exp_minus_1)
      with Suc.prems(2) show False by simp
    qed
    obtain m where adv: "advance_fallback (rt_round_machine ?rt) = (Inr (), m)"
      using advance_fallback_Inr [of "rt_round_machine ?rt"] cur last
      by (cases "advance_fallback (rt_round_machine ?rt)") auto
    note op' = rt_open_advance(1) [OF op adv]
    then have m: "rm_current m = round_next ?r" by (simp add: rt_open_def rt_inv_def)
    have "rm_commitments m = []"
      using adv by (auto simp: advance_fallback_def advance_to_Inr)
    then have "honest c t (?rt\<lparr>rt_round_machine := m\<rparr>)"
      using q by (simp add: quiet_def honest_def observe_def)
    then have "quiet c t (rm_current m) (?rt\<lparr>rt_round_machine := m\<rparr>)"
      using op' q m by (simp add: quiet_def rt_queue_def observe_def)
    moreover have "unat (rm_current m) + n < 2 ^ 64"
      using Suc.prems(2) unat_round_next [OF last] m by simp
    ultimately obtain fin fr' rt' where
      "run_rounds c bus_ops n ?r (?rt\<lparr>rt_round_machine := m\<rparr>) = Some (Inr ((fin, fr'), rt'))"
      "bus_run_post c t fin fr' (rt_log rt')"
      using Suc.IH [of "?rt\<lparr>rt_round_machine := m\<rparr>" ?r] by auto
    with 1(1) Fallback adv show ?thesis by simp
  qed
qed

lemma quiet_start:
  assumes new: "runtime_new c t bus_new agents sc mr = Inr rt" and ag: "agents_ok c t agents"
  shows "quiet c t 0 (with_run_salt salt rt\<lparr>rt_log := log_new run_id\<rparr>)"
  using runtime_new_open [OF new, where salt = salt and run_id = run_id] new ag
  by (simp add: quiet_def)
    (auto simp: honest_def runtime_new_Inr with_run_salt_def rt_queue_def bus_new_def log_new_def)

lemma close_run_bus:
  "bus_run_post c t fin r (rt_log rt) \<Longrightarrow> bus_run_post c t fin r (rt_log (close_run fin r rt))"
  by (auto simp: bus_run_post_def bus_final_def close_run_def Let_def logged_proposal_def
      receipt_logged_def proof_sound_def)
    (auto simp: log_op_defs)

lemma bus_run_total:
  assumes ok: "crates_ok c" and wf: "topology_wf c t" and ag: "agents_ok c t agents"
    and new: "runtime_new c t bus_new agents sc mr = Inr rt"
  shows "\<exists>out. run c bus_ops run_id (with_run_salt salt rt) = Some (Inr out) \<and>
    bus_run_post c t (ro_finalized out) (ro_final_round out) (ro_log out)"
proof -
  let ?rt = "with_run_salt salt rt\<lparr>rt_log := log_new run_id\<rparr>"
  have q: "quiet c t 0 ?rt" by (rule quiet_start [OF new ag])
  then have cur: "rm_current (rt_round_machine ?rt) = 0"
    by (simp add: quiet_def rt_open_def rt_inv_def)
  let ?n = "unat (rt_max_rounds (with_run_salt salt rt))"
  have "unat (rm_current (rt_round_machine ?rt)) + ?n < 2 ^ 64"
    using unat_u64_bound [of "rt_max_rounds (with_run_salt salt rt)"] unfolding cur by simp
  then obtain fin fr rt' where
    "run_rounds c bus_ops ?n 0 ?rt = Some (Inr ((fin, fr), rt'))"
    "bus_run_post c t fin fr (rt_log rt')"
    using run_rounds_total [OF ok wf, of ?rt ?n 0] q unfolding cur by blast
  then show ?thesis using close_run_bus by (auto simp: run_def)
qed

text \<open>The verifier's verdict on the finalized round, from what step 4 left.\<close>

lemma bus_final_verified:
  assumes inv: "log_inv c t r l" and "round_complete r l" "bus_final c t r l"
    and l: "log_final_round l = r" "log_finalized l"
  shows "snd (verify_final_round c t l) = []"
proof -
  obtain p x where p: "logged_proposal r l = Some p" "has_proof r (pr_candidate_requester p) l"
    "has_proof r (pr_candidate_provider p) l"
    and x: "log_receipts l = [x]" "rc_round x = r" "rc_provider x = pr_candidate_provider p"
    "rc_signature_hex x \<noteq> []" "signature_ok c t p r x"
    using assms(2,3) by (auto simp: round_complete_def bus_final_def receipt_logged_def)
  have "p \<in> set (log_proposals l)" "pr_round p = r"
    using find_Some_mem [OF p(1) [unfolded logged_proposal_def]] by auto
  then have "predicate_holds_for_log l r (pr_candidate_requester p) (pr_candidate_provider p) = Inr ()"
    using inv proposal_inv_predicate [of c t l p] by (auto simp: log_inv_def)
  then show ?thesis
    using p x l by (simp add: verify_final_round_def Let_def logged_proposal_def has_proof_def)
qed

lemma bus_run_valid:
  assumes ok: "crates_ok c" and wf: "topology_wf c t" and ag: "agents_ok c t agents"
    and new: "runtime_new c t bus_new agents sc mr = Inr rt"
    and run: "run c bus_ops run_id (with_run_salt salt rt) = Some (Inr out)"
  shows "verify_reasons c t (ro_log out) = []"
proof -
  let ?l = "ro_log out"
  note post = run_log_post [OF new run]
  have b: "bus_run_post c t (ro_finalized out) (ro_final_round out) ?l"
    using bus_run_total [OF ok wf ag new, of run_id salt] run by auto
  have inv: "log_inv c t (log_final_round ?l) ?l" using post by (simp add: run_post_def)
  have "\<forall>q \<in> set (log_proofs ?l). proof_sound c ?l q"
    using b by (auto simp: bus_run_post_def bus_final_def split: if_split_asm)
  then have "concat (map (verify_proof c ?l) (log_proofs ?l)) = []" by (simp add: verify_proof_Nil)
  moreover have "snd (verify_final_round c t ?l) = []"
  proof (cases "ro_finalized out")
    case True
    with post b show ?thesis
      by (intro bus_final_verified [of c t "ro_final_round out"])
        (auto simp: run_post_def bus_run_post_def)
  next
    case False
    with post show ?thesis by (intro aborted_final) (auto simp: run_post_def)
  qed
  ultimately show ?thesis by (simp add: log_inv_reasons [OF inv])
qed

end
