(* ===== verification/Private_Intents.thy ===== *)
theory Private_Intents
  imports Redaction Bus_Run
begin

text \<open>
  \<open>private_intents.rs\<close> of the agents crate: the loader that turns a private-intent bundle
  into the runtime's agents, cross-validating each entry against the topology.
\<close>

datatype private_intent_error =
  PiUnsafePath
| PiIo string
| PiParse string
| PiUnsupportedVersion u32
| PiInvalidNodeId string
| PiUnknownNodeId string
| PiDuplicateEntry string
| PiRoleMismatch string
| PiMissingCapability string
| PiBadCapability string
| PiMissingWitness string string
| PiMissingAgent string
| PiBadSigningKey string
| PiSigningKeyMismatch string

datatype pi_fault = PiErr private_intent_error | PiPanic string

record raw_agent =
  ra_node :: string
  ra_role :: string
  ra_required_capability :: "string option"
  ra_capability_claims :: "string list option"
  ra_budget_cents :: "u64 option"
  ra_reservation_cents :: "u64 option"
  ra_signing_secret_key :: "string option"

record raw_bundle =
  rb_version :: u32
  rb_agents :: "raw_agent list"

definition parse_role :: "string \<Rightarrow> role option" where
  "parse_role s =
     (if s = ''requester'' then Some Requester
      else if s = ''provider'' then Some Provider else None)"

definition redact_parse_error :: "string \<Rightarrow> private_intent_error" where
  "redact_parse_error raw = PiParse (redact_quoted (parse_redact raw))"

section \<open>One entry\<close>

definition load_seed ::
  "crates \<Rightarrow> node_config \<Rightarrow> string option \<Rightarrow> pi_fault + signing_secret_seed option" where
  "load_seed c topology_node key =
     (case key of
        None \<Rightarrow> Inr None
      | Some hex_s \<Rightarrow>
          (case seed_from_hex c hex_s of
             Inl _ \<Rightarrow> Inl (PiErr (PiBadSigningKey (to_hex c (nc_id topology_node))))
           | Inr s \<Rightarrow>
               (case nc_signing_public_key topology_node of
                  None \<Rightarrow> Inr (Some s)
                | Some topo_pk \<Rightarrow>
                    if seed_public c s \<noteq> topo_pk
                    then Inl (PiErr (PiSigningKeyMismatch (to_hex c (nc_id topology_node))))
                    else Inr (Some s))))"

definition load_requester_agent ::
  "crates \<Rightarrow> node_config \<Rightarrow> signing_secret_seed option \<Rightarrow> raw_agent \<Rightarrow> pi_fault + agent_state" where
  "load_requester_agent c topology_node seed raw =
     (let node = nc_id topology_node; h = to_hex c node
      in and_then (ok_or (PiErr (PiMissingCapability h)) (ra_required_capability raw)) (\<lambda>cap_s.
         case parse_shape cap_s of
           Inl _ \<Rightarrow> Inl (PiErr (PiBadCapability h))
         | Inr cap \<Rightarrow>
             (case nc_required_capability topology_node of
                None \<Rightarrow> Inl (PiPanic ''topology-required-capability'')
              | Some topo_cap \<Rightarrow>
                  if topo_cap \<noteq> cap then Inl (PiErr (PiBadCapability h))
                  else and_then (ok_or (PiErr (PiMissingWitness h ''requester'')) (ra_budget_cents raw))
                    (\<lambda>budget. Inr (agent_requester
                       \<lparr>pri_node_id = node, pri_required_capability = cap,
                        pri_budget_cents = Secret budget,
                        pri_signing_secret_key = map_option Secret seed\<rparr>)))))"

definition load_provider_agent ::
  "crates \<Rightarrow> node_config \<Rightarrow> signing_secret_seed option \<Rightarrow> raw_agent \<Rightarrow> pi_fault + agent_state" where
  "load_provider_agent c topology_node seed raw =
     (let node = nc_id topology_node; h = to_hex c node
      in and_then (ok_or (PiErr (PiMissingCapability h)) (ra_capability_claims raw)) (\<lambda>raws.
         and_then (try_map (\<lambda>s. case parse_shape s of
                               Inl _ \<Rightarrow> Inl (PiErr (PiBadCapability h)) | Inr tag \<Rightarrow> Inr tag) raws)
           (\<lambda>claims.
              if nc_capability_claims topology_node \<noteq> claims
              then Inl (PiErr (PiBadCapability h))
              else and_then
                (ok_or (PiErr (PiMissingWitness h ''provider'')) (ra_reservation_cents raw))
                (\<lambda>reservation. Inr (agent_provider
                   \<lparr>ppi_node_id = node, ppi_capability_claims = claims,
                    ppi_reservation_cents = Secret reservation,
                    ppi_signing_secret_key = map_option Secret seed\<rparr>)))))"

definition load_agent ::
  "crates \<Rightarrow> topology_config \<Rightarrow> raw_agent \<Rightarrow> (node_id, agent_state) btree_map \<Rightarrow>
     pi_fault + (node_id, agent_state) btree_map" where
  "load_agent c topology raw out =
     (case node_from_str c (ra_node raw) of
        Inl _ \<Rightarrow>
          (case redact_tail (ra_node raw) of
             None \<Rightarrow> Inl (PiPanic ''byte index 12 is not a char boundary'')
           | Some s \<Rightarrow> Inl (PiErr (PiInvalidNodeId s)))
      | Inr node \<Rightarrow>
          and_then (ok_or (PiErr (PiUnknownNodeId (to_hex c node))) (find_node topology node))
            (\<lambda>topology_node.
          if bt_contains out node then Inl (PiErr (PiDuplicateEntry (to_hex c node)))
          else and_then (ok_or (PiErr (PiRoleMismatch (to_hex c node))) (parse_role (ra_role raw)))
            (\<lambda>declared_role.
          if declared_role \<noteq> nc_role topology_node
          then Inl (PiErr (PiRoleMismatch (to_hex c node)))
          else and_then (load_seed c topology_node (ra_signing_secret_key raw)) (\<lambda>seed.
          and_then
            (case nc_role topology_node of
               Requester \<Rightarrow> load_requester_agent c topology_node seed raw
             | Provider \<Rightarrow> load_provider_agent c topology_node seed raw)
            (\<lambda>agent. Inr (bt_insert node agent out))))))"

section \<open>The bundle\<close>

definition load_bundle ::
  "crates \<Rightarrow> topology_config \<Rightarrow> raw_bundle \<Rightarrow> pi_fault + (node_id, agent_state) btree_map" where
  "load_bundle c topology bundle =
     (if rb_version bundle \<noteq> 1 then Inl (PiErr (PiUnsupportedVersion (rb_version bundle)))
      else and_then (try_fold (load_agent c topology) (rb_agents bundle) []) (\<lambda>out.
        case List.find (\<lambda>n. \<not> bt_contains out (nc_id n)) (topo_nodes topology) of
          Some tnode \<Rightarrow> Inl (PiErr (PiMissingAgent (to_hex c (nc_id tnode))))
        | None \<Rightarrow> Inr out))"

text \<open>\<open>parse\<close> is \<open>toml::from_str\<close>, \<open>read\<close> is \<open>fs::read_to_string\<close>.\<close>

definition private_from_toml_str ::
  "(string \<Rightarrow> string + raw_bundle) \<Rightarrow> crates \<Rightarrow> string \<Rightarrow> topology_config \<Rightarrow>
     pi_fault + (node_id, agent_state) btree_map" where
  "private_from_toml_str parse c text topology =
     (case parse text of
        Inl e \<Rightarrow> Inl (PiErr (redact_parse_error e))
      | Inr bundle \<Rightarrow> load_bundle c topology bundle)"

definition private_load ::
  "(string \<Rightarrow> string + string) \<Rightarrow> (string \<Rightarrow> string + raw_bundle) \<Rightarrow> crates \<Rightarrow> string \<Rightarrow>
     topology_config \<Rightarrow> pi_fault + (node_id, agent_state) btree_map" where
  "private_load read parse c path topology =
     (if has_parent_dir path then Inl (PiErr PiUnsafePath)
      else case read path of
        Inl e \<Rightarrow> Inl (PiErr (PiIo e))
      | Inr text \<Rightarrow> private_from_toml_str parse c text topology)"

section \<open>What a loaded bundle holds\<close>

definition seed_matches :: "crates \<Rightarrow> node_config \<Rightarrow> signing_secret_seed secret option \<Rightarrow> bool" where
  "seed_matches c cfg key \<longleftrightarrow>
     (case key of
        None \<Rightarrow> True
      | Some s \<Rightarrow> seed_wf (expose s) \<and>
          (case nc_signing_public_key cfg of
             None \<Rightarrow> True | Some pk \<Rightarrow> seed_public c (expose s) = pk))"

definition agent_loaded :: "crates \<Rightarrow> topology_config \<Rightarrow> node_id \<Rightarrow> agent_state \<Rightarrow> bool" where
  "agent_loaded c t i a \<longleftrightarrow>
     (\<exists>cfg. find_node t i = Some cfg \<and> ag_node_id a = i \<and> ag_role a = nc_role cfg \<and>
        (case nc_role cfg of
           Requester \<Rightarrow> (\<exists>x. ag_requester a = Some x \<and> pri_node_id x = i \<and>
             nc_required_capability cfg = Some (pri_required_capability x) \<and>
             seed_matches c cfg (pri_signing_secret_key x))
         | Provider \<Rightarrow> (\<exists>x. ag_provider a = Some x \<and> ppi_node_id x = i \<and>
             nc_capability_claims cfg = ppi_capability_claims x \<and>
             seed_matches c cfg (ppi_signing_secret_key x))))"

definition bundle_inv ::
  "crates \<Rightarrow> topology_config \<Rightarrow> (node_id, agent_state) btree_map \<Rightarrow> bool" where
  "bundle_inv c t out \<longleftrightarrow> bt_sorted out \<and>
     (\<forall>i a. bt_get out i = Some a \<longrightarrow> agent_loaded c t i a)"

lemma load_seed_Inr:
  assumes "hex_ok c" "load_seed c cfg key = Inr seed"
  shows "seed_matches c cfg (map_option Secret seed)"
  using assms seed_hex.parse_wf [OF assms(1)]
  by (auto simp: load_seed_def seed_matches_def split: option.split_asm sum.split_asm if_split_asm
      option.split)

lemma load_agent_loaded:
  assumes ok: "hex_ok c" and load: "load_agent c t raw out = Inr out'"
  obtains i a where "out' = bt_insert i a out" "agent_loaded c t i a" "bt_get out i = None"
proof -
  obtain i cfg seed a where i: "find_node t i = Some cfg" "\<not> bt_contains out i"
    and seed: "load_seed c cfg (ra_signing_secret_key raw) = Inr seed"
    and a: "(case nc_role cfg of Requester \<Rightarrow> load_requester_agent c cfg seed raw
        | Provider \<Rightarrow> load_provider_agent c cfg seed raw) = Inr a"
    and out': "out' = bt_insert i a out"
    using load by (auto simp: load_agent_def split: sum.split_asm option.split_asm if_split_asm)
  have nc: "nc_id cfg = i" using find_node_mem [OF i(1)] by simp
  have "agent_loaded c t i a"
    using a i(1) nc load_seed_Inr [OF ok seed]
    by (cases "nc_role cfg")
      (auto simp: agent_loaded_def load_requester_agent_def load_provider_agent_def Let_def
        agent_requester_def agent_provider_def split: sum.split_asm option.split_asm if_split_asm)
  with out' i(2) show ?thesis by (intro that) (auto simp: bt_contains_def)
qed

lemma load_agent_inv:
  "hex_ok c \<Longrightarrow> bundle_inv c t out \<Longrightarrow> load_agent c t raw out = Inr out' \<Longrightarrow> bundle_inv c t out'"
  by (erule (1) load_agent_loaded)
    (auto simp: bundle_inv_def bt_sorted_insert bt_get_insert)

lemma load_bundle_Inr:
  assumes ok: "hex_ok c" and load: "load_bundle c t bundle = Inr out"
  shows "bundle_inv c t out" "nc_id ` set (topo_nodes t) = set (bt_keys out)"
proof -
  have fold: "try_fold (load_agent c t) (rb_agents bundle) [] = Inr out"
    and all: "List.find (\<lambda>n. \<not> bt_contains out (nc_id n)) (topo_nodes t) = None"
    using load by (auto simp: load_bundle_def split: if_split_asm option.split_asm)
  have "bundle_inv c t []" by (simp add: bundle_inv_def bt.inv_empty)
  with fold show inv: "bundle_inv c t out"
    by (rule try_fold_invariant) (rule load_agent_inv [OF ok])
  show "nc_id ` set (topo_nodes t) = set (bt_keys out)"
  proof
    show "nc_id ` set (topo_nodes t) \<subseteq> set (bt_keys out)"
      using all by (auto simp: find_None_iff set_bt_keys bt_contains_def)
    show "set (bt_keys out) \<subseteq> nc_id ` set (topo_nodes t)"
    proof
      fix i assume "i \<in> set (bt_keys out)"
      then obtain a where "bt_get out i = Some a" by (auto simp: set_bt_keys)
      then have "agent_loaded c t i a" using inv by (simp add: bundle_inv_def)
      then show "i \<in> nc_id ` set (topo_nodes t)"
        by (force simp: agent_loaded_def dest!: find_node_mem)
    qed
  qed
qed

text \<open>
  The two conditions the loader does not check: capabilities small enough for the
  commitment layout, and a topology key exactly for the providers that hold a seed.
\<close>

definition committable :: "topology_config \<Rightarrow> bool" where
  "committable t \<longleftrightarrow>
     (\<forall>n \<in> set (topo_nodes t). length (nc_capability_claims n) \<le> 4 \<and>
        (\<forall>g \<in> set (nc_capability_claims n) \<union> set_option (nc_required_capability n).
           length (tag_str g) \<le> 32))"

definition keys_paired :: "topology_config \<Rightarrow> (node_id, agent_state) btree_map \<Rightarrow> bool" where
  "keys_paired t agents \<longleftrightarrow>
     (\<forall>(i, a) \<in> set agents. \<forall>cfg x. find_node t i = Some cfg \<longrightarrow> ag_provider a = Some x \<longrightarrow>
        (nc_signing_public_key cfg = None \<longleftrightarrow> ppi_signing_secret_key x = None))"

lemma loaded_agent_ok:
  assumes wf: "topology_wf c t" and cm: "committable t"
    and pair: "\<And>cfg x. find_node t i = Some cfg \<Longrightarrow> ag_provider a = Some x \<Longrightarrow>
      (nc_signing_public_key cfg = None \<longleftrightarrow> ppi_signing_secret_key x = None)"
    and a: "agent_loaded c t i a"
  shows "agent_ok c t i a"
proof -
  obtain cfg where cfg: "find_node t i = Some cfg" "ag_role a = nc_role cfg"
    using a by (auto simp: agent_loaded_def)
  have mem: "cfg \<in> set (topo_nodes t)" using find_node_mem [OF cfg(1)] by simp
  have tags: "tag_bytes g \<noteq> []" if "g \<in> tags (topo_capability_tags t)" for g
    using wf that by (auto simp: topology_wf_def tag_wf_def tag_bytes_def)
  have node: "node_config_wf c (topo_capability_tags t) cfg" using wf mem by (simp add: topology_wf_def)
  show ?thesis
  proof (cases "nc_role cfg")
    case Requester
    with a cfg obtain x where x: "ag_requester a = Some x"
      "nc_required_capability cfg = Some (pri_required_capability x)"
      by (auto simp: agent_loaded_def)
    have "pri_required_capability x \<in> tags (topo_capability_tags t)"
      using node Requester x(2) by (auto simp: node_config_wf_def)
    moreover have "length (tag_str (pri_required_capability x)) \<le> 32"
      using cm mem x(2) by (auto simp: committable_def)
    ultimately show ?thesis
      using cfg Requester x tags by (simp add: agent_ok_def commit_requester_ok_iff tag_bytes_def)
  next
    case Provider
    with a cfg obtain x where x: "ag_provider a = Some x"
      "nc_capability_claims cfg = ppi_capability_claims x"
      "seed_matches c cfg (ppi_signing_secret_key x)"
      by (auto simp: agent_loaded_def)
    have "ppi_capability_claims x \<noteq> []" "set (ppi_capability_claims x) \<subseteq> tags (topo_capability_tags t)"
      using node Provider x(2) by (auto simp: node_config_wf_def)
    moreover have "length (ppi_capability_claims x) \<le> 4"
      "\<forall>g \<in> set (ppi_capability_claims x). length (tag_bytes g) \<le> 32"
      using cm mem x(2) by (auto simp: committable_def tag_bytes_def)
    ultimately have "is_ok (commit_provider c x [] 0)"
      using tags by (auto simp: commit_provider_ok_iff)
    moreover have "signing_consistent c cfg x"
      using pair [OF cfg(1) x(1)] x(3)
      by (auto simp: signing_consistent_def seed_matches_def split: option.split_asm option.split)
    ultimately show ?thesis using cfg Provider x by (simp add: agent_ok_def)
  qed
qed

lemma loaded_agents_ok:
  assumes ok: "hex_ok c" and wf: "topology_wf c t" and cm: "committable t"
    and load: "load_bundle c t bundle = Inr agents" and pair: "keys_paired t agents"
  shows "agents_ok c t agents"
proof -
  have inv: "bundle_inv c t agents" using load_bundle_Inr [OF ok load] by blast
  have "agent_ok c t i a" if "(i, a) \<in> set agents" for i a
  proof (rule loaded_agent_ok [OF wf cm])
    show "agent_loaded c t i a"
      using inv that bt_get_iff_mem [of agents i a] by (auto simp: bundle_inv_def)
  qed (use pair that in \<open>auto simp: keys_paired_def\<close>)
  then show ?thesis by (auto simp: agents_ok_def)
qed

lemma loaded_runtime:
  assumes ok: "hex_ok c" and wf: "topology_wf c t" and load: "load_bundle c t bundle = Inr agents"
  shows "\<exists>rt. runtime_new c t tr agents sc mr = Inr rt"
proof -
  have keys: "nc_id ` set (topo_nodes t) = set (bt_keys agents)"
    using load_bundle_Inr [OF ok load] by blast
  have "topo_nodes t \<noteq> []" using wf by (auto simp: topology_wf_def)
  with keys have "agents \<noteq> []" by (auto simp: bt_keys_def)
  with keys wf show ?thesis by (auto simp: runtime_new_Inr topology_wf_def)
qed

text \<open>Errors never carry the witness: a panic is possible only on a malformed node id.\<close>

lemma load_requester_agent_panic:
  assumes "load_requester_agent c cfg seed raw = Inl (PiPanic s)"
  shows "nc_required_capability cfg = None"
proof (cases "ra_required_capability raw")
  case None
  with assms show ?thesis by (simp add: load_requester_agent_def)
next
  case (Some cap)
  show ?thesis
  proof (cases "parse_shape cap")
    case (Inr tag)
    with Some assms show ?thesis
      by (auto simp: load_requester_agent_def Let_def and_then_Inl ok_or_def
          split: option.split_asm if_split_asm)
  qed (use Some assms in \<open>simp add: load_requester_agent_def\<close>)
qed

lemma load_provider_agent_panic: "load_provider_agent c cfg seed raw \<noteq> Inl (PiPanic s)"
proof -
  have "try_map (\<lambda>s. case parse_shape s of Inl _ \<Rightarrow> Inl (PiErr e) | Inr tag \<Rightarrow> Inr tag) raws \<noteq>
      Inl (PiPanic s)" for e raws
    by (auto dest!: try_map_Inl split: sum.split_asm)
  then show ?thesis
    by (auto simp: load_provider_agent_def Let_def and_then_Inl ok_or_def
        split: option.split_asm if_split_asm)
qed

lemma load_agent_no_panic:
  assumes wf: "topology_wf c t" and "redact_tail (ra_node raw) \<noteq> None"
  shows "load_agent c t raw out \<noteq> Inl (PiPanic s)"
proof
  assume l: "load_agent c t raw out = Inl (PiPanic s)"
  from l obtain node cfg seed where n: "find_node t node = Some cfg"
    and a: "(case nc_role cfg of Requester \<Rightarrow> load_requester_agent c cfg seed raw
        | Provider \<Rightarrow> load_provider_agent c cfg seed raw) = Inl (PiPanic s)"
    using assms(2)
    by (auto simp: load_agent_def and_then_Inl ok_or_def load_seed_def
        split: sum.split_asm option.split_asm if_split_asm)
  have "nc_role cfg = Requester" "nc_required_capability cfg = None"
    using a load_provider_agent_panic load_requester_agent_panic by (cases "nc_role cfg"; fastforce)+
  with wf find_node_mem [OF n] show False by (auto simp: topology_wf_def node_config_wf_def)
qed

end
