(* ===== verification/Happy_Path.thy ===== *)
theory Happy_Path
  imports Bus_Run
begin

text \<open>
  Liveness of an undisturbed round: when every configured node runs in this process, no
  adversarial event targets the round, some provider claims the required capability and the
  commitment hashes are fresh, the round finalizes, and the match is the requester with the
  least provider id that claims the capability.
\<close>

section \<open>Every commitment is broadcast\<close>

definition calm :: "scenario \<Rightarrow> round_id \<Rightarrow> bool" where
  "calm sc r \<longleftrightarrow> (\<forall>n. events_for_round sc n r = [] \<and> \<not> has_dropped sc n r)"

lemma calm_empty [simp]: "calm scenario_empty r"
  by (simp add: calm_def)

definition commit_message :: "commitment_record \<Rightarrow> coordination_message" where
  "commit_message rec = \<lparr>msg_origin = cr_node_id rec, msg_payload = PCommitment rec\<rparr>"

lemma build_commitment_cong:
  "rt_agents rt' = rt_agents rt \<Longrightarrow> rt_run_salt rt' = rt_run_salt rt \<Longrightarrow>
     rt_topology rt' = rt_topology rt \<Longrightarrow> build_commitment c rt' i r = build_commitment c rt i r"
  by (simp only: build_commitment_def)

lemma calm_broadcast_of:
  assumes "calm (rt_scenario rt) r" and "build_commitment c rt i r = Inr rec" "cr_node_id rec = i"
  shows "broadcast_commitment_of c bus_ops r i rt = Inr (rt
    \<lparr>rt_historical := bt_insert (i, r) rec (rt_historical rt),
     rt_transport := \<lparr>bus_queue = rt_queue rt @ [commit_message rec]\<rparr>\<rparr>)"
  using assms
  by (simp add: broadcast_commitment_of_def calm_def bus_broadcast_total commit_message_def)

lemma calm_broadcasts:
  assumes "calm (rt_scenario rt) r"
    and "\<forall>i \<in> set ks. build_commitment c rt i r = Inr (rec i) \<and> cr_node_id (rec i) = i"
  shows "\<exists>h. try_fold (broadcast_commitment_of c bus_ops r) ks rt = Inr (rt
    \<lparr>rt_historical := h,
     rt_transport := \<lparr>bus_queue = rt_queue rt @ map (\<lambda>i. commit_message (rec i)) ks\<rparr>\<rparr>)"
  using assms
proof (induction ks arbitrary: rt)
  case Nil
  show ?case by (intro exI [of _ "rt_historical rt"]) (simp add: rt_queue_def)
next
  case (Cons i ks)
  let ?rt = "rt\<lparr>rt_historical := bt_insert (i, r) (rec i) (rt_historical rt),
     rt_transport := \<lparr>bus_queue = rt_queue rt @ [commit_message (rec i)]\<rparr>\<rparr>"
  have 1: "broadcast_commitment_of c bus_ops r i rt = Inr ?rt"
    using Cons.prems by (intro calm_broadcast_of) auto
  have "\<forall>i \<in> set ks. build_commitment c ?rt i r = Inr (rec i) \<and> cr_node_id (rec i) = i"
    using Cons.prems(2) build_commitment_cong [of ?rt rt c] by simp
  then obtain h where "try_fold (broadcast_commitment_of c bus_ops r) ks ?rt = Inr (?rt
      \<lparr>rt_historical := h,
       rt_transport := \<lparr>bus_queue = rt_queue ?rt @ map (\<lambda>i. commit_message (rec i)) ks\<rparr>\<rparr>)"
    using Cons.IH [of ?rt] Cons.prems(1) by auto
  with 1 show ?case by (intro exI [of _ h]) simp
qed

section \<open>Every commitment is accepted\<close>

definition commit_ready :: "topology_config \<Rightarrow> round_id \<Rightarrow> commitment_record \<Rightarrow> bool" where
  "commit_ready t r rec \<longleftrightarrow> cr_round rec = r \<and> intent_round (cr_public_intent rec) = r \<and>
     intent_node (cr_public_intent rec) = cr_node_id rec \<and>
     (\<exists>cfg. find_node t (cr_node_id rec) = Some cfg \<and>
        intent_role (cr_public_intent rec) = nc_role cfg) \<and>
     (\<forall>n s cap. cr_public_intent rec = PubRequester n s cap \<longrightarrow> tag_str cap \<noteq> [])"

text \<open>The log with a list of commitments appended.\<close>

definition with_commitments :: "commitment_record list \<Rightarrow> coordination_log \<Rightarrow> coordination_log" where
  "with_commitments recs l =
     l\<lparr>log_commitment_keys := commitment_key ` set recs \<union> log_commitment_keys l,
       log_commitments := log_commitments l @ recs\<rparr>"

lemma with_commitments_Nil [simp]: "with_commitments [] l = l"
  by (simp add: with_commitments_def)

lemma with_commitments_snoc:
  "fst (append_commitment rec (with_commitments recs l)) = Inr () \<Longrightarrow>
     snd (append_commitment rec (with_commitments recs l)) = with_commitments (recs @ [rec]) l"
  by (auto simp: append_commitment_def with_commitments_def commitment_key_def Let_def
      split: if_splits)

definition collecting ::
  "crates \<Rightarrow> topology_config \<Rightarrow> round_id \<Rightarrow> commitment_record list \<Rightarrow> string set \<Rightarrow>
     'a runtime \<Rightarrow> 'a runtime \<Rightarrow> bool" where
  "collecting c t r got hist rt0 rt \<longleftrightarrow> rt_inv c t r rt \<and> rm_proposal (rt_round_machine rt) = None \<and>
     rm_history_hex (rt_round_machine rt) = hist \<union> cr_commitment_hex ` set got \<and>
     (\<forall>i. bt_get (rm_commitments (rt_round_machine rt)) i =
        List.find (\<lambda>x. cr_node_id x = i) got) \<and>
     rt_agents rt = rt_agents rt0 \<and> rt_invalid_proof_schedule rt = rt_invalid_proof_schedule rt0 \<and>
     rt_log rt = with_commitments got (rt_log rt0)"

lemma collecting_accept:
  assumes s: "collecting c t r got hist rt0 rt" and ready: "commit_ready t r rec"
    and fresh: "cr_commitment_hex rec \<notin> hist \<union> cr_commitment_hex ` set got"
    and new: "cr_node_id rec \<notin> cr_node_id ` set got"
  shows "collecting c t r (got @ [rec]) hist rt0 (handle_commitment r (commit_message rec) rt)"
proof -
  let ?m = "rt_round_machine rt"
  have inv: "rt_inv c t r rt" using s by (simp add: collecting_def)
  have none: "List.find (\<lambda>x. cr_node_id x = cr_node_id rec) got = None"
    using new unfolding find_None_iff by (metis imageI)
  then have "bt_get (rm_commitments ?m) (cr_node_id rec) = None"
    using s by (simp add: collecting_def)
  then have "check_commitment rec ?m = Inr ()"
    using s ready fresh by (auto simp: check_commitment_Inr commit_ready_def collecting_def rt_inv_def)
  then obtain m where acc: "accept_commitment rec ?m = (Inr (), m)"
    by (simp add: accept_commitment_def)
  note app = accepted_not_in_log [OF inv acc]
  have grown: "snd (append_commitment rec (with_commitments got (rt_log rt0))) =
      with_commitments (got @ [rec]) (rt_log rt0)"
    using app s by (intro with_commitments_snoc) (simp add: collecting_def)
  have hd: "handle_commitment r (commit_message rec) rt = observe (OnCommitment (cr_node_id rec) r)
      (rt\<lparr>rt_round_machine := m, rt_log := snd (append_commitment rec (rt_log rt))\<rparr>)"
    using acc app by (cases "append_commitment rec (rt_log rt)")
      (simp add: handle_commitment_def commit_message_def)
  have "List.find (\<lambda>x. cr_node_id x = i) (got @ [rec]) =
      (if i = cr_node_id rec then Some rec else List.find (\<lambda>x. cr_node_id x = i) got)" for i
    by (cases "i = cr_node_id rec") (auto simp: find_append none split: option.split)
  then show ?thesis
    using s rt_inv_commit [OF inv acc] acc
    by (auto simp: collecting_def hd grown accept_commitment_Inr bt_get_insert) (auto simp: observe_def)
qed

lemma collecting_all:
  assumes "collecting c t r got hist rt0 rt" and "\<forall>rec \<in> set rs. commit_ready t r rec"
    and "distinct (map cr_commitment_hex (got @ rs))"
    and "cr_commitment_hex ` set rs \<inter> hist = {}"
    and "distinct (map cr_node_id (got @ rs))"
  shows "collecting c t r (got @ rs) hist rt0
    (foldl (\<lambda>x m. handle_commitment r m x) rt (map commit_message rs))"
  using assms
proof (induction rs arbitrary: got rt)
  case (Cons rec rs)
  have "collecting c t r (got @ [rec]) hist rt0 (handle_commitment r (commit_message rec) rt)"
    using Cons.prems by (intro collecting_accept) auto
  from Cons.IH [OF this] Cons.prems show ?case by auto
qed simp

section \<open>The proposal is accepted\<close>

definition claimants :: "topology_config \<Rightarrow> capability_tag \<Rightarrow> node_id set" where
  "claimants t cap = {nc_id n |n. n \<in> set (topo_nodes t) \<and> nc_role n = Provider \<and>
     cap \<in> set (nc_capability_claims n)}"

text \<open>After step 1: one commitment per configured node, public intents from the topology.\<close>

definition all_committed :: "topology_config \<Rightarrow> round_id \<Rightarrow> round_machine \<Rightarrow> bool" where
  "all_committed t r m \<longleftrightarrow>
     (\<forall>n \<in> set (topo_nodes t). \<exists>rec. bt_get (rm_commitments m) (nc_id n) = Some rec \<and>
        cr_node_id rec = nc_id n \<and>
        cr_public_intent rec =
          (case nc_role n of
             Requester \<Rightarrow> PubRequester (nc_id n) r (the (nc_required_capability n))
           | Provider \<Rightarrow> PubProvider (nc_id n) r (nc_capability_claims n))) \<and>
     (\<forall>i. bt_get (rm_commitments m) i \<noteq> None \<longrightarrow> i \<in> nc_id ` set (topo_nodes t))"

lemma all_committed_provider:
  assumes "all_committed t r m" "n \<in> set (topo_nodes t)" "nc_role n = Provider"
  obtains rec where "bt_get (rm_commitments m) (nc_id n) = Some rec" "cr_node_id rec = nc_id n"
    "cr_public_intent rec = PubProvider (nc_id n) r (nc_capability_claims n)"
  using assms unfolding all_committed_def by (metis role.simps(4))

lemma all_committed_requester:
  assumes "all_committed t r m" "n \<in> set (topo_nodes t)" "nc_role n = Requester"
  obtains rec where "bt_get (rm_commitments m) (nc_id n) = Some rec" "cr_node_id rec = nc_id n"
    "cr_public_intent rec = PubRequester (nc_id n) r (the (nc_required_capability n))"
  using assms unfolding all_committed_def by (metis role.simps(3))

lemma the_requester:
  assumes "topology_wf c t" "topo_requester t = Some q"
  shows "q \<in> set (topo_nodes t)" "nc_role q = Requester"
    "n \<in> set (topo_nodes t) \<Longrightarrow> nc_role n = Requester \<Longrightarrow> n = q"
proof -
  obtain q' where q': "topo_requester t = Some q'" "q' \<in> set (topo_nodes t)" "nc_role q' = Requester"
    "\<forall>n \<in> set (topo_nodes t). nc_role n = Requester \<longrightarrow> n = q'"
    using topo_requester_exists [OF assms(1)] by blast
  have "q' = q" using assms(2) q'(1) by simp
  then show "q \<in> set (topo_nodes t)" "nc_role q = Requester"
    "n \<in> set (topo_nodes t) \<Longrightarrow> nc_role n = Requester \<Longrightarrow> n = q"
    using q'(2-4) by blast+
qed

lemma providers_matching:
  assumes sorted: "bt_sorted (rm_commitments m)" and all: "all_committed t r m"
    and wf: "topology_wf c t" and q: "topo_requester t = Some q" "nc_required_capability q = Some cap"
    and req: "cr_public_intent req = PubRequester (nc_id q) r cap"
  shows "set (feasible_providers r req
      (map snd (filter (\<lambda>(nid, rec). nid \<noteq> nc_id q) (rm_commitments m)))) = claimants t cap"
    (is "set (feasible_providers r req ?ps) = _")
proof -
  have "rec \<in> set ?ps \<longleftrightarrow> (\<exists>i. i \<noteq> nc_id q \<and> (i, rec) \<in> set (rm_commitments m))" for rec
    by (auto simp: image_iff split_beta)
  then have mem: "rec \<in> set ?ps \<longleftrightarrow> (\<exists>i. i \<noteq> nc_id q \<and> bt_get (rm_commitments m) i = Some rec)" for rec
    by (simp add: bt_get_iff_mem [OF sorted])
  note qq = the_requester [OF wf q(1)]
  have inj: "inj_on nc_id (set (topo_nodes t))"
    using wf by (simp add: topology_wf_def distinct_map)
  show ?thesis
  proof (rule set_eqI)
    fix i
    show "i \<in> set (feasible_providers r req ?ps) \<longleftrightarrow> i \<in> claimants t cap"
    proof
      assume "i \<in> set (feasible_providers r req ?ps)"
      then obtain rec j where rec: "cr_node_id rec = i" "j \<noteq> nc_id q"
        "bt_get (rm_commitments m) j = Some rec"
        "match_predicate (cr_public_intent req) (cr_public_intent rec) r = Inr ()"
        unfolding set_feasible_providers mem by blast
      then obtain n where n: "n \<in> set (topo_nodes t)" "nc_id n = j"
        using all by (fastforce simp: all_committed_def)
      then have role: "nc_role n = Provider" using qq(3) [OF n(1)] n(2) rec(2) by (cases "nc_role n") auto
      obtain rec' where "bt_get (rm_commitments m) (nc_id n) = Some rec'" "cr_node_id rec' = nc_id n"
        "cr_public_intent rec' = PubProvider (nc_id n) r (nc_capability_claims n)"
        by (rule all_committed_provider [OF all n(1) role])
      then have "cr_node_id rec = nc_id n \<and>
          cr_public_intent rec = PubProvider (nc_id n) r (nc_capability_claims n)"
        using n(2) rec(3) by simp
      with rec(1,4) req n(1) role show "i \<in> claimants t cap"
        by (auto simp: claimants_def match_predicate_Inr)
    next
      assume "i \<in> claimants t cap"
      then obtain n where n: "n \<in> set (topo_nodes t)" "nc_role n = Provider"
        "cap \<in> set (nc_capability_claims n)" "i = nc_id n"
        by (auto simp: claimants_def)
      obtain rec where rec: "bt_get (rm_commitments m) (nc_id n) = Some rec" "cr_node_id rec = nc_id n"
        "cr_public_intent rec = PubProvider (nc_id n) r (nc_capability_claims n)"
        by (rule all_committed_provider [OF all n(1,2)])
      have "nc_id n \<noteq> nc_id q" using n(1,2) qq(1,2) inj_onD [OF inj] by fastforce
      moreover have "match_predicate (cr_public_intent req) (cr_public_intent rec) r = Inr ()"
        using n(3) req rec(3) by (auto simp: match_predicate_Inr)
      ultimately show "i \<in> set (feasible_providers r req ?ps)"
        unfolding set_feasible_providers mem n(4) using rec(1,2)
        by (intro CollectI exI [of _ rec] conjI exI [of _ "nc_id n"]) simp_all
    qed
  qed
qed

lemma candidate_exists:
  assumes inv: "rm_inv c m" and all: "all_committed t r m"
    and wf: "topology_wf c t" and q: "topo_requester t = Some q" "nc_required_capability q = Some cap"
    and req: "bt_get (rm_commitments m) (nc_id q) = Some req"
    and some: "claimants t cap \<noteq> {}"
  shows "derive_candidate r req (map snd (filter (\<lambda>(nid, rec). nid \<noteq> nc_id q) (rm_commitments m))) =
    Inr (Some \<lparr>cand_requester = nc_id q, cand_provider = Min (claimants t cap),
               cand_matched_capability = cap\<rparr>)"
proof -
  let ?ps = "map snd (filter (\<lambda>(nid, rec). nid \<noteq> nc_id q) (rm_commitments m))"
  note qq = the_requester [OF wf q(1)]
  obtain req' where "bt_get (rm_commitments m) (nc_id q) = Some req'" "cr_node_id req' = nc_id q"
    "cr_public_intent req' = PubRequester (nc_id q) r (the (nc_required_capability q))"
    by (rule all_committed_requester [OF all qq(1,2)])
  then have reqf: "cr_node_id req = nc_id q" "cr_public_intent req = PubRequester (nc_id q) r cap"
    using req q(2) by simp_all
  have "bt_sorted (rm_commitments m)" using inv by (simp add: rm_inv_def)
  note feas = providers_matching [OF this all wf q reqf(2)]
  have cap: "tag_str cap \<noteq> []"
    using wf q(2) qq(1,2) by (fastforce simp: topology_wf_def node_config_wf_def tag_wf_def)
  have ne: "feasible_providers r req ?ps \<noteq> []" using feas some by auto
  then obtain p rest where sorted: "sort (feasible_providers r req ?ps) = p # rest"
    by (cases "sort (feasible_providers r req ?ps)") auto
  then have "p \<in> claimants t cap" "\<forall>x \<in> claimants t cap. p \<le> x"
    using sort_Cons_Min [OF sorted] feas by auto
  then have "p = Min (claimants t cap)" by (metis List.finite_set feas Min_eqI)
  then show ?thesis
    using sorted reqf cap by (simp add: derive_candidate_def)
qed

section \<open>Step 1 of a calm round\<close>

definition round_commitment :: "crates \<Rightarrow> 't runtime \<Rightarrow> round_id \<Rightarrow> node_id \<Rightarrow> commitment_record" where
  "round_commitment c rt r i = projr (build_commitment c rt i r)"

text \<open>Every configured node runs here, and this round's commitment hashes are new.\<close>

definition fresh_round ::
  "crates \<Rightarrow> topology_config \<Rightarrow> round_id \<Rightarrow> 't runtime \<Rightarrow> bool" where
  "fresh_round c t r rt \<longleftrightarrow> bt_sorted (rt_agents rt) \<and>
     set (bt_keys (rt_agents rt)) = nc_id ` set (topo_nodes t) \<and>
     rm_commitments (rt_round_machine rt) = [] \<and> rm_proposal (rt_round_machine rt) = None \<and>
     distinct (map (\<lambda>i. cr_commitment_hex (round_commitment c rt r i)) (bt_keys (rt_agents rt))) \<and>
     (\<forall>i \<in> set (bt_keys (rt_agents rt)).
        cr_commitment_hex (round_commitment c rt r i) \<notin> rm_history_hex (rt_round_machine rt))"

lemma round_commitment_built:
  assumes ok: "crates_ok c" and wf: "topology_wf c t" and t: "rt_topology rt = t"
    and agents: "agents_ok c t (rt_agents rt)" and i: "i \<in> set (bt_keys (rt_agents rt))"
  shows "build_commitment c rt i r = Inr (round_commitment c rt r i)"
    "cr_node_id (round_commitment c rt r i) = i" "cr_round (round_commitment c rt r i) = r"
    "\<exists>n. find_node t i = Some n \<and> cr_public_intent (round_commitment c rt r i) =
       (case nc_role n of
          Requester \<Rightarrow> PubRequester i r (the (nc_required_capability n))
        | Provider \<Rightarrow> PubProvider i r (nc_capability_claims n))"
proof -
  obtain a where a: "bt_get (rt_agents rt) i = Some a" using i by (auto simp: set_bt_keys)
  obtain rec where rec: "build_commitment c rt i r = Inr rec" "cr_node_id rec = i" "cr_round rec = r"
    using build_commitment_total [OF ok wf t agents a] by blast
  then have eq: "round_commitment c rt r i = rec" by (simp add: round_commitment_def)
  show "build_commitment c rt i r = Inr (round_commitment c rt r i)"
    "cr_node_id (round_commitment c rt r i) = i" "cr_round (round_commitment c rt r i) = r"
    using rec eq by simp_all
  obtain n where n: "find_node t i = Some n" "ag_role a = nc_role n"
    using agents_ok_get [OF agents a] by (auto simp: agent_ok_def split: option.splits)
  with rec(1) a t show "\<exists>n. find_node t i = Some n \<and> cr_public_intent (round_commitment c rt r i) =
       (case nc_role n of
          Requester \<Rightarrow> PubRequester i r (the (nc_required_capability n))
        | Provider \<Rightarrow> PubProvider i r (nc_capability_claims n))"
    unfolding eq by (cases "nc_role n")
      (auto simp: build_commitment_def Let_def split: option.splits sum.splits)
qed

lemma round_commitment_ready:
  assumes "crates_ok c" and wf: "topology_wf c t" and "rt_topology rt = t"
    and "agents_ok c t (rt_agents rt)" and "i \<in> set (bt_keys (rt_agents rt))"
  shows "commit_ready t r (round_commitment c rt r i)"
proof -
  note rec = round_commitment_built [OF assms, of r]
  obtain n where n: "find_node t i = Some n" "cr_public_intent (round_commitment c rt r i) =
       (case nc_role n of
          Requester \<Rightarrow> PubRequester i r (the (nc_required_capability n))
        | Provider \<Rightarrow> PubProvider i r (nc_capability_claims n))"
    using rec(4) by blast
  have "node_config_wf c (topo_capability_tags t) n" "\<forall>g \<in> tags (topo_capability_tags t). tag_wf g"
    using wf find_node_mem [OF n(1)] by (auto simp: topology_wf_def)
  with n rec(2,3) show ?thesis
    by (cases "nc_role n") (auto simp: commit_ready_def node_config_wf_def tag_wf_def)
qed

lemma find_of_map:
  assumes "\<And>i. i \<in> set ks \<Longrightarrow> f (g i) = i"
  shows "List.find (\<lambda>x. f x = k) (map g ks) = (if k \<in> set ks then Some (g k) else None)"
  using assms by (induction ks) auto

lemma collected_all_committed:
  assumes ok: "crates_ok c" and wf: "topology_wf c t" and t: "rt_topology rt = t"
    and agents: "agents_ok c t (rt_agents rt)"
    and keys: "set (bt_keys (rt_agents rt)) = nc_id ` set (topo_nodes t)"
    and s: "collecting c t r (map (round_commitment c rt r) (bt_keys (rt_agents rt))) hist rt0 rt1"
  shows "all_committed t r (rt_round_machine rt1)"
proof -
  note built = round_commitment_built [OF ok wf t agents, of _ r]
  have get: "bt_get (rm_commitments (rt_round_machine rt1)) i =
      (if i \<in> nc_id ` set (topo_nodes t) then Some (round_commitment c rt r i) else None)" for i
    using s find_of_map [of "bt_keys (rt_agents rt)" cr_node_id "round_commitment c rt r" i] built(2) keys
    by (simp add: collecting_def)
  have "cr_node_id (round_commitment c rt r (nc_id n)) = nc_id n \<and>
      cr_public_intent (round_commitment c rt r (nc_id n)) =
          (case nc_role n of
             Requester \<Rightarrow> PubRequester (nc_id n) r (the (nc_required_capability n))
           | Provider \<Rightarrow> PubProvider (nc_id n) r (nc_capability_claims n))"
    if "n \<in> set (topo_nodes t)" for n
    using built(2,4) [of "nc_id n"] that keys find_node_unique [OF wf that] by auto
  then show ?thesis by (auto simp: all_committed_def get)
qed

text \<open>What step 1 of a calm round leaves.\<close>

definition committed_state ::
  "crates \<Rightarrow> topology_config \<Rightarrow> round_id \<Rightarrow> ordered_bus runtime \<Rightarrow> ordered_bus runtime \<Rightarrow> bool" where
  "committed_state c t r rt0 rt \<longleftrightarrow> quiet c t r rt \<and>
     all_committed t r (rt_round_machine rt) \<and> rm_proposal (rt_round_machine rt) = None \<and>
     rt_agents rt = rt_agents rt0 \<and> rt_invalid_proof_schedule rt = rt_invalid_proof_schedule rt0 \<and>
     rt_log rt = with_commitments (map (round_commitment c rt0 r) (bt_keys (rt_agents rt0))) (rt_log rt0)"

lemma committed_after_step1:
  assumes ok: "crates_ok c" and wf: "topology_wf c t" and s: "quiet c t r rt"
    and fresh: "fresh_round c t r rt" and calm: "calm (rt_scenario rt) r"
  shows "\<exists>rt1 rt2. broadcast_commitments c bus_ops r rt = Inr rt1 \<and>
    drain_commitments bus_ops r (rt_flush bus_ops rt1) = Some rt2 \<and> committed_state c t r rt rt2"
proof -
  let ?ks = "bt_keys (rt_agents rt)" and ?rec = "round_commitment c rt r"
  obtain rt1 rt2 where 1: "broadcast_commitments c bus_ops r rt = Inr rt1"
    and 2: "drain_commitments bus_ops r (rt_flush bus_ops rt1) = Some rt2" and q: "quiet c t r rt2"
    using commitments_phase [OF ok wf s] by blast
  have inv: "rt_inv c t r rt" and t: "rt_topology rt = t" and ag: "agents_ok c t (rt_agents rt)"
    and qu: "rt_queue rt = []"
    using s by (simp_all add: quiet_def rt_open_def rt_inv_def honest_def)
  note built = round_commitment_built [OF ok wf t ag, of _ r]
  obtain h where rt1: "rt1 = rt\<lparr>rt_historical := h,
      rt_transport := \<lparr>bus_queue = map (\<lambda>i. commit_message (?rec i)) ?ks\<rparr>\<rparr>"
    using calm_broadcasts [OF calm, of ?ks c ?rec] built(1,2) 1 qu
    by (auto simp: broadcast_commitments_def)
  have keys: "set ?ks = nc_id ` set (topo_nodes t)" and dist: "distinct ?ks"
    using fresh bt.keys_distinct [of "rt_agents rt"] by (simp_all add: fresh_round_def)
  have start: "collecting c t r [] (rm_history_hex (rt_round_machine rt)) rt rt1"
    using inv fresh by (simp add: collecting_def rt1 fresh_round_def)
  have ids: "map (\<lambda>i. cr_node_id (?rec i)) ?ks = ?ks"
    using built(2) by (simp add: map_idI)
  have "collecting c t r (map ?rec ?ks) (rm_history_hex (rt_round_machine rt)) rt
      (foldl (\<lambda>x m. handle_commitment r m x) rt1 (map commit_message (map ?rec ?ks)))"
    using collecting_all [OF start, of "map ?rec ?ks"] fresh dist ids
      round_commitment_ready [OF ok wf t ag]
    by (fastforce simp: fresh_round_def comp_def)
  moreover have "rt2 = foldl (\<lambda>x m. handle_commitment r m x) rt1 (map commit_message (map ?rec ?ks))
      \<lparr>rt_transport := \<lparr>bus_queue = []\<rparr>\<rparr>"
    using 2 by (simp add: drain_commitments_def bus_drain rt1 comp_def)
  ultimately have "collecting c t r (map ?rec ?ks) (rm_history_hex (rt_round_machine rt)) rt rt2"
    by (simp add: collecting_def)
  then have "committed_state c t r rt rt2"
    using q collected_all_committed [OF ok wf t ag keys] by (auto simp: committed_state_def collecting_def)
  with 1 2 show ?thesis by blast
qed

section \<open>Step 2 of a calm round\<close>

definition least_match :: "topology_config \<Rightarrow> round_id \<Rightarrow> proposal_record \<Rightarrow> bool" where
  "least_match t r p \<longleftrightarrow> pr_round p = r \<and>
     (\<exists>q cap. topo_requester t = Some q \<and> nc_required_capability q = Some cap \<and>
        pr_candidate_requester p = nc_id q \<and> pr_matched_capability p = cap \<and>
        pr_candidate_provider p = Min (claimants t cap))"

lemma finite_claimants [simp]: "finite (claimants t cap)"
  by (simp add: claimants_def)

lemma least_match_accepted:
  assumes all: "all_committed t r m" and wf: "topology_wf c t"
    and m: "rm_proposal m = None" "rm_current m = r" "current_proposer c m = Inr (pr_proposer p)"
    and q: "topo_requester t = Some q" "nc_required_capability q = Some cap"
    and p: "least_match t r p" and some: "claimants t cap \<noteq> {}"
  shows "check_proposal c p m = Inr ()"
proof -
  have p': "pr_round p = r" "pr_candidate_requester p = nc_id q" "pr_matched_capability p = cap"
    "pr_candidate_provider p = Min (claimants t cap)"
    using p q by (auto simp: least_match_def)
  note qq = the_requester [OF wf q(1)]
  obtain req where req: "bt_get (rm_commitments m) (nc_id q) = Some req"
    "cr_public_intent req = PubRequester (nc_id q) r (the (nc_required_capability q))"
    by (rule all_committed_requester [OF all qq(1,2)])
  obtain n where n: "n \<in> set (topo_nodes t)" "nc_role n = Provider"
    "cap \<in> set (nc_capability_claims n)" "pr_candidate_provider p = nc_id n"
    using Min_in [OF finite_claimants some] p'(4) by (auto simp: claimants_def)
  obtain prov where "bt_get (rm_commitments m) (nc_id n) = Some prov"
    "cr_public_intent prov = PubProvider (nc_id n) r (nc_capability_claims n)"
    by (rule all_committed_provider [OF all n(1,2)])
  with m p' req n q(2) show ?thesis by (auto simp: check_proposal_Inr)
qed

lemma proposal_after_step2:
  assumes wf: "topology_wf c t" and s: "committed_state c t r rt0 rt"
    and keys: "set (bt_keys (rt_agents rt)) = nc_id ` set (topo_nodes t)"
    and q: "topo_requester t = Some q" "nc_required_capability q = Some cap"
    and some: "claimants t cap \<noteq> {}"
  shows "\<exists>rt1 rt2 p. broadcast_proposal c bus_ops r rt = Inr (True, rt1) \<and>
    drain_proposal c bus_ops r (rt_flush bus_ops rt1) = Some rt2 \<and> quiet c t r rt2 \<and>
    logged_proposal r (rt_log rt2) = Some p \<and> least_match t r p \<and>
    rt_agents rt2 = rt_agents rt \<and> rt_invalid_proof_schedule rt2 = rt_invalid_proof_schedule rt \<and>
    rt_log rt2 = append_proposal p (rt_log rt)"
proof -
  let ?m = "rt_round_machine rt"
  have qt: "quiet c t r rt" and all: "all_committed t r ?m" and none: "rm_proposal ?m = None"
    using s by (simp_all add: committed_state_def)
  have inv: "rm_inv c ?m" "rm_topology ?m = t" "rm_current ?m = r" "rt_topology rt = t"
    and qu: "rt_queue rt = []"
    using qt by (simp_all add: quiet_def rt_open_def rt_inv_def)
  obtain pr where pr: "current_proposer c ?m = Inr pr" "pr \<in> set (provider_ids t)"
    using current_proposer_total [OF wf inv(2)] by blast
  then have "pr \<in> set (bt_keys (rt_agents rt))" using keys by (auto simp: provider_ids_def)
  then have here: "bt_contains (rt_agents rt) pr" by (simp add: set_bt_keys bt_contains_def)
  note qq = the_requester [OF wf q(1)]
  obtain req where req: "bt_get (rm_commitments ?m) (nc_id q) = Some req"
    by (rule all_committed_requester [OF all qq(1,2)])
  note cand = candidate_exists [OF inv(1) all wf q req some]
  define p where "p = \<lparr>pr_proposer = pr, pr_round = r, pr_candidate_requester = nc_id q,
    pr_candidate_provider = Min (claimants t cap), pr_matched_capability = cap\<rparr>"
  have least: "least_match t r p" using q by (simp add: least_match_def p_def)
  let ?msg = "\<lparr>msg_origin = pr, msg_payload = PProposal p\<rparr>"
  let ?rt1 = "rt\<lparr>rt_transport := \<lparr>bus_queue = [?msg]\<rparr>\<rparr>"
  have 1: "broadcast_proposal c bus_ops r rt = Inr (True, ?rt1)"
    using pr(1) here q(1) inv(4) req cand qu
    by (simp add: broadcast_proposal_def Let_def bus_broadcast_total p_def)
  have "check_proposal c p ?m = Inr ()"
    using pr(1) none inv by (intro least_match_accepted [OF all wf _ _ _ q least some]) (simp_all add: p_def)
  then have hd: "handle_proposal c r ?msg ?rt1 = observe (OnProposal pr r (tag_str cap))
      (?rt1\<lparr>rt_round_machine := ?m\<lparr>rm_proposal := Some p\<rparr>, rt_log := append_proposal p (rt_log rt)\<rparr>)"
    by (simp add: handle_proposal_def accept_proposal_def) (simp add: p_def)
  let ?rt2 = "handle_proposal c r ?msg ?rt1\<lparr>rt_transport := \<lparr>bus_queue = []\<rparr>\<rparr>"
  have 2: "drain_proposal c bus_ops r (rt_flush bus_ops ?rt1) = Some ?rt2"
    by (simp add: drain_proposal_def bus_drain)
  have "sending c t r (\<lambda>_. True) (rt_agents rt) ?rt1"
    using quiet_sending [OF qt, of "\<lambda>_. True"] by (simp add: sending_def rt_open_def)
  then have "quiet c t r ?rt2" using proposal_drained 2 by fastforce
  moreover have "pr_round p = r" by (simp add: p_def)
  then have "logged_proposal r (rt_log ?rt2) = Some p"
    by (simp add: hd logged_proposal_def append_proposal_def)
  moreover have "rt_agents ?rt2 = rt_agents rt"
    "rt_invalid_proof_schedule ?rt2 = rt_invalid_proof_schedule rt"
    "rt_log ?rt2 = append_proposal p (rt_log rt)"
    unfolding hd by (simp_all add: observe_def)
  ultimately show ?thesis using 1 2 least by blast
qed

section \<open>Step 3 of a calm round\<close>

text \<open>The two proofs of the participants over their logged commitments.\<close>

definition both_proved ::
  "crates \<Rightarrow> round_id \<Rightarrow> proposal_record \<Rightarrow> coordination_log \<Rightarrow> coordination_log \<Rightarrow> bool" where
  "both_proved c r p l l' \<longleftrightarrow>
     (\<exists>x y. find_commitment l (pr_candidate_requester p) r = Some x \<and>
        find_commitment l (pr_candidate_provider p) r = Some y \<and>
        l' = append_proof (build_proof_artifact c y (pr_candidate_provider p) r)
          (append_proof (build_proof_artifact c x (pr_candidate_requester p) r) l))"

lemma artifact_accepted:
  assumes ok: "crates_ok c" and n: "node_wf i" and hx: "hex32 c (cr_commitment_hex rec)"
    and get: "bt_get (rm_commitments (rt_round_machine rt)) i = Some rec"
  shows "handle_proof c r \<lparr>msg_origin = i, msg_payload = PProof (build_proof_artifact c rec i r)\<rparr> rt =
    observe (OnProofVerified i r) (rt\<lparr>rt_log := append_proof (build_proof_artifact c rec i r) (rt_log rt)\<rparr>)"
proof -
  obtain bs where bs: "length bs = 32" "cr_commitment_hex rec = hex_encode c bs"
    using hx by (auto simp: hex32_def)
  have h: "hex_ok c" using ok by (simp add: crates_ok_def)
  have "extract_commitment_hash_hex c (hex_encode c (public_inputs c rec i r)) = Some (cr_commitment_hex rec)"
    using public_inputs_parts(2) [OF h n bs(1) refl] bs(2)
    by (simp add: public_inputs_layout [OF h n bs])
  then show ?thesis using get by (simp add: handle_proof_def build_proof_artifact_def Let_def)
qed

lemma proofs_after_step3:
  assumes ok: "crates_ok c" and wf: "topology_wf c t" and s: "quiet c t r rt"
    and p: "logged_proposal r (rt_log rt) = Some p"
    and sched: "\<forall>i. (i, r) \<notin> rt_invalid_proof_schedule rt"
  shows "\<exists>rt1 rt2. broadcast_proofs c bus_ops r p rt = Inr rt1 \<and>
    drain_proofs c bus_ops r (rt_flush bus_ops rt1) = Some rt2 \<and> quiet c t r rt2 \<and>
    logged_proposal r (rt_log rt2) = Some p \<and>
    has_proof r (pr_candidate_requester p) (rt_log rt2) \<and>
    has_proof r (pr_candidate_provider p) (rt_log rt2) \<and>
    both_proved c r p (rt_log rt) (rt_log rt2)"
proof -
  have inv: "rt_inv c t r rt" and hon: "honest c t rt" and qu: "rt_queue rt = []"
    using s by (simp_all add: quiet_def rt_open_def)
  note com = participant_committed [OF wf inv hon logged_proposal_accepted(1) [OF inv p]]
  let ?i = "pr_candidate_requester p" and ?j = "pr_candidate_provider p"
  obtain x where x: "bt_get (rm_commitments (rt_round_machine rt)) ?i = Some x"
    "hex32 c (cr_commitment_hex x)" "node_wf ?i" "bt_contains (rt_agents rt) ?i"
    using com [of ?i] by (auto simp: participants_def)
  obtain y where y: "bt_get (rm_commitments (rt_round_machine rt)) ?j = Some y"
    "hex32 c (cr_commitment_hex y)" "node_wf ?j" "bt_contains (rt_agents rt) ?j"
    using com [of ?j] by (auto simp: participants_def)
  let ?mx = "\<lparr>msg_origin = ?i, msg_payload = PProof (build_proof_artifact c x ?i r)\<rparr>"
  let ?my = "\<lparr>msg_origin = ?j, msg_payload = PProof (build_proof_artifact c y ?j r)\<rparr>"
  obtain rt1 rt2 where 1: "broadcast_proofs c bus_ops r p rt = Inr rt1"
    and 2: "drain_proofs c bus_ops r (rt_flush bus_ops rt1) = Some rt2" "quiet c t r rt2"
      "logged_proposal r (rt_log rt2) = Some p"
    using proofs_phase [OF ok wf s p] by blast
  have rt1: "rt1 = rt\<lparr>rt_transport := \<lparr>bus_queue = [?mx, ?my]\<rparr>\<rparr>"
    using 1 x y sched qu
    by (simp add: broadcast_proofs_def broadcast_proof_of_def Let_def bus_broadcast_total rt_queue_def)
  have log2: "rt_log rt2 = append_proof (build_proof_artifact c y ?j r)
      (append_proof (build_proof_artifact c x ?i r) (rt_log rt))"
    using 2(1) x(1) y(1)
    by (auto simp: drain_proofs_def bus_drain rt1 artifact_accepted [OF ok x(3,2)]
        artifact_accepted [OF ok y(3,2)])
  have "has_proof r ?i (rt_log rt2)" "has_proof r ?j (rt_log rt2)"
    by (simp_all add: log2 has_proof_def build_proof_artifact_def Let_def)
  moreover have "both_proved c r p (rt_log rt) (rt_log rt2)"
    using inv x(1) y(1) log2 by (simp add: both_proved_def rt_inv_def)
  ultimately show ?thesis using 1 2 by blast
qed

section \<open>A calm round finalizes\<close>

text \<open>The whole log of a calm round: every commitment, the match, its two proofs, one receipt.\<close>

definition calm_log ::
  "crates \<Rightarrow> round_id \<Rightarrow> commitment_record list \<Rightarrow> proposal_record \<Rightarrow> coordination_log \<Rightarrow>
     coordination_log \<Rightarrow> bool" where
  "calm_log c r recs p l l' \<longleftrightarrow>
     (\<exists>l2 x. both_proved c r p (append_proposal p (with_commitments recs l)) l2 \<and>
        l' = append_receipt x l2 \<and> rc_provider x = pr_candidate_provider p \<and> rc_round x = r)"

lemma calm_log_shape:
  assumes "calm_log c r recs p (log_new run_id) l"
  shows "log_commitments l = recs" "log_proposals l = [p]" "log_rejections l = []"
    "map pf_node_id (log_proofs l) = participants p"
    "\<exists>x. log_receipts l = [x] \<and> rc_provider x = pr_candidate_provider p \<and> rc_round x = r"
  using assms
  by (auto simp: calm_log_def both_proved_def with_commitments_def log_op_defs log_new_def
      build_proof_artifact_def participants_def Let_def)

lemma calm_round:
  assumes ok: "crates_ok c" and wf: "topology_wf c t" and s: "quiet c t r rt"
    and fresh: "fresh_round c t r rt" and calm: "calm (rt_scenario rt) r"
    and sched: "\<forall>i. (i, r) \<notin> rt_invalid_proof_schedule rt"
    and q: "topo_requester t = Some q" "nc_required_capability q = Some cap"
    and some: "claimants t cap \<noteq> {}"
  shows "\<exists>rt' p. run_one_round c bus_ops r rt = Some (Inr (Finalized, rt')) \<and>
    logged_proposal r (rt_log rt') = Some p \<and> least_match t r p \<and>
    calm_log c r (map (round_commitment c rt r) (bt_keys (rt_agents rt))) p (rt_log rt) (rt_log rt')"
proof -
  obtain rt1 rt2 where 1: "broadcast_commitments c bus_ops r rt = Inr rt1"
    "drain_commitments bus_ops r (rt_flush bus_ops rt1) = Some rt2" and com: "committed_state c t r rt rt2"
    using committed_after_step1 [OF ok wf s fresh calm] by blast
  have keys: "set (bt_keys (rt_agents rt2)) = nc_id ` set (topo_nodes t)"
    using com fresh by (simp add: committed_state_def fresh_round_def)
  obtain rt3 rt4 p where 2: "broadcast_proposal c bus_ops r rt2 = Inr (True, rt3)"
    "drain_proposal c bus_ops r (rt_flush bus_ops rt3) = Some rt4" "quiet c t r rt4"
    "logged_proposal r (rt_log rt4) = Some p" "least_match t r p"
    "rt_invalid_proof_schedule rt4 = rt_invalid_proof_schedule rt2"
    "rt_log rt4 = append_proposal p (rt_log rt2)"
    using proposal_after_step2 [OF wf com keys q some] by blast
  have "\<forall>i. (i, r) \<notin> rt_invalid_proof_schedule rt4" using sched 2(6) com by (simp add: committed_state_def)
  then obtain rt5 rt6 where 3: "broadcast_proofs c bus_ops r p rt4 = Inr rt5"
    "drain_proofs c bus_ops r (rt_flush bus_ops rt5) = Some rt6" "quiet c t r rt6"
    "logged_proposal r (rt_log rt6) = Some p" "has_proof r (pr_candidate_requester p) (rt_log rt6)"
    "has_proof r (pr_candidate_provider p) (rt_log rt6)" "both_proved c r p (rt_log rt4) (rt_log rt6)"
    using proofs_after_step3 [OF ok wf 2(3,4)] by blast
  obtain rt7 rt8 x where 4: "broadcast_receipt c bus_ops r p rt6 = Inr rt7"
    "drain_receipts bus_ops r (rt_flush bus_ops rt7) = Some rt8" "logged_proposal r (rt_log rt8) = Some p"
    "rt_log rt8 = append_receipt x (rt_log rt6)" "rc_provider x = pr_candidate_provider p" "rc_round x = r"
    using receipts_phase [OF ok wf 3(3,4)] by blast
  have log: "calm_log c r (map (round_commitment c rt r) (bt_keys (rt_agents rt))) p (rt_log rt) (rt_log rt8)"
    using 2(7) 3(7) 4(4-6) com by (auto simp: calm_log_def committed_state_def)
  have t: "rt_topology rt2 = t" using com by (simp add: committed_state_def quiet_def rt_open_def rt_inv_def)
  have "all_committed t r (rt_round_machine rt2)" using com by (simp add: committed_state_def)
  from all_committed_requester [OF this the_requester(1,2) [OF wf q(1)]]
  have "bt_contains (rm_commitments (rt_round_machine rt2)) (nc_id q)"
    by (metis bt_contains_def option.distinct(1))
  with 1 2(1,2,4) 3 4 t q(1)
  have "run_one_round c bus_ops r rt = Some (Inr (Finalized, rt8))"
    by (simp add: run_one_round_def proposal_phase_def proof_phase_def receipt_phase_def)
  with 4(3) 2(5) log show ?thesis by blast
qed

lemma calm_schedule:
  assumes "calm sc r"
  shows "(i, r) \<notin> invalid_proof_schedule sc"
proof
  assume "(i, r) \<in> invalid_proof_schedule sc"
  then have "InjectInvalidProof i r \<in> set (events_for_round sc i r)"
    by (auto simp: invalid_proof_schedule_def List.map_filter_def events_for_round_def
        event_for_round_def split: scenario_event.splits)
  with assms show False by (simp add: calm_def)
qed

lemma round_commitment_log [simp]:
  "round_commitment c (rt\<lparr>rt_log := l\<rparr>) r = round_commitment c rt r"
  unfolding round_commitment_def
  by (rule ext, rule arg_cong [where f = projr], rule build_commitment_cong) simp_all

lemma calm_start_fresh:
  assumes new: "runtime_new c t tr agents sc mr = Inr rt" and sorted: "bt_sorted agents"
    and keys: "set (bt_keys agents) = nc_id ` set (topo_nodes t)"
    and hashes: "distinct (map (\<lambda>i. cr_commitment_hex
      (round_commitment c (with_run_salt salt rt) 0 i)) (bt_keys agents))"
  shows "fresh_round c t 0 (with_run_salt salt rt\<lparr>rt_log := log_new run_id\<rparr>)"
proof -
  have "rt_agents (with_run_salt salt rt) = agents"
    "rt_round_machine (with_run_salt salt rt) = round_machine_new t 0"
    using new by (auto simp: runtime_new_Inr with_run_salt_def)
  with sorted keys hashes show ?thesis by (simp add: fresh_round_def round_machine_new_def)
qed

lemma calm_run:
  assumes ok: "crates_ok c" and wf: "topology_wf c t" and ag: "agents_ok c t agents"
    and new: "runtime_new c t bus_new agents sc mr = Inr rt" and mr: "mr \<noteq> 0"
    and sorted: "bt_sorted agents" and keys: "set (bt_keys agents) = nc_id ` set (topo_nodes t)"
    and calm: "calm sc 0"
    and hashes: "distinct (map (\<lambda>i. cr_commitment_hex
      (round_commitment c (with_run_salt salt rt) 0 i)) (bt_keys agents))"
    and q: "topo_requester t = Some q" "nc_required_capability q = Some cap"
    and some: "claimants t cap \<noteq> {}"
  shows "\<exists>out p. run c bus_ops run_id (with_run_salt salt rt) = Some (Inr out) \<and>
    ro_finalized out \<and> ro_final_round out = 0 \<and>
    logged_proposal 0 (ro_log out) = Some p \<and> least_match t 0 p \<and>
    (\<exists>l. calm_log c 0 (map (round_commitment c (with_run_salt salt rt) 0) (bt_keys agents)) p
       (log_new run_id) l \<and> ro_log out = set_final_round 0 True l)"
proof -
  let ?rt = "with_run_salt salt rt\<lparr>rt_log := log_new run_id\<rparr>"
  have st: "rt_scenario ?rt = sc" "rt_invalid_proof_schedule ?rt = invalid_proof_schedule sc"
    "rt_max_rounds (with_run_salt salt rt) = mr" "rm_current (rt_round_machine ?rt) = 0"
    using new by (simp_all add: runtime_new_Inr with_run_salt_def round_machine_new_def)
  have sched: "\<forall>i. (i, 0) \<notin> rt_invalid_proof_schedule ?rt"
    using calm_schedule [OF calm] st(2) by simp
  let ?recs = "map (round_commitment c (with_run_salt salt rt) 0) (bt_keys agents)"
  have ags: "rt_agents (with_run_salt salt rt) = agents"
    using new by (auto simp: runtime_new_Inr with_run_salt_def)
  obtain rt' p where 1: "run_one_round c bus_ops 0 ?rt = Some (Inr (Finalized, rt'))"
    "logged_proposal 0 (rt_log rt') = Some p" "least_match t 0 p"
    "calm_log c 0 ?recs p (log_new run_id) (rt_log rt')"
    using calm_round [OF ok wf quiet_start [OF new ag] calm_start_fresh [OF new sorted keys hashes]
        _ sched q some] calm st(1) by (auto simp: ags)
  obtain n where n: "unat mr = Suc n" using mr by (metis not0_implies_Suc unat_eq_zero)
  have "run_rounds c bus_ops (unat mr) 0 ?rt =
      Some (Inr ((True, 0), observe (OnRoundCommitted 0 True) rt'))"
    using 1(1) st(4) by (simp add: n)
  then have "run c bus_ops run_id (with_run_salt salt rt) = Some (Inr
      \<lparr>ro_log = set_final_round 0 True (rt_log rt'), ro_finalized = True, ro_final_round = 0\<rparr>)"
    using st(3) by (simp add: run_def close_run_def) 
  with 1(2-4) show ?thesis
    by (intro exI [of _ "\<lparr>ro_log = set_final_round 0 True (rt_log rt'), ro_finalized = True,
        ro_final_round = 0\<rparr>"] exI [of _ p] conjI exI [of _ "rt_log rt'"])
      (simp_all add: logged_proposal_def set_final_round_def)
qed

end
