(* ===== verification/Samples.thy ===== *)
theory Samples
  imports Private_Intents Happy_Path
begin

text \<open>
  A small concrete deployment the properties are instantiated on: one requester and three
  providers, the first of which signs its receipts, and a scenario with every kind of
  adversarial event. Nothing general is proved from it.
\<close>

definition demo_id :: "u8 \<Rightarrow> node_id" where
  "demo_id b = NodeId (replicate 32 b)"

definition gpu :: capability_tag where
  "gpu = CapabilityTag ''GPU''"

definition cpu :: capability_tag where
  "cpu = CapabilityTag ''CPU''"

definition demo_seed :: signing_secret_seed where
  "demo_seed = SigningSecretSeed (replicate 32 0x77)"

definition demo_node :: "u8 \<Rightarrow> capability_tag list \<Rightarrow> signing_public_key option \<Rightarrow> node_config" where
  "demo_node b claims pk =
     \<lparr>nc_id = demo_id b, nc_role = Provider, nc_required_capability = None,
      nc_capability_claims = claims, nc_signing_public_key = pk\<rparr>"

definition demo_topology :: "crates \<Rightarrow> topology_config" where
  "demo_topology c =
     \<lparr>topo_version = 1, topo_capability_tags = \<lparr>tags = {gpu, cpu}\<rparr>,
      topo_nodes =
        [\<lparr>nc_id = demo_id 0x11, nc_role = Requester, nc_required_capability = Some gpu,
          nc_capability_claims = [], nc_signing_public_key = None\<rparr>,
         demo_node 0x22 [gpu] (Some (seed_public c demo_seed)),
         demo_node 0x33 [cpu, gpu] None,
         demo_node 0x44 [cpu] None]\<rparr>"

definition demo_requester :: private_requester_intent where
  "demo_requester = requester_intent_new (demo_id 0x11) gpu 1000"

definition demo_signer :: private_provider_intent where
  "demo_signer = provider_with_signing (provider_intent_new (demo_id 0x22) [gpu] 100) demo_seed"

definition demo_agents :: "(node_id, agent_state) btree_map" where
  "demo_agents =
     [(demo_id 0x11, agent_requester demo_requester),
      (demo_id 0x22, agent_provider demo_signer),
      (demo_id 0x33, agent_provider (provider_intent_new (demo_id 0x33) [cpu, gpu] 100)),
      (demo_id 0x44, agent_provider (provider_intent_new (demo_id 0x44) [cpu] 100))]"

definition demo_scenario :: scenario where
  "demo_scenario =
     \<lparr>sc_version = 1,
      sc_events = [InjectInvalidProof (demo_id 0x22) 0, DoubleCommit (demo_id 0x33) 0,
        ReplayPriorCommitment (demo_id 0x11) 1 0, DropNode (demo_id 0x44) 0]\<rparr>"

definition demo_runtime :: "scenario \<Rightarrow> ordered_bus runtime" where
  "demo_runtime sc =
     \<lparr>rt_topology = demo_topology sample_crates, rt_transport = bus_new,
      rt_log = log_new ''run-pending'', rt_agents = demo_agents,
      rt_round_machine = round_machine_new (demo_topology sample_crates) 0, rt_scenario = sc,
      rt_invalid_proof_schedule = invalid_proof_schedule sc, rt_historical = [],
      rt_max_rounds = 4, rt_run_salt = replicate 32 0x5a, rt_events = []\<rparr>"

lemma demo_id_simps [simp]:
  "demo_id a = demo_id b \<longleftrightarrow> a = b" "node_wf (demo_id b)" "nid_bytes (demo_id b) = replicate 32 b"
  by (simp_all add: demo_id_def node_wf_def replicate_eq_replicate)

lemma replicate_order:
  "replicate (Suc n) a < replicate (Suc n) (b :: 'a :: linorder) \<longleftrightarrow> a < b"
  by auto

lemma demo_order [simp]:
  "demo_id a < demo_id b \<longleftrightarrow> a < b" "demo_id a \<le> demo_id b \<longleftrightarrow> a \<le> b"
proof -
  show less: "demo_id a < demo_id b \<longleftrightarrow> a < b" for a b
    using replicate_order [of 31 a b] by (simp add: less_node_id_def node_id_less_def)
  show "demo_id a \<le> demo_id b \<longleftrightarrow> a \<le> b"
    using less [of b a] by (simp add: linorder_not_less [symmetric] del: linorder_not_less)
qed

lemma demo_tags [simp]:
  "tag_wf gpu" "tag_wf cpu" "gpu \<noteq> cpu" "cpu \<noteq> gpu" "tag_str gpu = ''GPU''" "tag_str cpu = ''CPU''"
  by (simp_all add: gpu_def cpu_def tag_wf_def is_ascii_uppercase_def is_ascii_digit_def tag_char_ok_def)

lemma demo_seed_wf [simp]: "seed_wf demo_seed"
  by (simp add: demo_seed_def seed_wf_def)

lemma demo_topology_wf: "ed_ok c \<Longrightarrow> topology_wf c (demo_topology c)"
  by (auto simp: topology_wf_def demo_topology_def demo_node_def node_config_wf_def seed_public_wf)

lemma sample_crates_parts:
  "hex_ok sample_crates" "blake_ok sample_crates" "ed_ok sample_crates"
  using sample_crates_ok by (simp_all add: crates_ok_def)

lemma demo_agents_ok: "agents_ok c (demo_topology c) demo_agents"
  by (simp add: agents_ok_def demo_agents_def agent_ok_def demo_topology_def demo_node_def
      find_node_def agent_requester_def agent_provider_def demo_requester_def demo_signer_def
      requester_intent_new_def provider_intent_new_def provider_with_signing_def
      commit_requester_ok_iff commit_provider_ok_iff tag_bytes_def signing_consistent_def)

lemma demo_runtime_new:
  "runtime_new sample_crates (demo_topology sample_crates) bus_new demo_agents sc 4 =
     Inr (demo_runtime sc)"
  by (auto simp: runtime_new_Inr demo_runtime_def demo_topology_def demo_node_def demo_agents_def
      bt_keys_def)

section \<open>Loading the deployment\<close>

definition demo_raw_requester :: raw_agent where
  "demo_raw_requester =
     \<lparr>ra_node = to_hex sample_crates (demo_id 0x11), ra_role = ''requester'',
      ra_required_capability = Some ''GPU'', ra_capability_claims = None,
      ra_budget_cents = Some 1000, ra_reservation_cents = None, ra_signing_secret_key = None\<rparr>"

definition demo_raw_provider :: "u8 \<Rightarrow> string list \<Rightarrow> string option \<Rightarrow> raw_agent" where
  "demo_raw_provider b claims key =
     \<lparr>ra_node = to_hex sample_crates (demo_id b), ra_role = ''provider'',
      ra_required_capability = None, ra_capability_claims = Some claims,
      ra_budget_cents = None, ra_reservation_cents = Some 100, ra_signing_secret_key = key\<rparr>"

definition demo_bundle :: raw_bundle where
  "demo_bundle =
     \<lparr>rb_version = 1,
      rb_agents =
        [demo_raw_requester,
         demo_raw_provider 0x22 [''GPU''] (Some (hex_encode sample_crates (seed_bytes demo_seed))),
         demo_raw_provider 0x33 [''CPU'', ''GPU''] None,
         demo_raw_provider 0x44 [''CPU''] None]\<rparr>"

lemma demo_topology_loads:
  "topology_from_raw sample_crates (topology_to_raw sample_crates (demo_topology sample_crates)) =
     Inr (demo_topology sample_crates)"
  by (rule topology_reload [OF sample_crates_parts(1) demo_topology_wf [OF sample_crates_parts(3)]])

lemma demo_committable: "committable (demo_topology c)"
  by (simp add: committable_def demo_topology_def demo_node_def)

lemma demo_keys_paired: "keys_paired (demo_topology c) demo_agents"
  by (simp add: keys_paired_def demo_agents_def demo_topology_def demo_node_def find_node_def
      agent_requester_def agent_provider_def demo_signer_def provider_intent_new_def
      provider_with_signing_def)

lemma demo_node_ids:
  "node_from_str sample_crates (to_hex sample_crates (demo_id b)) = Inr (demo_id b)"
  by (rule node_hex.parse_render [OF sample_crates_parts(1)]) simp

lemma demo_seed_parses:
  "seed_from_hex sample_crates (hex_encode sample_crates (seed_bytes demo_seed)) = Inr demo_seed"
  by (rule seed_hex.parse_render [OF sample_crates_parts(1)]) simp

lemma demo_tags_parse: "parse_shape ''GPU'' = Inr gpu" "parse_shape ''CPU'' = Inr cpu"
  unfolding parse_shape_Inr by simp_all

lemma demo_find_node:
  "find_node (demo_topology c) (demo_id 0x11) =
     Some \<lparr>nc_id = demo_id 0x11, nc_role = Requester, nc_required_capability = Some gpu,
           nc_capability_claims = [], nc_signing_public_key = None\<rparr>"
  "find_node (demo_topology c) (demo_id 0x22) =
     Some (demo_node 0x22 [gpu] (Some (seed_public c demo_seed)))"
  "find_node (demo_topology c) (demo_id 0x33) = Some (demo_node 0x33 [cpu, gpu] None)"
  "find_node (demo_topology c) (demo_id 0x44) = Some (demo_node 0x44 [cpu] None)"
  by (simp_all add: find_node_def demo_topology_def demo_node_def)

lemma demo_load_requester:
  "bt_get out (demo_id 0x11) = None \<Longrightarrow>
     load_agent sample_crates (demo_topology sample_crates) demo_raw_requester out =
       Inr (bt_insert (demo_id 0x11) (agent_requester demo_requester) out)"
  by (simp add: load_agent_def demo_raw_requester_def demo_node_ids demo_find_node bt_contains_def
      parse_role_def load_seed_def load_requester_agent_def demo_tags_parse demo_requester_def
      requester_intent_new_def del: parse_shape.simps)

lemma demo_load_provider:
  assumes "bt_get out (demo_id b) = None"
    and "find_node (demo_topology sample_crates) (demo_id b) = Some (demo_node b claims pk)"
    and "try_map (\<lambda>s. case parse_shape s of
        Inl _ \<Rightarrow> Inl (PiErr (PiBadCapability (to_hex sample_crates (demo_id b)))) | Inr tag \<Rightarrow> Inr tag)
      raws = Inr claims"
    and "load_seed sample_crates (demo_node b claims pk) key = Inr seed"
  shows "load_agent sample_crates (demo_topology sample_crates) (demo_raw_provider b raws key) out =
     Inr (bt_insert (demo_id b) (agent_provider
       \<lparr>ppi_node_id = demo_id b, ppi_capability_claims = claims, ppi_reservation_cents = Secret 100,
        ppi_signing_secret_key = map_option Secret seed\<rparr>) out)"
  using assms
  by (simp add: load_agent_def demo_raw_provider_def demo_node_ids bt_contains_def parse_role_def
      load_provider_agent_def demo_node_def Let_def)

lemma demo_load_seeds:
  "load_seed sample_crates (demo_node b claims pk) None = Inr None"
  "load_seed sample_crates (demo_node b claims (Some (seed_public sample_crates demo_seed)))
     (Some (hex_encode sample_crates (seed_bytes demo_seed))) = Inr (Some demo_seed)"
  by (simp_all add: load_seed_def demo_seed_parses demo_node_def)

lemma demo_bundle_loads:
  "load_bundle sample_crates (demo_topology sample_crates) demo_bundle = Inr demo_agents"
proof -
  let ?load = "load_agent sample_crates (demo_topology sample_crates)"
  have "try_fold ?load (rb_agents demo_bundle) [] = Inr demo_agents"
    by (simp add: demo_bundle_def demo_load_requester demo_load_provider [OF _ demo_find_node(2)]
        demo_load_provider [OF _ demo_find_node(3)] demo_load_provider [OF _ demo_find_node(4)]
        demo_load_seeds demo_tags_parse bt_get_insert bt_get_def demo_agents_def demo_signer_def
        provider_intent_new_def provider_with_signing_def del: parse_shape.simps)
  moreover have "List.find (\<lambda>n. \<not> bt_contains demo_agents (nc_id n))
      (topo_nodes (demo_topology sample_crates)) = None"
    by (simp add: demo_topology_def demo_node_def demo_agents_def bt_contains_def bt_get_def)
  moreover have "rb_version demo_bundle = 1" by (simp add: demo_bundle_def)
  ultimately show ?thesis by (simp add: load_bundle_def)
qed

text \<open>A malformed node string whose twelfth byte boundary falls inside a character.\<close>

definition demo_bad_agent :: raw_agent where
  "demo_bad_agent = demo_raw_requester\<lparr>ra_node := replicate 11 (CHR ''a'') @ ellipsis\<rparr>"

lemma strip_one_None:
  "list_all (\<lambda>w. w = [] \<or> hd w \<noteq> hd s) ws \<Longrightarrow> strip_one ws s = None"
  by (cases s) (fastforce simp: strip_one_def find_None_iff list_all_iff neq_Nil_conv)+

lemma demo_bad_agent_panics:
  "load_agent sample_crates (demo_topology sample_crates) demo_bad_agent [] =
     Inl (PiPanic ''byte index 12 is not a char boundary'')"
proof -
  let ?s = "replicate 11 (CHR ''a'') @ ellipsis"
  have none: "strip_one white_space ?s = None" "strip_one (map rev white_space) (rev ?s) = None"
    by (rule strip_one_None; simp add: white_space_def ellipsis_def char_of_eq_iff)+
  have "trim ?s = ?s"
    by (simp add: trim_def strip_all.simps [of white_space] strip_all.simps [of "map rev white_space"]
        none del: rev_append)
  moreover have "is_continuation_byte (?s ! 12)"
    by (simp add: is_continuation_byte_def ellipsis_def nth_append)
  ultimately have "redact_tail ?s = None" by (simp add: redact_tail_def ellipsis_def)
  then show ?thesis
    by (simp add: load_agent_def demo_bad_agent_def node_from_str_def ellipsis_def)
qed

lemma quote_chars: "double_quote = CHR 0x22" "single_quote = CHR 0x27"
  by (simp_all add: double_quote_def single_quote_def char_of_eq_iff)

section \<open>A first commitment\<close>

definition demo_commitment :: commitment_record where
  "demo_commitment =
     \<lparr>cr_node_id = demo_id 0x11, cr_round = 0,
      cr_commitment_hex = hex_encode sample_crates (replicate 32 0xab),
      cr_public_intent = PubRequester (demo_id 0x11) 0 gpu\<rparr>"

definition demo_claim :: "u8 \<Rightarrow> commitment_record" where
  "demo_claim b =
     \<lparr>cr_node_id = demo_id b, cr_round = 0,
      cr_commitment_hex = hex_encode sample_crates (replicate 32 b),
      cr_public_intent = PubProvider (demo_id b) 0 [cpu, gpu]\<rparr>"

lemma demo_commitment_hex32: "hex32 sample_crates (cr_commitment_hex demo_commitment)"
  unfolding hex32_def demo_commitment_def by (intro exI [of _ "replicate 32 0xab"]) simp

lemma demo_machine_accepts:
  "accept_commitment demo_commitment (round_machine_new (demo_topology sample_crates) 0) =
     (Inr (), snd (accept_commitment demo_commitment
        (round_machine_new (demo_topology sample_crates) 0)))"
proof -
  have "check_commitment demo_commitment (round_machine_new (demo_topology sample_crates) 0) = Inr ()"
    by (simp add: check_commitment_Inr demo_commitment_def demo_topology_def find_node_def
        round_machine_new_def)
  then show ?thesis by (simp add: accept_commitment_def)
qed

lemma demo_machine_reachable:
  "rm_reachable sample_crates (demo_topology sample_crates)
     (snd (accept_commitment demo_commitment (round_machine_new (demo_topology sample_crates) 0)))"
  by (rule rm_reachable.step [OF rm_reachable.start rm_step.intros(1)]) (rule demo_machine_accepts)

lemma demo_commitment_accepted:
  "accept_commitment demo_commitment
     (rt_round_machine (demo_runtime demo_scenario\<lparr>rt_log := log_new ''demo''\<rparr>)) =
   (Inr (), snd (accept_commitment demo_commitment
      (round_machine_new (demo_topology sample_crates) 0)))"
  using demo_machine_accepts by (simp add: demo_runtime_def)

lemma demo_rt_inv:
  "rt_inv sample_crates (demo_topology sample_crates) 0
     (demo_runtime demo_scenario\<lparr>rt_log := log_new ''demo''\<rparr>)"
  using runtime_new_open [OF demo_runtime_new [of demo_scenario],
      where salt = "rt_run_salt (demo_runtime demo_scenario)" and run_id = "''demo''"]
  by (simp add: with_run_salt_def rt_open_def)

lemma demo_run_returns:
  "\<exists>out. run sample_crates bus_ops ''demo'' (with_run_salt [] (demo_runtime demo_scenario)) =
     Some (Inr out)"
  using bus_run_total [OF sample_crates_ok demo_topology_wf [OF sample_crates_parts(3)]
      demo_agents_ok demo_runtime_new] by blast

lemma demo_candidate:
  "derive_candidate 0 demo_commitment [demo_claim 0x33, demo_claim 0x22] =
     Inr (Some \<lparr>cand_requester = demo_id 0x11, cand_provider = demo_id 0x22,
                cand_matched_capability = gpu\<rparr>)"
  by (simp add: derive_candidate_def demo_commitment_def demo_claim_def feasible_providers_def
      match_predicate_def)

lemma demo_provider_ids:
  "provider_ids (demo_topology c) = [demo_id 0x22, demo_id 0x33, demo_id 0x44]"
  by (simp add: provider_ids_def providers_stable_order_def demo_topology_def demo_node_def)

lemma demo_preimages:
  "\<exists>p. build_requester_preimage demo_requester (replicate 32 7) 3 = Inr p"
  "\<exists>p. build_provider_preimage demo_signer (replicate 32 7) 3 = Inr p"
  by (simp_all add: build_requester_layout build_provider_layout demo_requester_def demo_signer_def
      requester_intent_new_def provider_intent_new_def provider_with_signing_def tag_bytes_def)

section \<open>A round without adversary\<close>

text \<open>The sample hash keeps the last 32 bytes: here the nonce, which ends in the node and round.\<close>

lemma sample_blake_suffix: "length m = 32 \<Longrightarrow> sample_blake (pre @ m) = m"
  by (simp add: sample_blake_def)

lemma demo_nonce:
  "derive_test_nonce sample_crates (demo_id b) 0 [] = replicate 24 b @ u64_be 0"
proof -
  have "str_bytes ''vertex-veil/v1/test-nonce'' @ replicate 32 b @ u64_be 0 =
      (str_bytes ''vertex-veil/v1/test-nonce'' @ replicate 8 b) @ replicate 24 b @ u64_be 0"
    by (simp add: replicate_add [of 8 24 b, simplified])
  moreover have "sample_blake ((str_bytes ''vertex-veil/v1/test-nonce'' @ replicate 8 b) @
      replicate 24 b @ u64_be 0) = replicate 24 b @ u64_be 0"
    by (rule sample_blake_suffix) simp
  ultimately have "sample_blake (str_bytes ''vertex-veil/v1/test-nonce'' @ replicate 32 b @ u64_be 0) =
      replicate 24 b @ u64_be 0"
    by (simp only:)
  then show ?thesis by (simp add: derive_test_nonce_def sample_crates_def)
qed

lemma sample_hash_layouts:
  assumes "length nonce = 32"
  shows "sample_blake (requester_layout r n cap b nonce) = nonce"
    "sample_blake (provider_layout r n claims b nonce) = nonce"
proof -
  have "\<exists>pre. requester_layout r n cap b nonce = pre @ nonce"
    "\<exists>pre. provider_layout r n claims b nonce = pre @ nonce"
    unfolding requester_layout_def provider_layout_def by (metis append_assoc)+
  with sample_blake_suffix [OF assms]
  show "sample_blake (requester_layout r n cap b nonce) = nonce"
    "sample_blake (provider_layout r n claims b nonce) = nonce" by auto
qed

definition demo_hash :: "u8 \<Rightarrow> string" where
  "demo_hash b = hex_encode sample_crates (replicate 24 b @ u64_be 0)"

lemma demo_commit_hashes:
  "cr_commitment_hex (round_commitment sample_crates (with_run_salt [] (demo_runtime sc)) 0 (demo_id b)) =
     demo_hash b" if "b \<in> {0x11, 0x22, 0x33, 0x44}"
proof -
  have blake: "blake2s sample_crates = sample_blake" by (simp add: sample_crates_def)
  show ?thesis
    using that
    by (auto simp: round_commitment_def build_commitment_def demo_runtime_def with_run_salt_def
        demo_agents_def bt_get_def Let_def demo_find_node demo_node_def agent_requester_def
        agent_provider_def commit_requester_def commit_provider_def demo_nonce demo_requester_def
        demo_signer_def requester_intent_new_def provider_intent_new_def provider_with_signing_def
        build_requester_layout build_provider_layout tag_bytes_def hash_preimage_def blake
        sample_hash_layouts demo_hash_def)
qed

lemma demo_hashes_distinct:
  "distinct (map (\<lambda>i. cr_commitment_hex
     (round_commitment sample_crates (with_run_salt [] (demo_runtime sc)) 0 i)) (bt_keys demo_agents))"
proof -
  have "demo_hash a = demo_hash b \<longleftrightarrow> a = b" for a b
    by (auto simp: demo_hash_def hex_encode_inject [OF sample_crates_parts(1)] replicate_eq_replicate)
  then show ?thesis by (simp add: demo_agents_def bt_keys_def demo_commit_hashes)
qed

lemma demo_requester_config:
  "topo_requester (demo_topology c) =
     Some \<lparr>nc_id = demo_id 0x11, nc_role = Requester, nc_required_capability = Some gpu,
           nc_capability_claims = [], nc_signing_public_key = None\<rparr>"
  by (simp add: topo_requester_def demo_topology_def)

lemma demo_claimants: "claimants (demo_topology c) gpu = {demo_id 0x22, demo_id 0x33}"
proof -
  have "claimants t cap = nc_id ` set (filter
      (\<lambda>n. nc_role n = Provider \<and> cap \<in> set (nc_capability_claims n)) (topo_nodes t))" for t cap
    by (auto simp: claimants_def)
  then show ?thesis by (simp add: demo_topology_def demo_node_def del: set_filter)
qed

end
