(* ===== verification/Serde_Value.thy ===== *)
theory Serde_Value
  imports Prelude
begin

text \<open>
  The data model between the program's types and the text of a JSON or TOML file: the values a
  text stands for, and what the fields of a derived \<open>Serialize\<close>/\<open>Deserialize\<close> implementation
  write into one and read from one. The derive macros and the two text formats are third-party;
  only the documented representation is used: a struct is an object with its fields by name, an
  internally tagged enum is the object of its variant with the tag in front, a transparent newtype
  is its content. \<open>serde\<close> also reads some forms it never writes (positional arrays for structs,
  indices for variants); a reader answers \<open>OtherForm\<close> there, which claims nothing about them.
  An input with several faults is refused for one of them; which one is not claimed either.
\<close>

text \<open>\<open>JFloat\<close> is any number that is not an integer, by its text.\<close>

datatype jvalue =
  JNull | JBool bool | JInt int | JFloat string | JString string | JArray "jvalue list"
| JObject "(string \<times> jvalue) list"

fun jget :: "string \<Rightarrow> jvalue \<Rightarrow> jvalue option" where
  "jget k (JObject kvs) = map_of kvs k"
| "jget k _ = None"

text \<open>The values a serializer produces: integers of at most 64 bits and objects without repeated keys.\<close>

fun writable :: "jvalue \<Rightarrow> bool" where
  "writable (JInt i) \<longleftrightarrow> - (2 ^ 63) \<le> i \<and> i < 2 ^ 64"
| "writable (JFloat s) \<longleftrightarrow> False"
| "writable (JArray vs) \<longleftrightarrow> (\<forall>v \<in> set vs. writable v)"
| "writable (JObject kvs) \<longleftrightarrow> distinct (map fst kvs) \<and> (\<forall>kv \<in> set kvs. writable (snd kv))"
| "writable _ \<longleftrightarrow> True"

section \<open>Reading\<close>

datatype de_fault =
  MissingKey string
| DuplicateKey string
| UnknownVariant string
| WrongType
| OutOfRange
| CustomFault string
| OtherForm

definition de_string :: "jvalue \<Rightarrow> de_fault + string" where
  "de_string v = (case v of JString s \<Rightarrow> Inr s | _ \<Rightarrow> Inl WrongType)"

definition de_bool :: "jvalue \<Rightarrow> de_fault + bool" where
  "de_bool v = (case v of JBool b \<Rightarrow> Inr b | _ \<Rightarrow> Inl WrongType)"

text \<open>\<open>u32\<close> and \<open>u64\<close>: an integer in range.\<close>

definition de_word :: "jvalue \<Rightarrow> de_fault + 'w::len word" where
  "de_word v =
     (case v of
        JInt i \<Rightarrow> if 0 \<le> i \<and> i < 2 ^ LENGTH('w) then Inr (word_of_int i) else Inl OutOfRange
      | _ \<Rightarrow> Inl WrongType)"

definition de_list :: "(jvalue \<Rightarrow> de_fault + 'a) \<Rightarrow> jvalue \<Rightarrow> de_fault + 'a list" where
  "de_list de v = (case v of JArray vs \<Rightarrow> try_map de vs | _ \<Rightarrow> Inl WrongType)"

definition de_option :: "(jvalue \<Rightarrow> de_fault + 'a) \<Rightarrow> jvalue \<Rightarrow> de_fault + 'a option" where
  "de_option de v = (case v of JNull \<Rightarrow> Inr None | _ \<Rightarrow> map_sum id Some (de v))"

text \<open>
  The fields of a struct. Unknown fields are ignored; a known field may occur once.
\<close>

definition de_struct :: "string list \<Rightarrow> jvalue \<Rightarrow> de_fault + (string \<rightharpoonup> jvalue)" where
  "de_struct names v =
     (case v of
        JObject kvs \<Rightarrow>
          (case List.find (\<lambda>k. 1 < length (filter (\<lambda>kv. fst kv = k) kvs)) names of
             Some k \<Rightarrow> Inl (DuplicateKey k)
           | None \<Rightarrow> Inr (map_of kvs))
      | JArray _ \<Rightarrow> Inl OtherForm
      | _ \<Rightarrow> Inl WrongType)"

definition de_field ::
  "(string \<rightharpoonup> jvalue) \<Rightarrow> string \<Rightarrow> (jvalue \<Rightarrow> de_fault + 'a) \<Rightarrow> de_fault + 'a" where
  "de_field m k de = (case m k of None \<Rightarrow> Inl (MissingKey k) | Some v \<Rightarrow> de v)"

text \<open>\<open>#[serde(default)]\<close>.\<close>

definition de_default ::
  "(string \<rightharpoonup> jvalue) \<Rightarrow> string \<Rightarrow> 'a \<Rightarrow> (jvalue \<Rightarrow> de_fault + 'a) \<Rightarrow> de_fault + 'a" where
  "de_default m k x de = (case m k of None \<Rightarrow> Inr x | Some v \<Rightarrow> de v)"

text \<open>\<open>#[serde(tag = ...)]\<close>: the tag, and the object without it.\<close>

definition de_tagged :: "string \<Rightarrow> jvalue \<Rightarrow> de_fault + string \<times> jvalue" where
  "de_tagged tag v =
     (case v of
        JObject kvs \<Rightarrow>
          (case filter (\<lambda>kv. fst kv = tag) kvs of
             [] \<Rightarrow> Inl (MissingKey tag)
           | [kv] \<Rightarrow>
               (case snd kv of
                  JString s \<Rightarrow> Inr (s, JObject (filter (\<lambda>kv. fst kv \<noteq> tag) kvs))
                | _ \<Rightarrow> Inl OtherForm)
           | _ \<Rightarrow> Inl (DuplicateKey tag))
      | JArray _ \<Rightarrow> Inl OtherForm
      | _ \<Rightarrow> Inl WrongType)"

section \<open>Writing\<close>

definition ser_word :: "'w::len word \<Rightarrow> jvalue" where
  "ser_word w = JInt (uint w)"

definition ser_list :: "('a \<Rightarrow> jvalue) \<Rightarrow> 'a list \<Rightarrow> jvalue" where
  "ser_list ser xs = JArray (map ser xs)"

text \<open>\<open>#[serde(skip_serializing_if = "Option::is_none")]\<close>: the entries of such a field.\<close>

definition ser_some :: "string \<Rightarrow> ('a \<Rightarrow> jvalue) \<Rightarrow> 'a option \<Rightarrow> (string \<times> jvalue) list" where
  "ser_some k ser x = (case x of None \<Rightarrow> [] | Some a \<Rightarrow> [(k, ser a)])"

definition ser_tagged :: "string \<Rightarrow> string \<Rightarrow> (string \<times> jvalue) list \<Rightarrow> jvalue" where
  "ser_tagged tag variant kvs = JObject ((tag, JString variant) # kvs)"

lemma ser_tagged_present [simp]: "ser_tagged tag variant kvs \<noteq> JNull"
  by (simp add: ser_tagged_def)

section \<open>What a serializer and a deserializer owe each other\<close>

text \<open>
  A type both of whose directions the program uses: on the values \<open>wf\<close> that its Rust type has, the
  writer produces a writable value and the reader gives the original back.
\<close>

locale json_codec =
  fixes ser :: "'a \<Rightarrow> jvalue" and de :: "jvalue \<Rightarrow> de_fault + 'a" and wf :: "'a \<Rightarrow> bool"
  assumes de_ser: "wf x \<Longrightarrow> de (ser x) = Inr x"
    and ser_writable: "writable (ser x)"
    and ser_present: "ser x \<noteq> JNull"
begin

lemma ser_inject: "wf x \<Longrightarrow> wf y \<Longrightarrow> ser x = ser y \<longleftrightarrow> x = y"
  by (metis de_ser sum.inject(2))

lemma de_ser_list: "\<forall>x \<in> set xs. wf x \<Longrightarrow> de_list de (ser_list ser xs) = Inr xs"
  by (induction xs) (auto simp: de_list_def ser_list_def de_ser)

lemma ser_list_writable: "writable (ser_list ser xs)"
  by (simp add: ser_list_def ser_writable)

lemma de_ser_option_value: "wf x \<Longrightarrow> de_option de (ser x) = Inr (Some x)"
  using ser_present [of x] de_ser [of x] by (auto simp: de_option_def split: jvalue.split)

lemma de_ser_option:
  "pred_option wf x \<Longrightarrow> de_default (map_of (ser_some k ser x)) k None (de_option de) = Inr x"
  by (cases x) (simp_all add: de_default_def ser_some_def de_ser_option_value)

end

lemma de_struct_object [simp]: "distinct (map fst kvs) \<Longrightarrow> de_struct names (JObject kvs) = Inr (map_of kvs)"
proof -
  assume d: "distinct (map fst kvs)"
  have "length (filter (\<lambda>kv. fst kv = k) kvs) \<le> 1" for k
    using d by (induction kvs) (auto simp: filter_empty_conv image_iff)
  then have "List.find (\<lambda>k. 1 < length (filter (\<lambda>kv. fst kv = k) kvs)) names = None"
    by (auto simp: find_None_iff not_less)
  then show ?thesis by (simp add: de_struct_def)
qed

lemma de_ser_tagged [simp]:
  "tag \<notin> fst ` set kvs \<Longrightarrow> de_tagged tag (ser_tagged tag variant kvs) = Inr (variant, JObject kvs)"
proof -
  assume "tag \<notin> fst ` set kvs"
  then have "filter (\<lambda>kv. fst kv = tag) kvs = []" "filter (\<lambda>kv. fst kv \<noteq> tag) kvs = kvs"
    by (auto simp: filter_empty_conv filter_id_conv)
  then show ?thesis by (simp add: de_tagged_def ser_tagged_def)
qed

interpretation string_json: json_codec JString de_string "\<lambda>_. True"
  by unfold_locales (simp_all add: de_string_def)

interpretation bool_json: json_codec JBool de_bool "\<lambda>_. True"
  by unfold_locales (simp_all add: de_bool_def)

interpretation u64_json: json_codec "ser_word :: u64 \<Rightarrow> jvalue" de_word "\<lambda>_. True"
proof
  fix x :: u64
  have "uint x < 2 ^ 64" using uint_lt2p [of x] by simp
  moreover have "- (2 ^ 63) \<le> uint x" by (rule order_trans [OF _ uint_ge_0]) simp
  ultimately show "de_word (ser_word x) = Inr x" "writable (ser_word x)"
    by (simp_all add: de_word_def ser_word_def)
qed (simp add: ser_word_def)

interpretation u32_json: json_codec "ser_word :: u32 \<Rightarrow> jvalue" de_word "\<lambda>_. True"
proof
  fix x :: u32
  have "uint x < 2 ^ 32" using uint_lt2p [of x] by simp
  moreover have "- (2 ^ 63) \<le> uint x" by (rule order_trans [OF _ uint_ge_0]) simp
  ultimately show "de_word (ser_word x) = Inr x" "writable (ser_word x)"
    by (simp_all add: de_word_def ser_word_def)
qed (simp add: ser_word_def)

end
