(* ===== verification/Filesystem.thy ===== *)
theory Filesystem
  imports Redaction "HOL-Library.AList" "HOL-Library.Sublist"
begin

text \<open>
  What the program uses of \<open>std::path\<close> and \<open>std::fs\<close>. A path is its string (valid UTF-8,
  Unix separators); it denotes the list of names reached from the root, \<open>..\<close> taken
  lexically (no symbolic links). The file system is an association list from such lists to
  directories and files, with the entries the process may not change and the working
  directory; a call returns its result and the new file system.
\<close>

section \<open>Paths\<close>

datatype path_component = RootDir | CurDir | ParentDir | Normal string

definition segment :: "string \<Rightarrow> path_component option" where
  "segment s =
     (if s = [] \<or> s = ''.'' then None else if s = ''..'' then Some ParentDir else Some (Normal s))"

text \<open>\<open>Path::components\<close>: separators collapse, a \<open>.\<close> counts only at the front.\<close>

definition path_components :: "string \<Rightarrow> path_component list" where
  "path_components p =
     (let segs = split_on (CHR ''/'') p
      in (if p = [] then [] else if hd p = CHR ''/'' then [RootDir]
          else if hd segs = ''.'' then [CurDir] else []) @ List.map_filter segment segs)"

definition path_join :: "string \<Rightarrow> string \<Rightarrow> string" where
  "path_join p q =
     (if q \<noteq> [] \<and> hd q = CHR ''/'' then q
      else if p = [] \<or> last p = CHR ''/'' then p @ q else p @ ''/'' @ q)"

fun component_str :: "path_component \<Rightarrow> string" where
  "component_str RootDir = []"
| "component_str CurDir = ''.''"
| "component_str ParentDir = ''..''"
| "component_str (Normal s) = s"

text \<open>The path of a component list, with single separators.\<close>

definition path_of :: "path_component list \<Rightarrow> string" where
  "path_of cs = (if cs = [RootDir] then ''/'' else join_with ''/'' (map component_str cs))"

definition path_parent :: "string \<Rightarrow> string option" where
  "path_parent p =
     (case rev (path_components p) of [] \<Rightarrow> None | RootDir # _ \<Rightarrow> None | _ # cs \<Rightarrow> Some (path_of (rev cs)))"

definition path_file_name :: "string \<Rightarrow> string option" where
  "path_file_name p = (case rev (path_components p) of Normal n # _ \<Rightarrow> Some n | _ \<Rightarrow> None)"

text \<open>The name up to its last dot; a name whose only dot is its first character is kept.\<close>

definition path_file_stem :: "string \<Rightarrow> string option" where
  "path_file_stem p =
     map_option (\<lambda>n. let before = butlast (split_on (CHR ''.'') n)
                     in if before = [] \<or> before = [[]] then n else join_with ''.'' before)
       (path_file_name p)"

fun walk :: "path_component \<Rightarrow> string list \<Rightarrow> string list" where
  "walk RootDir at = []"
| "walk CurDir at = at"
| "walk ParentDir at = butlast at"
| "walk (Normal s) at = at @ [s]"

definition resolve :: "string list \<Rightarrow> string \<Rightarrow> string list" where
  "resolve cwd p = fold walk (path_components p) cwd"

text \<open>A file name the program appends to a directory.\<close>

definition plain_name :: "string \<Rightarrow> bool" where
  "plain_name n \<longleftrightarrow> n \<noteq> [] \<and> n \<noteq> ''.'' \<and> n \<noteq> ''..'' \<and> CHR ''/'' \<notin> set n"

lemma split_on_nonempty [simp]: "split_on d xs \<noteq> []"
  by (induction xs) (auto split: list.splits)

lemma split_on_append: "split_on d (xs @ d # ys) = split_on d xs @ split_on d ys"
  by (induction xs) (auto split: list.splits)

lemma split_on_plain: "d \<notin> set xs \<Longrightarrow> split_on d xs = [xs]"
  by (induction xs) auto

lemma split_on_snoc_sep: "split_on d (xs @ [d]) = split_on d xs @ [[]]"
  using split_on_append [of d xs "[]"] by simp

lemma segment_plain: "plain_name n \<Longrightarrow> segment n = Some (Normal n)"
  by (simp add: segment_def plain_name_def)

lemma path_components_plain: "plain_name n \<Longrightarrow> path_components n = [Normal n]"
  by (cases n)
    (auto simp: path_components_def split_on_plain plain_name_def map_filter_simps segment_plain
      segment_def)

lemma path_components_join:
  assumes "plain_name n"
  shows "path_components (path_join d n) = path_components d @ [Normal n]"
proof -
  have n: "split_on (CHR ''/'') n = [n]" "n \<noteq> []" "hd n \<noteq> CHR ''/''" "n \<noteq> ''.''"
    using assms by (cases n; auto simp: plain_name_def split_on_plain)+
  consider "d = []" | e where "d = e @ ''/''" | "d \<noteq> []" "last d \<noteq> CHR ''/''"
    by (metis append_butlast_last_id)
  then show ?thesis
  proof cases
    case 1
    then show ?thesis
      using n assms by (simp add: path_join_def path_components_plain) (simp add: path_components_def
        map_filter_simps segment_def)
  next
    case (2 e)
    have "split_on (CHR ''/'') (d @ n) = split_on (CHR ''/'') e @ [n]"
      using split_on_append [of "CHR ''/''" e n] n(1) by (simp add: 2)
    moreover have "split_on (CHR ''/'') d = split_on (CHR ''/'') e @ [[]]"
      by (simp add: 2 split_on_snoc_sep)
    ultimately show ?thesis
      using n assms by (cases "e = []")
        (simp_all add: path_components_def path_join_def Let_def map_filter_append segment_plain 2
          segment_def [of "[]"] map_filter_simps)
  next
    case 3
    have "split_on (CHR ''/'') (d @ CHR ''/'' # n) = split_on (CHR ''/'') d @ [n]"
      by (simp add: split_on_append n(1))
    then show ?thesis
      using 3 n assms
      by (simp add: path_components_def path_join_def Let_def map_filter_append segment_plain
          hd_append map_filter_simps)
  qed
qed

lemma resolve_join: "plain_name n \<Longrightarrow> resolve cwd (path_join d n) = resolve cwd d @ [n]"
  by (simp add: resolve_def path_components_join)

lemma path_join_nonempty [simp]: "p \<noteq> [] \<Longrightarrow> path_join p q \<noteq> []"
  by (auto simp: path_join_def)

lemma has_parent_dir_components: "has_parent_dir p \<longleftrightarrow> ParentDir \<in> set (path_components p)"
  by (force simp: has_parent_dir_def path_components_def Let_def map_filter_def segment_def
      split: if_splits)

lemma has_parent_dir_join: "plain_name n \<Longrightarrow> has_parent_dir (path_join d n) = has_parent_dir d"
  by (simp add: has_parent_dir_components path_components_join)

section \<open>The file system\<close>

datatype fnode = FDir | FFile string

datatype io_error =
  NotFound | PermissionDenied | AlreadyExists | NotADirectory | IsADirectory | InvalidInput
| DirectoryHasEntries

fun io_message :: "io_error \<Rightarrow> string" where
  "io_message NotFound = ''No such file or directory (os error 2)''"
| "io_message PermissionDenied = ''Permission denied (os error 13)''"
| "io_message AlreadyExists = ''File exists (os error 17)''"
| "io_message NotADirectory = ''Not a directory (os error 20)''"
| "io_message IsADirectory = ''Is a directory (os error 21)''"
| "io_message InvalidInput = ''Invalid argument (os error 22)''"
| "io_message DirectoryHasEntries = ''Directory not empty (os error 39)''"

record fs =
  fs_nodes :: "(string list \<times> fnode) list"
  fs_cwd :: "string list"
  fs_denied :: "string list list"   \<comment> \<open>entries that may not be created, changed or removed\<close>

definition fs_lookup :: "fs \<Rightarrow> string list \<Rightarrow> fnode option" where
  "fs_lookup h k = (if k = [] then Some FDir else map_of (fs_nodes h) k)"

definition fs_put :: "string list \<Rightarrow> fnode \<Rightarrow> fs \<Rightarrow> fs" where
  "fs_put k v h = h\<lparr>fs_nodes := AList.update k v (fs_nodes h)\<rparr>"

definition fs_del :: "string list \<Rightarrow> fs \<Rightarrow> fs" where
  "fs_del k h = h\<lparr>fs_nodes := AList.delete k (fs_nodes h)\<rparr>"

definition move_key :: "string list \<Rightarrow> string list \<Rightarrow> string list \<Rightarrow> string list" where
  "move_key k t j = (if prefix k j then t @ drop (length k) j else j)"

definition fs_move :: "string list \<Rightarrow> string list \<Rightarrow> fs \<Rightarrow> fs" where
  "fs_move k t h = h\<lparr>fs_nodes := map (\<lambda>(j, v). (move_key k t j, v)) (fs_nodes h)\<rparr>"

definition fs_key :: "fs \<Rightarrow> string \<Rightarrow> string list" where
  "fs_key h p = resolve (fs_cwd h) p"

definition fs_children :: "fs \<Rightarrow> string list \<Rightarrow> string list" where
  "fs_children h k =
     map last (filter (\<lambda>j. j \<noteq> [] \<and> butlast j = k) (map fst (fs_nodes h)))"

text \<open>Why an entry is missing: an ancestor that is a file, or nothing there.\<close>

definition missing :: "fs \<Rightarrow> string list \<Rightarrow> io_error" where
  "missing h k =
     (if list_ex (\<lambda>n. case fs_lookup h (take n k) of Some (FFile _) \<Rightarrow> True | _ \<Rightarrow> False) [0..<length k]
      then NotADirectory else NotFound)"

section \<open>The calls\<close>

definition fs_exists :: "fs \<Rightarrow> string \<Rightarrow> bool" where
  "fs_exists h p \<longleftrightarrow> p \<noteq> [] \<and> fs_lookup h (fs_key h p) \<noteq> None"

definition fs_is_dir :: "fs \<Rightarrow> string \<Rightarrow> bool" where
  "fs_is_dir h p \<longleftrightarrow> p \<noteq> [] \<and> fs_lookup h (fs_key h p) = Some FDir"

definition fs_read_to_string :: "fs \<Rightarrow> string \<Rightarrow> io_error + string" where
  "fs_read_to_string h p =
     (if p = [] then Inl NotFound
      else case fs_lookup h (fs_key h p) of
             None \<Rightarrow> Inl (missing h (fs_key h p))
           | Some FDir \<Rightarrow> Inl IsADirectory
           | Some (FFile s) \<Rightarrow> Inr s)"

definition fs_read_dir :: "fs \<Rightarrow> string \<Rightarrow> io_error + string list" where
  "fs_read_dir h p =
     (if p = [] then Inl NotFound
      else case fs_lookup h (fs_key h p) of
             None \<Rightarrow> Inl (missing h (fs_key h p))
           | Some FDir \<Rightarrow> Inr (fs_children h (fs_key h p))
           | Some (FFile _) \<Rightarrow> Inl NotADirectory)"

text \<open>A call that changes the file system: its result and the file system it leaves.\<close>

type_synonym ('e, 'a) io = "fs \<Rightarrow> ('e + 'a) \<times> fs"

definition fs_write :: "string \<Rightarrow> string \<Rightarrow> (io_error, unit) io" where
  "fs_write p text h =
     (let k = fs_key h p
      in if p = [] then (Inl NotFound, h)
         else if fs_lookup h k = Some FDir then (Inl IsADirectory, h)
         else if fs_lookup h (butlast k) \<noteq> Some FDir then (Inl (missing h k), h)
         else if k \<in> set (fs_denied h) then (Inl PermissionDenied, h)
         else (Inr (), fs_put k (FFile text) h))"

definition fs_remove_file :: "string \<Rightarrow> (io_error, unit) io" where
  "fs_remove_file p h =
     (let k = fs_key h p
      in if p = [] then (Inl NotFound, h)
         else case fs_lookup h k of
             None \<Rightarrow> (Inl (missing h k), h)
           | Some FDir \<Rightarrow> (Inl IsADirectory, h)
           | Some (FFile _) \<Rightarrow>
               if k \<in> set (fs_denied h) then (Inl PermissionDenied, h) else (Inr (), fs_del k h))"

fun make_dirs :: "string list list \<Rightarrow> (io_error, unit) io" where
  "make_dirs [] h = (Inr (), h)"
| "make_dirs (k # ks) h =
     (case fs_lookup h k of
        Some FDir \<Rightarrow> make_dirs ks h
      | Some (FFile _) \<Rightarrow> (Inl (if ks = [] then AlreadyExists else NotADirectory), h)
      | None \<Rightarrow>
          if k \<in> set (fs_denied h) then (Inl PermissionDenied, h)
          else make_dirs ks (fs_put k FDir h))"

definition ancestors :: "string list \<Rightarrow> string list list" where
  "ancestors k = map (\<lambda>n. take (Suc n) k) [0..<length k]"

definition fs_create_dir_all :: "string \<Rightarrow> (io_error, unit) io" where
  "fs_create_dir_all p h = (if p = [] then (Inr (), h) else make_dirs (ancestors (fs_key h p)) h)"

definition fs_rename :: "string \<Rightarrow> string \<Rightarrow> (io_error, unit) io" where
  "fs_rename p q h =
     (let k = fs_key h p; t = fs_key h q
      in if p = [] \<or> q = [] then (Inl NotFound, h)
         else case fs_lookup h k of
           None \<Rightarrow> (Inl (missing h k), h)
         | Some v \<Rightarrow>
             if fs_lookup h (butlast t) \<noteq> Some FDir then (Inl (missing h t), h)
             else if k = [] \<or> (strict_prefix k t \<and> v = FDir) then (Inl InvalidInput, h)
             else if k = t then (Inr (), h)
             else if k \<in> set (fs_denied h) \<or> t \<in> set (fs_denied h) then (Inl PermissionDenied, h)
             else case (v, fs_lookup h t) of
               (FDir, Some (FFile _)) \<Rightarrow> (Inl NotADirectory, h)
             | (FFile _, Some FDir) \<Rightarrow> (Inl IsADirectory, h)
             | (FDir, Some FDir) \<Rightarrow>
                 if fs_children h t \<noteq> [] then (Inl DirectoryHasEntries, h)
                 else (Inr (), fs_move k t (fs_del t h))
             | (_, _) \<Rightarrow> (Inr (), fs_move k t (fs_del t h)))"

section \<open>Sequencing\<close>

text \<open>\<open>m?; k\<close> and \<open>m.map_err(f)\<close>.\<close>

definition io_then :: "('e, 'a) io \<Rightarrow> ('a \<Rightarrow> ('e, 'b) io) \<Rightarrow> ('e, 'b) io" where
  "io_then m k h = (case m h of (Inl e, h) \<Rightarrow> (Inl e, h) | (Inr x, h) \<Rightarrow> k x h)"

definition io_map_err :: "('e \<Rightarrow> 'f) \<Rightarrow> ('e, 'a) io \<Rightarrow> ('f, 'a) io" where
  "io_map_err f m h = (case m h of (Inl e, h) \<Rightarrow> (Inl (f e), h) | (Inr x, h) \<Rightarrow> (Inr x, h))"

definition io_return :: "'a \<Rightarrow> ('e, 'a) io" where
  "io_return x h = (Inr x, h)"

definition io_fail :: "'e \<Rightarrow> ('e, 'a) io" where
  "io_fail e h = (Inl e, h)"

text \<open>A pure fallible step that reads the current file system.\<close>

definition io_get :: "(fs \<Rightarrow> 'e + 'a) \<Rightarrow> ('e, 'a) io" where
  "io_get f h = (f h, h)"

lemma io_then_Inr [simp]:
  "io_then m k h = (Inr y, h'') \<longleftrightarrow> (\<exists>x h'. m h = (Inr x, h') \<and> k x h' = (Inr y, h''))"
  by (auto simp: io_then_def split: prod.splits sum.splits)

lemma io_map_err_Inr [simp]: "io_map_err f m h = (Inr y, h') \<longleftrightarrow> m h = (Inr y, h')"
  by (auto simp: io_map_err_def split: prod.splits sum.splits)

lemma io_simps [simp]:
  "io_return x h = (Inr y, h') \<longleftrightarrow> y = x \<and> h' = h"
  "io_fail e h = (Inr y, h') \<longleftrightarrow> False"
  "io_get f h = (Inr y, h') \<longleftrightarrow> f h = Inr y \<and> h' = h"
  by (auto simp: io_return_def io_fail_def io_get_def)

section \<open>What the calls do to a lookup\<close>

lemma lookup_put: "k \<noteq> [] \<Longrightarrow> fs_lookup (fs_put k v h) j = (if j = k then Some v else fs_lookup h j)"
  by (simp add: fs_lookup_def fs_put_def update_conv')

lemma lookup_del: "k \<noteq> [] \<Longrightarrow> fs_lookup (fs_del k h) j = (if j = k then None else fs_lookup h j)"
  by (simp add: fs_lookup_def fs_del_def delete_conv')

lemma fs_update_fields [simp]:
  "fs_cwd (fs_put k v h) = fs_cwd h" "fs_denied (fs_put k v h) = fs_denied h"
  "fs_cwd (fs_del k h) = fs_cwd h" "fs_denied (fs_del k h) = fs_denied h"
  "fs_cwd (fs_move k t h) = fs_cwd h" "fs_denied (fs_move k t h) = fs_denied h"
  by (simp_all add: fs_put_def fs_del_def fs_move_def)

lemma lookup_root [simp]: "fs_lookup h [] = Some FDir"
  by (simp add: fs_lookup_def)

text \<open>Every entry stands in a directory.\<close>

definition fs_wf :: "fs \<Rightarrow> bool" where
  "fs_wf h \<longleftrightarrow> [] \<notin> fst ` set (fs_nodes h) \<and>
     (\<forall>k. k \<noteq> [] \<longrightarrow> fs_lookup h k \<noteq> None \<longrightarrow> fs_lookup h (butlast k) = Some FDir)"

lemma wf_ancestor:
  assumes "fs_wf h" "fs_lookup h (k @ s) \<noteq> None" "s \<noteq> []"
  shows "fs_lookup h k = Some FDir"
  using assms(2,3)
proof (induction s rule: rev_induct)
  case (snoc x s)
  have "fs_lookup h (k @ s) = Some FDir"
    using assms(1) snoc.prems(1) unfolding fs_wf_def by (metis append_assoc append_is_Nil_conv butlast_snoc list.simps(3))
  then show ?case using snoc.IH by (cases "s = []") auto
qed simp

lemma wf_put:
  assumes "fs_wf h" "k \<noteq> []" "fs_lookup h (butlast k) = Some FDir"
    and "v = FDir \<or> fs_lookup h k \<noteq> Some FDir"
  shows "fs_wf (fs_put k v h)"
proof -
  have "butlast k \<noteq> k" using assms(2) by (metis append_butlast_last_id append_self_conv list.simps(3))
  moreover have "fs_lookup h j = None" if "j \<noteq> []" "butlast j = k" "v \<noteq> FDir" for j
    using that assms(1,4) unfolding fs_wf_def by blast
  moreover have "fst ` set (fs_nodes (fs_put k v h)) = insert k (fst ` set (fs_nodes h))"
    using dom_update [of k v "fs_nodes h"] by (simp add: fs_put_def)
  ultimately show ?thesis
    using assms by (auto simp: fs_wf_def lookup_put)
qed

lemma wf_del:
  assumes "fs_wf h" "k \<noteq> []" "fs_lookup h k \<noteq> Some FDir"
  shows "fs_wf (fs_del k h)"
proof -
  have "set (map fst (fs_nodes (fs_del k h))) \<subseteq> set (map fst (fs_nodes h))"
    unfolding fs_del_def by (simp del: set_map add: delete_keys)
  then show ?thesis using assms by (auto simp: fs_wf_def lookup_del)
qed

lemma set_children: "set (fs_children h k) = {n. k @ [n] \<in> fst ` set (fs_nodes h)}"
proof -
  have "last j = n \<and> j \<noteq> [] \<and> butlast j = k \<longleftrightarrow> j = k @ [n]" for j :: "string list" and n
    by (auto simp: snoc_eq_iff_butlast)
  then show ?thesis unfolding fs_children_def by (auto simp: image_iff) (metis fst_conv)+
qed

lemma in_children: "n \<in> set (fs_children h k) \<longleftrightarrow> fs_lookup h (k @ [n]) \<noteq> None"
  by (simp add: set_children fs_lookup_def map_of_eq_None_iff)

lemma lookup_move:
  assumes "\<forall>j \<in> fst ` set (fs_nodes h). \<not> prefix t j" "\<not> prefix k t" "t \<noteq> []" "k \<noteq> []"
  shows "fs_lookup (fs_move k t h) j =
    (if prefix t j then map_of (fs_nodes h) (k @ drop (length t) j)
     else if prefix k j then None else fs_lookup h j)"
proof (cases "j = []")
  case False
  have moved: "map_of (map (\<lambda>(j, v). (move_key k t j, v)) nodes) j =
      (if prefix t j then map_of nodes (k @ drop (length t) j)
       else if prefix k j then None else map_of nodes j)"
    if "\<forall>j \<in> fst ` set nodes. \<not> prefix t j" for nodes
    using that
  proof (induction nodes)
    case (Cons e nodes)
    obtain i v where e: "e = (i, v)" by (cases e)
    have "\<not> prefix t i" using Cons.prems by (simp add: e)
    then have "move_key k t i = j \<longleftrightarrow>
        (if prefix t j then i = k @ drop (length t) j else \<not> prefix k j \<and> i = j)"
      using assms(2) by (auto simp: move_key_def prefix_def)
    with Cons show ?case by (cases "prefix t j"; cases "prefix k j") (auto simp: e)
  qed simp
  show ?thesis using False by (simp add: fs_lookup_def fs_move_def moved [OF assms(1)])
next
  case True
  with assms(3,4) show ?thesis by simp
qed

section \<open>Framing\<close>

text \<open>
  A reflexive and transitive relation between file systems that each step keeps is kept by
  their composition.
\<close>

definition io_keeps :: "(fs \<Rightarrow> fs \<Rightarrow> bool) \<Rightarrow> ('e, 'a) io \<Rightarrow> bool" where
  "io_keeps R m \<longleftrightarrow> (\<forall>h. R h (snd (m h)))"

locale io_frame =
  fixes R :: "fs \<Rightarrow> fs \<Rightarrow> bool"
  assumes frame_refl: "R h h" and frame_trans: "R h i \<Longrightarrow> R i j \<Longrightarrow> R h j"
begin

lemma keeps_then: "io_keeps R m \<Longrightarrow> (\<And>x. io_keeps R (k x)) \<Longrightarrow> io_keeps R (io_then m k)"
  unfolding io_keeps_def io_then_def
  by (auto split: prod.splits sum.splits intro: frame_trans) (metis frame_trans snd_conv)+

lemma keeps_map_err: "io_keeps R m \<Longrightarrow> io_keeps R (io_map_err f m)"
  unfolding io_keeps_def io_map_err_def by (auto split: prod.splits sum.splits) (metis snd_conv)+

lemma keeps_pure: "io_keeps R (io_return x)" "io_keeps R (io_fail e)" "io_keeps R (io_get f)"
  by (simp_all add: io_keeps_def io_return_def io_fail_def io_get_def frame_refl)

end

text \<open>Nothing changes outside the entries \<open>K\<close>.\<close>

definition fs_frame :: "(string list \<Rightarrow> bool) \<Rightarrow> fs \<Rightarrow> fs \<Rightarrow> bool" where
  "fs_frame K h h' \<longleftrightarrow> fs_cwd h' = fs_cwd h \<and> fs_denied h' = fs_denied h \<and>
     (\<forall>k. \<not> K k \<longrightarrow> fs_lookup h' k = fs_lookup h k)"

interpretation frame: io_frame "fs_frame K" for K
  by unfold_locales (auto simp: fs_frame_def)

end
