(* ===== verification/Decimal.thy ===== *)
theory Decimal
  imports Prelude
begin

text \<open>
  Decimal text: the rendering of \<open>Prelude\<close> is injective and made of digits, and Rust's
  \<open>str::parse\<close> for \<open>u64\<close> inverts it.
\<close>

definition digit_value :: "char \<Rightarrow> nat option" where
  "digit_value ch =
     (let n = (of_char ch :: nat) in if 48 \<le> n \<and> n \<le> 57 then Some (n - 48) else None)"

text \<open>The checked multiply-and-add over the digits; \<open>None\<close> is an invalid digit or an overflow.\<close>

fun parse_digits :: "nat \<Rightarrow> nat \<Rightarrow> string \<Rightarrow> nat option" where
  "parse_digits bound acc [] = Some acc"
| "parse_digits bound acc (ch # s) =
     (case digit_value ch of
        None \<Rightarrow> None
      | Some d \<Rightarrow> if 10 * acc + d < bound then parse_digits bound (10 * acc + d) s else None)"

definition parse_u64 :: "string \<Rightarrow> u64 option" where
  "parse_u64 s =
     (let digits = (case s of ch # r \<Rightarrow> if ch = CHR ''+'' then r else s | [] \<Rightarrow> s)
      in if digits = [] then None else map_option word_of_nat (parse_digits (2 ^ 64) 0 digits))"

lemma digit_value_char: "d < 10 \<Longrightarrow> digit_value (char_of (48 + d)) = Some d"
  by (simp add: digit_value_def)

lemma parse_digits_append:
  "parse_digits b a (s @ t) = Option.bind (parse_digits b a s) (\<lambda>a. parse_digits b a t)"
  by (induction b a s rule: parse_digits.induct) (simp_all split: option.splits)

lemma parse_digits_show: "n < b \<Longrightarrow> parse_digits b 0 (show_nat n) = Some n"
proof (induction n rule: less_induct)
  case (less n)
  show ?case
  proof (cases "n < 10")
    case True
    then show ?thesis using less.prems by (subst show_nat.simps) (simp add: digit_value_char)
  next
    case False
    have "n div 10 < n" "n div 10 < b" using False less.prems by auto
    then have "parse_digits b 0 (show_nat (n div 10)) = Some (n div 10)" by (rule less.IH)
    then show ?thesis using False less.prems
      by (subst show_nat.simps) (simp add: parse_digits_append digit_value_char)
  qed
qed

lemma show_nat_inject: "show_nat m = show_nat n \<longleftrightarrow> m = n"
proof
  assume eq: "show_nat m = show_nat n"
  have "parse_digits (Suc (max m n)) 0 (show_nat m) = Some m"
    "parse_digits (Suc (max m n)) 0 (show_nat n) = Some n"
    by (rule parse_digits_show; simp)+
  with eq show "m = n" by (metis option.inject)
qed simp

lemma show_u64_inject: "show_u64 v = show_u64 w \<longleftrightarrow> v = w"
  by (auto simp: show_u64_def show_nat_inject intro: unsigned_word_eqI)

definition digits_only :: "string \<Rightarrow> bool" where
  "digits_only s \<longleftrightarrow> (\<forall>ch \<in> set s. digit_value ch \<noteq> None)"

lemma digits_only_parse: "parse_digits b a s = Some n \<Longrightarrow> digits_only s"
  by (induction b a s rule: parse_digits.induct)
    (auto simp: digits_only_def split: option.splits if_splits)

lemma show_nat_digits: "digits_only (show_nat n)"
  using parse_digits_show [of n "Suc n"] by (intro digits_only_parse) auto

lemma show_u64_digits: "digits_only (show_u64 w)"
  by (simp add: show_u64_def show_nat_digits)

lemma digits_no: "digits_only s \<Longrightarrow> digit_value ch = None \<Longrightarrow> ch \<notin> set s"
  by (auto simp: digits_only_def)

lemma parse_show_u64 [simp]: "parse_u64 (show_u64 w) = Some w"
proof -
  have "CHR ''+'' \<notin> set (show_u64 w)"
    by (intro digits_no [OF show_u64_digits]) (simp add: digit_value_def)
  then have "(case show_u64 w of ch # r \<Rightarrow> if ch = CHR ''+'' then r else show_u64 w | [] \<Rightarrow> show_u64 w) =
      show_u64 w"
    by (auto split: list.splits)
  moreover have "unat w < 2 ^ 64" using unsigned_less [where ?'a = nat, of w] by simp
  ultimately show ?thesis by (simp add: parse_u64_def parse_digits_show) (simp add: show_u64_def parse_digits_show)
qed

end
