(* ===== verification/Artifact_Writer.thy ===== *)
theory Artifact_Writer
  imports Artifacts Filesystem Decimal
begin

text \<open>
  \<open>ArtifactWriter\<close> of \<open>artifacts.rs\<close> over the file system: path validation, opening a
  directory in place or rotating what it holds, the writes of a bundle, and reading the log
  back. The text \<open>serde_json\<close> produces is the parameter \<open>json\<close>; \<open>json_ok\<close> states that these
  records, which hold no map with keys that are not strings, serialize, and that a
  serialized log parses back without its index, which is skipped.
\<close>

record json =
  json_log :: "coordination_log \<Rightarrow> string + string"
  json_log_parse :: "string \<Rightarrow> string + coordination_log"
  json_report :: "verifier_report \<Rightarrow> string + string"
  json_status :: "run_status \<Rightarrow> string + string"
  json_receipt :: "completion_receipt_record \<Rightarrow> string + string"

definition json_writes :: "json \<Rightarrow> bool" where
  "json_writes j \<longleftrightarrow> (\<forall>l. is_ok (json_log j l)) \<and> (\<forall>r. is_ok (json_report j r)) \<and>
     (\<forall>st. is_ok (json_status j st)) \<and> (\<forall>r. is_ok (json_receipt j r))"

definition json_ok :: "json \<Rightarrow> bool" where
  "json_ok j \<longleftrightarrow> json_writes j \<and>
     (\<forall>l s. log_ids_wf l \<longrightarrow> json_log j l = Inr s \<longrightarrow>
        json_log_parse j s = Inr (l\<lparr>log_commitment_keys := {}\<rparr>))"

lemma json_ok_writes: "json_ok j \<Longrightarrow> json_writes j"
  by (simp add: json_ok_def)

definition artifact_io :: "io_error \<Rightarrow> artifact_error" where
  "artifact_io e = ArtifactIo (io_message e)"

section \<open>Opening a directory\<close>

fun validate_components :: "path_component list \<Rightarrow> artifact_error + unit" where
  "validate_components [] = Inr ()"
| "validate_components (ParentDir # cs) =
     Inl (InvalidOutputPath ''path must not contain '..' segments'')"
| "validate_components (Normal seg # cs) =
     (if trim seg = []
      then Inl (InvalidOutputPath ''path contains empty or whitespace-only segment'')
      else validate_components cs)"
| "validate_components (_ # cs) = validate_components cs"

definition validate_output_path :: "string \<Rightarrow> artifact_error + unit" where
  "validate_output_path path =
     (if path = [] then Inl (InvalidOutputPath ''empty path'')
      else validate_components (path_components path))"

lemma validate_no_parent: "validate_output_path p = Inr () \<Longrightarrow> p \<noteq> [] \<and> \<not> has_parent_dir p"
proof -
  have "validate_components cs = Inr () \<Longrightarrow> ParentDir \<notin> set cs" for cs
    by (induction cs rule: validate_components.induct) (auto split: if_splits)
  then show "validate_output_path p = Inr () \<Longrightarrow> ?thesis"
    by (auto simp: validate_output_path_def has_parent_dir_components split: if_splits)
qed

record artifact_writer =
  aw_dir :: string

definition writer_new :: "string \<Rightarrow> (artifact_error, artifact_writer) io" where
  "writer_new dir =
     io_then (io_get (\<lambda>_. validate_output_path dir)) (\<lambda>_ h.
       if fs_exists h dir then
         if \<not> fs_is_dir h dir
         then (Inl (InvalidOutputPath ''artifact path exists and is not a directory''), h)
         else (Inr \<lparr>aw_dir = dir\<rparr>, h)
       else io_then (io_map_err artifact_io (fs_create_dir_all dir))
              (\<lambda>_. io_return \<lparr>aw_dir = dir\<rparr>) h)"

definition prev_name :: "string \<Rightarrow> u64 \<Rightarrow> string" where
  "prev_name stem version = stem @ ''.prev-'' @ show_u64 version"

text \<open>
  The loop looking for an unused \<open>.prev-N\<close>; it may not end, so its result is an option. The
  counter wraps as in a release build.
\<close>

partial_function (option) free_target :: "fs \<Rightarrow> string \<Rightarrow> string \<Rightarrow> u64 \<Rightarrow> string option" where
  "free_target h parent stem version =
     (let target = path_join parent (prev_name stem version)
      in if fs_exists h target then free_target h parent stem (version + 1) else Some target)"

definition rotate_into :: "string \<Rightarrow> string \<Rightarrow> (artifact_error, string option) io" where
  "rotate_into dir target =
     io_then (io_map_err artifact_io (fs_rename dir target)) (\<lambda>_.
     io_then (io_map_err artifact_io (fs_create_dir_all dir)) (\<lambda>_.
     io_return (Some target)))"

definition rotate_existing ::
  "string \<Rightarrow> fs \<Rightarrow> ((artifact_error + string option) \<times> fs) option" where
  "rotate_existing dir h =
     (if \<not> fs_is_dir h dir
      then Some (Inl (InvalidOutputPath ''artifact path exists and is not a directory''), h)
      else case fs_read_dir h dir of
        Inl e \<Rightarrow> Some (Inl (artifact_io e), h)
      | Inr names \<Rightarrow>
          if names = [] then Some (Inr None, h)
          else case path_parent dir of
            None \<Rightarrow> Some (Inl (InvalidOutputPath ''artifact dir has no parent for rotation''), h)
          | Some parent \<Rightarrow>
              (case path_file_name dir of
                 None \<Rightarrow> Some (Inl (InvalidOutputPath ''artifact dir has non-utf8 name''), h)
               | Some stem \<Rightarrow>
                   map_option (\<lambda>target. rotate_into dir target h) (free_target h parent stem 1)))"

definition open_versioned ::
  "string \<Rightarrow> fs \<Rightarrow> ((artifact_error + artifact_writer \<times> string option) \<times> fs) option" where
  "open_versioned dir h =
     (case validate_output_path dir of
        Inl e \<Rightarrow> Some (Inl e, h)
      | Inr _ \<Rightarrow>
          map_option (\<lambda>r. io_then (\<lambda>_. r) (\<lambda>rotated_to. io_return (\<lparr>aw_dir = dir\<rparr>, rotated_to)) h)
            (if fs_exists h dir then rotate_existing dir h
             else Some (io_then (io_map_err artifact_io (fs_create_dir_all dir)) (\<lambda>_. io_return None) h)))"

section \<open>Writing a bundle\<close>

definition write_file :: "string \<Rightarrow> string \<Rightarrow> (artifact_error, unit) io" where
  "write_file path text = io_map_err artifact_io (fs_write path text)"

definition write_coordination_log ::
  "json \<Rightarrow> artifact_writer \<Rightarrow> coordination_log \<Rightarrow> (artifact_error, string) io" where
  "write_coordination_log j w log h =
     (let out = path_join (aw_dir w) ''coordination_log.json''
      in if fs_exists h out then (Inl (DirectoryNotEmpty out), h)
         else case json_log j log of
           Inl e \<Rightarrow> (Inl (Serialization e), h)
         | Inr text \<Rightarrow> io_then (write_file out text) (\<lambda>_. io_return out) h)"

definition write_verifier_report ::
  "json \<Rightarrow> artifact_writer \<Rightarrow> verifier_report \<Rightarrow> (artifact_error, string) io" where
  "write_verifier_report j w report =
     (let out = path_join (aw_dir w) ''verifier_report.json''
      in case json_report j report of
           Inl e \<Rightarrow> io_fail (Serialization e)
         | Inr text \<Rightarrow> io_then (write_file out text) (\<lambda>_. io_return out))"

definition write_run_status ::
  "json \<Rightarrow> artifact_writer \<Rightarrow> run_status \<Rightarrow> (artifact_error, string) io" where
  "write_run_status j w status =
     (let out = path_join (aw_dir w) ''run_status.json''
      in case json_status j status of
           Inl e \<Rightarrow> io_fail (Serialization e)
         | Inr text \<Rightarrow> io_then (write_file out text) (\<lambda>_. io_return out))"

definition write_receipt_copy ::
  "json \<Rightarrow> artifact_writer \<Rightarrow> completion_receipt_record option \<Rightarrow>
     (artifact_error, string option) io" where
  "write_receipt_copy j w receipt =
     (case receipt of
        None \<Rightarrow> io_return None
      | Some r \<Rightarrow>
          let out = path_join (aw_dir w) ''completion_receipt.json''
          in case json_receipt j r of
               Inl e \<Rightarrow> io_fail (Serialization e)
             | Inr text \<Rightarrow> io_then (write_file out text) (\<lambda>_. io_return (Some out)))"

definition write_bundle_readme ::
  "artifact_writer \<Rightarrow> string \<Rightarrow> (artifact_error, string) io" where
  "write_bundle_readme w body =
     (let out = path_join (aw_dir w) ''bundle_README.md''
      in io_then (write_file out body) (\<lambda>_. io_return out))"

definition read_coordination_log ::
  "json \<Rightarrow> fs \<Rightarrow> string \<Rightarrow> artifact_error + coordination_log" where
  "read_coordination_log j h dir =
     (case fs_read_to_string h (path_join dir ''coordination_log.json'') of
        Inl e \<Rightarrow> Inl (artifact_io e)
      | Inr text \<Rightarrow>
          (case json_log_parse j text of
             Inl e \<Rightarrow> Inl (Serialization e)
           | Inr log \<Rightarrow> (case reindex log of (Inl e, _) \<Rightarrow> Inl e | (Inr _, log) \<Rightarrow> Inr log)))"

section \<open>The names a bundle uses\<close>

lemma bundle_names [simp]:
  "plain_name ''coordination_log.json''" "plain_name ''verifier_report.json''"
  "plain_name ''run_status.json''" "plain_name ''completion_receipt.json''"
  "plain_name ''bundle_README.md''" "plain_name ''topology.toml''" "plain_name ''scenario.toml''"
  by (simp_all add: plain_name_def)

lemma fs_key_join [simp]: "plain_name n \<Longrightarrow> fs_key h (path_join d n) = fs_key h d @ [n]"
  by (simp add: fs_key_def resolve_join)

lemma fs_key_put [simp]: "fs_key (fs_put k v h) p = fs_key h p"
  by (simp add: fs_key_def)

lemma fs_write_Inr:
  "fs_write p text h = (Inr (), h') \<longleftrightarrow>
     p \<noteq> [] \<and> fs_lookup h (fs_key h p) \<noteq> Some FDir \<and> fs_lookup h (butlast (fs_key h p)) = Some FDir \<and>
     fs_key h p \<notin> set (fs_denied h) \<and> h' = fs_put (fs_key h p) (FFile text) h"
  by (auto simp: fs_write_def Let_def)

lemma fs_write_Inl: "fs_write p text h = (Inl e, h') \<Longrightarrow> h' = h"
  by (auto simp: fs_write_def Let_def split: if_splits)

lemma write_file_Inr [simp]: "write_file p text h = (Inr u, h') \<longleftrightarrow> fs_write p text h = (Inr u, h')"
  by (simp add: write_file_def)

lemma write_coordination_log_Inr:
  "write_coordination_log j w log h = (Inr out, h') \<longleftrightarrow>
     out = path_join (aw_dir w) ''coordination_log.json'' \<and> \<not> fs_exists h out \<and>
     (\<exists>text. json_log j log = Inr text \<and> fs_write out text h = (Inr (), h'))"
  by (auto simp: write_coordination_log_def Let_def split: sum.splits)

text \<open>A writer never replaces a log that is there.\<close>

lemma write_log_refuses:
  assumes "fs_exists h (path_join (aw_dir w) ''coordination_log.json'')"
  shows "write_coordination_log j w log h =
    (Inl (DirectoryNotEmpty (path_join (aw_dir w) ''coordination_log.json'')), h)"
  using assms by (simp add: write_coordination_log_def Let_def)

lemma write_steps_Inr:
  "write_verifier_report j w report h = (Inr out, h') \<longleftrightarrow>
     out = path_join (aw_dir w) ''verifier_report.json'' \<and>
     (\<exists>text. json_report j report = Inr text \<and> fs_write out text h = (Inr (), h'))"
  "write_run_status j w status h = (Inr out, h') \<longleftrightarrow>
     out = path_join (aw_dir w) ''run_status.json'' \<and>
     (\<exists>text. json_status j status = Inr text \<and> fs_write out text h = (Inr (), h'))"
  "write_bundle_readme w body h = (Inr out, h') \<longleftrightarrow>
     out = path_join (aw_dir w) ''bundle_README.md'' \<and> fs_write out body h = (Inr (), h')"
  by (auto simp: write_verifier_report_def write_run_status_def write_bundle_readme_def Let_def
      split: sum.splits)

lemma write_receipt_copy_Inr:
  "write_receipt_copy j w receipt h = (Inr out, h') \<longleftrightarrow>
     (case receipt of
        None \<Rightarrow> out = None \<and> h' = h
      | Some r \<Rightarrow> \<exists>text. json_receipt j r = Inr text \<and>
          out = Some (path_join (aw_dir w) ''completion_receipt.json'') \<and>
          fs_write (path_join (aw_dir w) ''completion_receipt.json'') text h = (Inr (), h'))"
  by (auto simp: write_receipt_copy_def Let_def split: option.splits sum.splits)

text \<open>What was serialized is what is read, whatever else changed in between.\<close>

lemma read_back_log:
  assumes "json_ok j" "log_indexed log" "log_ids_wf log" "json_log j log = Inr s" "dir \<noteq> []"
    and "fs_lookup h (fs_key h dir @ [''coordination_log.json'']) = Some (FFile s)"
  shows "read_coordination_log j h dir = Inr log"
proof -
  have "json_log_parse j s = Inr (log\<lparr>log_commitment_keys := {}\<rparr>)"
    using assms(1,3,4) by (simp add: json_ok_def)
  with assms show ?thesis
    by (simp add: read_coordination_log_def fs_read_to_string_def reindex_restores)
qed

section \<open>The search for a free name ends\<close>

lemma segments_plain: "Normal n \<in> set (path_components p) \<Longrightarrow> plain_name n"
proof -
  assume "Normal n \<in> set (path_components p)"
  then have "n \<in> set (split_on (CHR ''/'') p)" "n \<noteq> []" "n \<noteq> ''.''" "n \<noteq> ''..''"
    by (auto simp: path_components_def Let_def map_filter_def segment_def split: if_splits)
  moreover have "d \<notin> set s" if "s \<in> set (split_on d xs)" for s d and xs :: string
    using that by (induction xs arbitrary: s) (auto split: if_splits list.splits)
  ultimately show "plain_name n" by (auto simp: plain_name_def)
qed

lemma file_name_plain: "path_file_name p = Some n \<Longrightarrow> plain_name n"
  by (intro segments_plain [of n p])
    (auto simp: path_file_name_def split: list.splits path_component.splits dest: rev_eq_Cons_iff [THEN iffD1])

lemma prev_name_plain: "plain_name stem \<Longrightarrow> plain_name (prev_name stem v)"
proof -
  have "CHR ''/'' \<notin> set (show_u64 v)"
    by (intro digits_no [OF show_u64_digits]) (simp add: digit_value_def)
  then show "plain_name stem \<Longrightarrow> plain_name (prev_name stem v)"
    by (auto simp: plain_name_def prev_name_def append_eq_Cons_conv)
qed

lemma prev_name_inject: "prev_name stem v = prev_name stem w \<longleftrightarrow> v = w"
  by (simp add: prev_name_def show_u64_inject)

definition target_key :: "fs \<Rightarrow> string \<Rightarrow> string \<Rightarrow> u64 \<Rightarrow> string list" where
  "target_key h parent stem v = fs_key h parent @ [prev_name stem v]"

lemma path_join_name: "plain_name n \<Longrightarrow> path_join p n \<noteq> []"
  by (auto simp: path_join_def plain_name_def)

lemma fs_exists_target:
  "plain_name stem \<Longrightarrow> fs_exists h (path_join parent (prev_name stem v)) \<longleftrightarrow>
     fs_lookup h (target_key h parent stem v) \<noteq> None"
  by (simp add: fs_exists_def target_key_def prev_name_plain path_join_name)

text \<open>Fewer entries than version numbers leave one of them free.\<close>

lemma free_version_exists:
  assumes "length (fs_nodes h) < 2 ^ 64 - 1"
  shows "\<exists>n. 1 \<le> n \<and> n < 2 ^ 64 \<and> fs_lookup h (target_key h parent stem (word_of_nat n)) = None"
proof (rule ccontr)
  assume none: "\<not> ?thesis"
  let ?key = "\<lambda>n. target_key h parent stem (word_of_nat n)"
  have "?key ` {1..<2 ^ 64} \<subseteq> fst ` set (fs_nodes h)"
    using none by (auto simp: fs_lookup_def target_key_def map_of_eq_None_iff) 
  then have "card (?key ` {1..<2 ^ 64}) \<le> card (fst ` set (fs_nodes h))"
    by (intro card_mono) auto
  also have "\<dots> \<le> length (fs_nodes h)"
    by (metis card_image_le card_length finite_set le_trans)
  also have "card (?key ` {1..<2 ^ 64}) = 2 ^ 64 - 1"
  proof -
    have "inj_on ?key {1..<2 ^ 64}"
    proof (rule inj_onI)
      fix m n :: nat assume mn: "m \<in> {1..<2 ^ 64}" "n \<in> {1..<2 ^ 64}" "?key m = ?key n"
      then have "(word_of_nat m :: u64) = word_of_nat n" by (simp add: target_key_def prev_name_inject)
      then have "unat (word_of_nat m :: u64) = unat (word_of_nat n :: u64)" by simp
      with mn(1,2) show "m = n" by (simp only: unat_of_nat) (simp add: take_bit_nat_eq_self)
    qed
    then have "card (?key ` {1..<2 ^ 64}) = card {1..<2 ^ 64 :: nat}" by (rule card_image)
    then show ?thesis by (simp only: card_atLeastLessThan)
  qed
  finally show False using assms by simp
qed

lemma free_target_reaches:
  assumes "plain_name stem" "i \<le> n" "fs_lookup h (target_key h parent stem (word_of_nat n)) = None"
    and "\<And>m. i \<le> m \<Longrightarrow> m < n \<Longrightarrow> fs_lookup h (target_key h parent stem (word_of_nat m)) \<noteq> None"
  shows "free_target h parent stem (word_of_nat i) = Some (path_join parent (prev_name stem (word_of_nat n)))"
  using assms(2,4)
proof (induction "n - i" arbitrary: i)
  case 0
  then have "i = n" by simp
  then show ?case using assms(1,3) by (subst free_target.simps) (simp add: fs_exists_target Let_def)
next
  case (Suc d)
  then have "free_target h parent stem (word_of_nat (Suc i)) =
      Some (path_join parent (prev_name stem (word_of_nat n)))" by (intro Suc.hyps(1)) auto
  moreover have "fs_exists h (path_join parent (prev_name stem (word_of_nat i)))"
    using Suc by (simp add: fs_exists_target assms(1))
  ultimately show ?case by (subst free_target.simps) (simp add: Let_def add.commute)
qed

lemma free_target_least:
  assumes "plain_name stem" "length (fs_nodes h) < 2 ^ 64 - 1"
  shows "\<exists>n. 1 \<le> n \<and> n < 2 ^ 64 \<and>
    free_target h parent stem 1 = Some (path_join parent (prev_name stem (word_of_nat n))) \<and>
    fs_lookup h (target_key h parent stem (word_of_nat n)) = None \<and>
    (\<forall>m. 1 \<le> m \<and> m < n \<longrightarrow> fs_lookup h (target_key h parent stem (word_of_nat m)) \<noteq> None)"
proof -
  let ?P = "\<lambda>n. 1 \<le> n \<and> n < 2 ^ 64 \<and> fs_lookup h (target_key h parent stem (word_of_nat n)) = None"
  let ?n = "LEAST n. ?P n"
  have P: "?P ?n" using free_version_exists [OF assms(2)] by (rule LeastI_ex)
  have below: "fs_lookup h (target_key h parent stem (word_of_nat m)) \<noteq> None" if "1 \<le> m" "m < ?n" for m
    using not_less_Least [OF that(2)] that P by auto
  have "free_target h parent stem (word_of_nat 1) =
      Some (path_join parent (prev_name stem (word_of_nat ?n)))"
    using P below by (intro free_target_reaches [OF assms(1)]) auto
  with P below show ?thesis by (intro exI [of _ ?n]) auto
qed

lemma free_target_free:
  assumes "plain_name stem" "free_target h parent stem v = Some target"
  shows "fs_lookup h (fs_key h target) = None \<and> (\<exists>w. target = path_join parent (prev_name stem w))"
proof (rule free_target.raw_induct
    [where P = "\<lambda>h p s v t. plain_name s \<longrightarrow>
      fs_lookup h (fs_key h t) = None \<and> (\<exists>w. t = path_join p (prev_name s w))",
      OF _ assms(2), THEN mp, OF _ assms(1)])
  fix f h p s v t
  assume IH: "\<And>h p s v t. f h p s v = Some t \<Longrightarrow> plain_name s \<longrightarrow>
      fs_lookup h (fs_key h t) = None \<and> (\<exists>w. t = path_join p (prev_name s w))"
    and eq: "(let target = path_join p (prev_name s v)
      in if fs_exists h target then f h p s (v + 1) else Some target) = Some t"
  show "plain_name s \<longrightarrow> fs_lookup h (fs_key h t) = None \<and> (\<exists>w. t = path_join p (prev_name s w))"
    using eq IH [of h p s "v + 1" t]
    by (auto simp: Let_def fs_exists_target target_key_def prev_name_plain split: if_splits)
qed

section \<open>What opening a directory does\<close>

text \<open>
  \<open>rotated k t h h'\<close>: everything under \<open>k\<close> now stands under the formerly unused \<open>t\<close>, and \<open>k\<close>
  is an empty directory.
\<close>

definition rotated :: "string list \<Rightarrow> string list \<Rightarrow> fs \<Rightarrow> fs \<Rightarrow> bool" where
  "rotated k t h h' \<longleftrightarrow> fs_cwd h' = fs_cwd h \<and> fs_denied h' = fs_denied h \<and> fs_lookup h t = None \<and>
     (\<forall>s. s \<noteq> [] \<longrightarrow> fs_lookup h' (k @ s) = None) \<and> fs_lookup h' k = Some FDir \<and>
     (\<forall>s. fs_lookup h' (t @ s) = fs_lookup h (k @ s)) \<and>
     (\<forall>j. \<not> prefix k j \<longrightarrow> \<not> prefix t j \<longrightarrow> fs_lookup h' j = fs_lookup h j)"

lemma make_dirs_existing:
  "\<forall>k \<in> set ks. fs_lookup h k = Some FDir \<Longrightarrow> make_dirs ks h = (Inr (), h)"
  by (induction ks) auto

lemma make_dirs_last:
  assumes "\<forall>i \<in> set ks. fs_lookup h i = Some FDir" "fs_lookup h k = None"
  shows "make_dirs (ks @ [k]) h =
    (if k \<in> set (fs_denied h) then (Inl PermissionDenied, h) else (Inr (), fs_put k FDir h))"
  using assms by (induction ks) auto

lemma ancestors_snoc: "k \<noteq> [] \<Longrightarrow> ancestors k = ancestors (butlast k) @ [k]"
  by (cases k rule: rev_cases) (auto simp: ancestors_def)

lemma ancestors_prefix: "i \<in> set (ancestors (butlast k)) \<Longrightarrow> strict_prefix i k"
  by (cases k rule: rev_cases) (auto simp: ancestors_def strict_prefix_def take_is_prefix prefix_snoc
      dest: arg_cong [where f = length])

lemma unused_target:
  assumes "fs_wf h" "fs_lookup h t = None"
  shows "fs_lookup h (t @ s) = None" "\<forall>j \<in> fst ` set (fs_nodes (fs_del t h)). \<not> prefix t j"
proof -
  show free: "fs_lookup h (t @ s) = None" for s
    using assms wf_ancestor [of h t s] by (metis append_Nil2 option.distinct(1))
  have "t \<noteq> []" using assms(2) by auto
  have "fs_lookup (fs_del t h) (t @ s) = None" for s
    using free [of s] by (simp add: lookup_del [OF \<open>t \<noteq> []\<close>])
  then have "t @ s \<notin> fst ` set (fs_nodes (fs_del t h))" for s
    using \<open>t \<noteq> []\<close> by (simp add: fs_lookup_def map_of_eq_None_iff)
  then show "\<forall>j \<in> fst ` set (fs_nodes (fs_del t h)). \<not> prefix t j"
    unfolding prefix_def by blast
qed

lemma rename_dir:
  assumes wf: "fs_wf h" and dir: "fs_lookup h k = Some FDir" and free: "fs_lookup h t = None"
    and ren: "fs_rename p q h = (Inr (), h')" and keys: "k = fs_key h p" "t = fs_key h q"
  shows "h' = fs_move k t (fs_del t h)" "k \<noteq> []" "\<not> prefix k t" "k \<notin> set (fs_denied h)"
  using assms by (auto simp: fs_rename_def Let_def strict_prefix_def split: if_splits)

lemma lookup_renamed:
  assumes "fs_wf h" "fs_lookup h t = None" "k \<noteq> []" "\<not> prefix k t"
  shows "fs_lookup (fs_move k t (fs_del t h)) j =
    (if prefix t j then fs_lookup h (k @ drop (length t) j)
     else if prefix k j then None else fs_lookup h j)"
proof -
  have t: "t \<noteq> []" using assms(2) by auto
  have "map_of (fs_nodes (fs_del t h)) (k @ s) = fs_lookup h (k @ s)" for s
    using lookup_del [OF t, of h "k @ s"] assms(3,4) by (auto simp: fs_lookup_def)
  moreover have "fs_lookup (fs_del t h) j = fs_lookup h j" if "\<not> prefix t j"
    using that by (auto simp: lookup_del [OF t])
  ultimately show ?thesis
    using lookup_move [OF unused_target(2) [OF assms(1,2)] assms(4) t assms(3)] by simp
qed

lemma rotate_rotated:
  assumes wf: "fs_wf h" and dir: "fs_lookup h (fs_key h dir) = Some FDir"
    and free: "fs_lookup h (fs_key h target) = None" and ren: "fs_rename dir target h = (Inr (), h1)"
  shows "\<exists>h'. rotate_into dir target h = (Inr (Some target), h') \<and>
    rotated (fs_key h dir) (fs_key h target) h h'"
proof -
  let ?k = "fs_key h dir" and ?t = "fs_key h target"
  note h1 = rename_dir [OF wf dir free ren refl refl]
  have t: "?t \<noteq> []" using free by auto
  have "\<not> prefix ?t ?k" using unused_target(1) [OF wf free] dir by (auto simp: prefix_def)
  note look = lookup_renamed [OF wf free h1(2,3)]
  have key: "fs_key h1 dir = ?k" by (simp add: h1(1) fs_key_def)
  have anc: "fs_lookup h1 i = Some FDir" if "i \<in> set (ancestors (butlast ?k))" for i
  proof -
    have "strict_prefix i ?k" using ancestors_prefix that by blast
    then obtain s where s: "?k = i @ s" "s \<noteq> []" by (auto simp: strict_prefix_def prefix_def)
    then have "fs_lookup h i = Some FDir" using wf_ancestor [OF wf, of i s] dir by simp
    moreover have "\<not> prefix ?t i" using \<open>\<not> prefix ?t ?k\<close> s(1) prefix_prefix by metis
    moreover have "\<not> prefix ?k i" using \<open>strict_prefix i ?k\<close> by (auto simp: strict_prefix_def)
    ultimately show ?thesis by (simp add: h1(1) look)
  qed
  define h' where "h' = fs_put ?k FDir h1"
  have "fs_lookup h1 ?k = None" using \<open>\<not> prefix ?t ?k\<close> by (simp add: h1(1) look)
  moreover have "dir \<noteq> []" using ren by (auto simp: fs_rename_def)
  moreover have "?k \<notin> set (fs_denied h1)" using h1(1,4) by simp
  ultimately have "fs_create_dir_all dir h1 = (Inr (), h')"
    using make_dirs_last [of "ancestors (butlast ?k)" h1 ?k] anc h1(2)
    by (simp add: fs_create_dir_all_def key ancestors_snoc h'_def)
  then have rot: "rotate_into dir target h = (Inr (Some target), h')"
    using ren by (simp add: rotate_into_def io_then_def io_map_err_def io_return_def)
  have "fs_lookup h' j = (if j = ?k then Some FDir else if prefix ?t j then fs_lookup h (?k @ drop (length ?t) j)
      else if prefix ?k j then None else fs_lookup h j)" for j
    by (simp add: h'_def lookup_put h1(1,2) look)
  moreover have "\<not> prefix ?t (?k @ s)" for s
    using \<open>\<not> prefix ?t ?k\<close> h1(3) by (meson prefixI prefix_same_cases)
  moreover have "?t @ s \<noteq> ?k" for s using \<open>\<not> prefix ?t ?k\<close> by (metis prefixI)
  ultimately show ?thesis using free rot by (simp add: rotated_def) (simp add: h'_def h1(1))
qed

lemma fs_rename_Inl: "fs_rename p q h = (Inl e, h') \<Longrightarrow> h' = h"
  by (auto simp: fs_rename_def Let_def split: option.splits fnode.splits if_splits)

lemma rotate_into_cases:
  assumes "fs_wf h" "fs_lookup h (fs_key h dir) = Some FDir" "fs_lookup h (fs_key h target) = None"
    and "rotate_into dir target h = (r, h')"
  shows "(\<exists>e. r = Inl e) \<and> h' = h \<or> r = Inr (Some target) \<and> rotated (fs_key h dir) (fs_key h target) h h'"
proof (cases "fs_rename dir target h")
  case (Pair x h1)
  show ?thesis
  proof (cases x)
    case (Inl e)
    with Pair fs_rename_Inl [of dir target h e h1] assms(4) show ?thesis
      by (auto simp: rotate_into_def io_then_def io_map_err_def)
  next
    case (Inr u)
    with Pair rotate_rotated [OF assms(1-3)] assms(4) show ?thesis by auto
  qed
qed

text \<open>Nothing stands below \<open>k\<close>.\<close>

definition vacant :: "string list \<Rightarrow> fs \<Rightarrow> bool" where
  "vacant k h \<longleftrightarrow> (\<forall>s. s \<noteq> [] \<longrightarrow> fs_lookup h (k @ s) = None)"

lemma vacant_children:
  assumes "fs_wf h" "fs_children h k = []"
  shows "vacant k h"
proof -
  have "fs_lookup h (k @ s) = None" if nonempty: "s \<noteq> []" for s
  proof (rule ccontr)
    assume some: "fs_lookup h (k @ s) \<noteq> None"
    obtain n s' where s: "s = n # s'" using nonempty by (meson neq_Nil_conv)
    have "fs_lookup h (k @ [n]) \<noteq> None"
      using some wf_ancestor [OF assms(1), of "k @ [n]" s'] by (cases "s' = []") (auto simp: s)
    with assms(2) in_children [of n h k] show False by simp
  qed
  then show ?thesis by (simp add: vacant_def)
qed

lemma make_dirs_new:
  "[] \<notin> set ks \<Longrightarrow> j \<notin> set ks \<Longrightarrow> fs_lookup (snd (make_dirs ks h)) j = fs_lookup h j"
  by (induction ks h rule: make_dirs.induct) (auto simp: lookup_put split: option.splits fnode.splits)

lemma vacant_created:
  assumes "fs_wf h" "fs_lookup h (fs_key h p) = None"
  shows "vacant (fs_key h p) (snd (fs_create_dir_all p h))"
proof -
  have "fs_lookup (snd (fs_create_dir_all p h)) (fs_key h p @ s) = None" if "s \<noteq> []" for s
  proof -
    have "fs_key h p @ s \<notin> set (ancestors (fs_key h p))"
    proof
      assume "fs_key h p @ s \<in> set (ancestors (fs_key h p))"
      then have "length (fs_key h p @ s) \<le> length (fs_key h p)"
        by (auto simp only: ancestors_def set_map length_take min.cobounded1)
      with that show False by simp
    qed
    moreover have "[] \<notin> set (ancestors (fs_key h p))" by (auto simp: ancestors_def)
    ultimately show ?thesis
      using unused_target(1) [OF assms, of s] by (auto simp: fs_create_dir_all_def make_dirs_new)
  qed
  then show ?thesis by (simp add: vacant_def)
qed

text \<open>
  The three outcomes of \<open>open_versioned\<close>: an error, an unused or empty directory, a rotation.
\<close>

lemma open_versioned_cases:
  assumes wf: "fs_wf h" and op: "open_versioned dir h = Some (r, h')"
  obtains (err) e where "r = Inl e" "h' = h \<or> h' = snd (fs_create_dir_all dir h)"
  | (fresh) "r = Inr (\<lparr>aw_dir = dir\<rparr>, None)" "h' = h \<or> h' = snd (fs_create_dir_all dir h)"
      "vacant (fs_key h dir) h'"
  | (rotated) target parent stem v where "r = Inr (\<lparr>aw_dir = dir\<rparr>, Some target)"
      "rotated (fs_key h dir) (fs_key h target) h h'" "path_parent dir = Some parent"
      "path_file_name dir = Some stem" "target = path_join parent (prev_name stem v)"
proof -
  consider e where "validate_output_path dir = Inl e"
    | "validate_output_path dir = Inr ()" "fs_exists h dir"
    | "validate_output_path dir = Inr ()" "\<not> fs_exists h dir"
    by (cases "validate_output_path dir") auto
  then show thesis
  proof cases
    case 1
    then show thesis using op by (intro err) (auto simp: open_versioned_def)
  next
    case 3
    let ?m = "fs_create_dir_all dir h"
    have "fs_lookup h (fs_key h dir) = None"
      using 3 by (auto simp: fs_exists_def validate_output_path_def)
    note vacant = vacant_created [OF wf this]
    show thesis
    proof (cases ?m)
      case (Pair x h1)
      then show thesis using 3 op vacant err fresh
        by (cases x) (auto simp: open_versioned_def io_then_def io_map_err_def io_return_def)
    qed
  next
    case 2
    then obtain z where z: "rotate_existing dir h = Some z"
      "io_then (\<lambda>_. z) (\<lambda>x. io_return (\<lparr>aw_dir = dir\<rparr>, x)) h = (r, h')"
      using op by (auto simp: open_versioned_def)
    obtain r1 where r1: "rotate_existing dir h = Some (r1, h')"
      and r: "r = (case r1 of Inl e \<Rightarrow> Inl e | Inr x \<Rightarrow> Inr (\<lparr>aw_dir = dir\<rparr>, x))"
      using z by (cases z; cases "fst z") (auto simp: io_then_def io_return_def)
    show thesis
    proof (cases r1)
      case (Inl e)
      have "h' = h"
        using r1 Inl rotate_into_cases [OF wf] file_name_plain free_target_free
        by (auto simp: rotate_existing_def fs_is_dir_def split: if_splits sum.splits option.splits) blast
      then show thesis using err Inl r by simp
    next
      case (Inr x)
      show thesis
      proof (cases x)
        case None
        have dir: "fs_is_dir h dir" using r1 Inr by (auto simp: rotate_existing_def split: if_splits)
        then have "h' = h" "fs_children h (fs_key h dir) = []"
          using r1 Inr None
          by (auto simp: rotate_existing_def fs_is_dir_def fs_read_dir_def rotate_into_def
              split: if_splits option.splits)
        then show thesis using fresh r Inr None vacant_children [OF wf] by simp
      next
        case (Some target)
        then obtain parent stem target' where dir: "fs_is_dir h dir" "path_parent dir = Some parent"
          "path_file_name dir = Some stem"
          and free: "free_target h parent stem 1 = Some target'"
          and rot: "rotate_into dir target' h = (Inr (Some target), h')"
          using r1 Inr by (auto simp: rotate_existing_def split: sum.splits if_splits option.splits)
        note t = free_target_free [OF file_name_plain [OF dir(3)] free]
        have "rotated (fs_key h dir) (fs_key h target') h h' \<and> target' = target"
          using rotate_into_cases [OF wf _ _ rot] t dir(1) by (auto simp: fs_is_dir_def)
        then show thesis using rotated t dir Inr Some r by auto
      qed
    qed
  qed
qed

lemma open_versioned_returns:
  assumes "length (fs_nodes h) < 2 ^ 64 - 1"
  shows "open_versioned dir h \<noteq> None"
proof -
  have "free_target h parent stem 1 \<noteq> None" if "path_file_name dir = Some stem" for parent stem
    using free_target_least [OF file_name_plain [OF that] assms, of parent] by auto
  then show ?thesis
    by (simp del: not_None_eq add: open_versioned_def rotate_existing_def
        split: sum.split option.split)
qed

end
