(* ===== verification/Demo.thy ===== *)
theory Demo
  imports Artifact_Writer Private_Intents
begin

text \<open>
  \<open>run.rs\<close> of the agents crate: \<open>demo\<close> loads a deployment, runs it over the in-process bus
  and writes the artifact bundle; \<open>verify\<close> reads a bundle and checks it again. Both are
  state-passing over the file system; the TOML parser and \<open>serde_json\<close> are parameters.
\<close>

record toml =
  toml_topology :: "string \<Rightarrow> string + topology_raw"
  toml_bundle :: "string \<Rightarrow> string + raw_bundle"
  toml_scenario :: "string \<Rightarrow> string + scenario"

definition read_text :: "fs \<Rightarrow> string \<Rightarrow> string + string" where
  "read_text h p = map_sum io_message id (fs_read_to_string h p)"

definition scenario_load ::
  "(string \<Rightarrow> string + string) \<Rightarrow> (string \<Rightarrow> string + scenario) \<Rightarrow> (string \<Rightarrow> string) \<Rightarrow> string \<Rightarrow>
     config_error + scenario" where
  "scenario_load read parse redact path =
     (if has_parent_dir path then Inl UnsafePath
      else case read path of
        Inl e \<Rightarrow> Inl (ConfigIo e)
      | Inr text \<Rightarrow> scenario_from_toml_str parse redact text)"

section \<open>Errors and arguments\<close>

datatype run_io = IoArtifact artifact_error | IoMessage string

datatype run_error =
  RunTopology config_error
| RunScenario config_error
| RunPrivateIntent private_intent_error
| RunIo run_io
| RunRuntime runtime_error
| RunVerifierInvalid string
| RunAborted string

text \<open>Besides an error, a command may panic or not return.\<close>

datatype 'e command_fault = CmdErr 'e | CmdPanic string | CmdHangs

record demo_result =
  dr_report :: verifier_report
  dr_finalized :: bool
  dr_abort_reason :: "string option"
  dr_rotated_prev :: "string option"

record demo_args =
  da_topology :: string
  da_private_intents :: "string option"
  da_scenario :: "string option"
  da_artifacts :: string
  da_max_rounds :: u64
  da_run_id :: string
  da_force :: bool

definition default_private_path :: "string \<Rightarrow> string" where
  "default_private_path topology =
     (let parent = (case path_parent topology of None \<Rightarrow> ''.'' | Some p \<Rightarrow> p);
          stem = (case path_file_stem topology of None \<Rightarrow> ''topology'' | Some s \<Rightarrow> s)
      in path_join parent (stem @ ''.private.toml''))"

section \<open>Pieces of a bundle\<close>

definition pick_final_receipt :: "coordination_log \<Rightarrow> completion_receipt_record option" where
  "pick_final_receipt log =
     (if \<not> log_finalized log then None
      else List.find (\<lambda>r. rc_round r = log_final_round log) (rev (log_receipts log)))"

definition list_bundle_files :: "fs \<Rightarrow> string \<Rightarrow> string list" where
  "list_bundle_files h dir = sort (case fs_read_dir h dir of Inl _ \<Rightarrow> [] | Inr names \<Rightarrow> names)"

definition add_manifest_name :: "string \<Rightarrow> string list \<Rightarrow> string list" where
  "add_manifest_name name files = (if list_ex (\<lambda>f. f = name) files then files else files @ [name])"

text \<open>The manifest of a directory, naming the two files that are written last.\<close>

definition bundle_manifest :: "fs \<Rightarrow> string \<Rightarrow> string list" where
  "bundle_manifest h dir =
     sort (fold add_manifest_name [''run_status.json'', ''bundle_README.md''] (list_bundle_files h dir))"

definition OWNED_FILES :: "string list" where
  "OWNED_FILES =
     [''coordination_log.json'', ''verifier_report.json'', ''run_status.json'',
      ''completion_receipt.json'', ''topology.toml'', ''scenario.toml'', ''bundle_README.md'']"

fun remove_owned :: "string \<Rightarrow> string list \<Rightarrow> (string, unit) io" where
  "remove_owned dir [] h = (Inr (), h)"
| "remove_owned dir (name # names) h =
     (let p = path_join dir name
      in if fs_exists h p
         then io_then (io_map_err io_message (fs_remove_file p)) (\<lambda>_. remove_owned dir names) h
         else remove_owned dir names h)"

definition force_clean_owned_files :: "string \<Rightarrow> (string, unit) io" where
  "force_clean_owned_files dir h =
     (if \<not> fs_exists h dir then (Inr (), h) else remove_owned dir OWNED_FILES h)"

definition persist_text_copy :: "string \<Rightarrow> string \<Rightarrow> string \<Rightarrow> (run_error, unit) io" where
  "persist_text_copy dir name text =
     io_map_err (\<lambda>e. RunIo (IoMessage (io_message e))) (fs_write (path_join dir name) text)"

definition nl :: string where
  "nl = [char_of (10 :: nat)]"

definition em_dash :: string where
  "em_dash = map char_of [0xE2, 0x80, 0x94 :: nat]"

definition show_bool :: "bool \<Rightarrow> string" where
  "show_bool b = (if b then ''true'' else ''false'')"

definition render_bundle_readme :: "run_status \<Rightarrow> string" where
  "render_bundle_readme status = concat
     ([''# Vertex Veil Run Bundle'' @ nl @ nl,
       ''This directory contains the public coordination record for one Vertex Veil run.'' @ nl,
       ''Every file here is derived from public inputs alone; no secret material'' @ nl,
       ''is required '' @ em_dash @ '' or present '' @ em_dash @ '' at any point.'' @ nl @ nl,
       ''## Outcome'' @ nl @ nl,
       ''- run_id: `'' @ st_run_id status @ ''`'' @ nl,
       ''- finalized: `'' @ show_bool (st_finalized status) @ ''`'' @ nl,
       ''- final_round: `'' @ show_u64 (st_final_round status) @ ''`'' @ nl,
       ''- receipt_present: `'' @ show_bool (st_receipt_present status) @ ''`'' @ nl] @
      (case st_abort_reason status of None \<Rightarrow> []
       | Some reason \<Rightarrow> [''- abort_reason: `'' @ reason @ ''`'' @ nl]) @
      [''- rejections_logged: `'' @ show_nat (st_rejection_count status) @ ''`'' @ nl @ nl,
       ''## Files'' @ nl @ nl] @
      map (\<lambda>name. ''- `'' @ name @ ''`'' @ nl) (st_bundle_files status) @
      [nl, ''## Re-verify the bundle'' @ nl @ nl,
       ''From a freshly-cloned checkout of the `vertex-veil` workspace, point the'' @ nl,
       ''standalone verifier at this directory. The verifier reads the public'' @ nl,
       ''coordination log only; do not attach secret fixture files to the'' @ nl,
       ''bundle, and the verifier will never ask for them:'' @ nl @ nl,
       ''```bash'' @ nl,
       ''cargo run -p vertex-veil-agents -- verify --artifacts <path-to-this-dir>'' @ nl,
       ''```'' @ nl @ nl,
       ''A third party can also re-run the verifier programmatically via the'' @ nl,
       ''`vertex-veil-core::StandaloneVerifier` API, feeding it the'' @ nl,
       ''`coordination_log.json` and `topology.toml` from this bundle.'' @ nl])"

section \<open>The demo command\<close>

definition art :: "(artifact_error, 'a) io \<Rightarrow> (run_error command_fault, 'a) io" where
  "art = io_map_err (\<lambda>e. CmdErr (RunIo (IoArtifact e)))"

definition read_source :: "string \<Rightarrow> (run_error command_fault, string) io" where
  "read_source path =
     io_get (\<lambda>h. map_sum (\<lambda>e. CmdErr (RunIo (IoMessage (io_message e)))) id (fs_read_to_string h path))"

definition demo_load ::
  "crates \<Rightarrow> toml \<Rightarrow> demo_args \<Rightarrow> fs \<Rightarrow>
     run_error command_fault + topology_config \<times> (node_id, agent_state) btree_map \<times> scenario" where
  "demo_load c tm args h =
     and_then (map_sum (\<lambda>e. CmdErr (RunTopology e)) id
        (topology_load (read_text h) (toml_topology tm) parse_redact c (da_topology args))) (\<lambda>topology.
     let private_path = (case da_private_intents args of
           Some p \<Rightarrow> p | None \<Rightarrow> default_private_path (da_topology args))
     in and_then (case private_load (read_text h) (toml_bundle tm) c private_path topology of
           Inl (PiErr e) \<Rightarrow> Inl (CmdErr (RunPrivateIntent e))
         | Inl (PiPanic s) \<Rightarrow> Inl (CmdPanic s)
         | Inr agents \<Rightarrow> Inr agents) (\<lambda>agents.
     and_then (case da_scenario args of
           None \<Rightarrow> Inr scenario_empty
         | Some p \<Rightarrow> map_sum (\<lambda>e. CmdErr (RunScenario e)) id
             (scenario_load (read_text h) (toml_scenario tm) parse_redact p)) (\<lambda>scenario.
     Inr (topology, agents, scenario))))"

definition demo_run ::
  "crates \<Rightarrow> demo_args \<Rightarrow> topology_config \<Rightarrow> (node_id, agent_state) btree_map \<Rightarrow> scenario \<Rightarrow>
     run_error command_fault + runtime_outcome" where
  "demo_run c args topology agents scenario =
     (case runtime_new c topology bus_new agents scenario (da_max_rounds args) of
        Inl e \<Rightarrow> Inl (CmdErr (RunRuntime e))
      | Inr rt \<Rightarrow>
          (case run c bus_ops (da_run_id args) rt of
             None \<Rightarrow> Inl CmdHangs
           | Some (Inl (Fail e)) \<Rightarrow> Inl (CmdErr (RunRuntime e))
           | Some (Inl (Panic s)) \<Rightarrow> Inl (CmdPanic s)
           | Some (Inr outcome) \<Rightarrow> Inr outcome))"

definition demo_open ::
  "demo_args \<Rightarrow> (run_error command_fault, artifact_writer \<times> string option) io" where
  "demo_open args =
     (if da_force args then
        io_then (art (writer_new (da_artifacts args))) (\<lambda>w.
        io_then (io_map_err (\<lambda>s. CmdErr (RunIo (IoMessage s)))
                   (force_clean_owned_files (da_artifacts args))) (\<lambda>_.
        io_return (w, None)))
      else (\<lambda>h. case open_versioned (da_artifacts args) h of
              None \<Rightarrow> (Inl CmdHangs, h)
            | Some r \<Rightarrow> art (\<lambda>_. r) h))"

definition run_status_of :: "runtime_outcome \<Rightarrow> string list \<Rightarrow> run_status" where
  "run_status_of outcome bundle_files =
     \<lparr>st_run_id = log_run_id (ro_log outcome), st_finalized = ro_finalized outcome,
      st_final_round = ro_final_round outcome,
      st_receipt_present = (pick_final_receipt (ro_log outcome) \<noteq> None),
      st_abort_reason = log_abort_reason (ro_log outcome),
      st_rejection_count = length (log_rejections (ro_log outcome)),
      st_bundle_files = bundle_files\<rparr>"

definition demo_write ::
  "crates \<Rightarrow> json \<Rightarrow> demo_args \<Rightarrow> topology_config \<Rightarrow> runtime_outcome \<Rightarrow> artifact_writer \<Rightarrow>
     (run_error command_fault, verifier_report) io" where
  "demo_write c j args topology outcome writer =
     io_then (art (write_coordination_log j writer (ro_log outcome))) (\<lambda>_.
     io_then (read_source (da_topology args)) (\<lambda>topology_text.
     io_then (io_map_err CmdErr (persist_text_copy (aw_dir writer) ''topology.toml'' topology_text)) (\<lambda>_.
     io_then (case da_scenario args of
                None \<Rightarrow> io_return ()
              | Some scn_path \<Rightarrow> io_then (read_source scn_path) (\<lambda>text.
                  io_map_err CmdErr (persist_text_copy (aw_dir writer) ''scenario.toml'' text))) (\<lambda>_.
     let report = verify_log c topology (ro_log outcome)
     in io_then (art (write_verifier_report j writer report)) (\<lambda>_.
        io_then (art (write_receipt_copy j writer (pick_final_receipt (ro_log outcome)))) (\<lambda>_.
        io_then (io_get (\<lambda>h. Inr (bundle_manifest h (aw_dir writer)))) (\<lambda>bundle_files.
        let status = run_status_of outcome bundle_files
        in io_then (art (write_run_status j writer status)) (\<lambda>_.
           io_then (art (write_bundle_readme writer (render_bundle_readme status))) (\<lambda>_.
           io_return report)))))))))"

definition demo ::
  "crates \<Rightarrow> json \<Rightarrow> toml \<Rightarrow> demo_args \<Rightarrow> (run_error command_fault, demo_result) io" where
  "demo c j tm args =
     io_then (io_get (demo_load c tm args)) (\<lambda>(topology, agents, scenario).
     io_then (io_get (\<lambda>_. demo_run c args topology agents scenario)) (\<lambda>outcome.
     io_then (demo_open args) (\<lambda>(writer, rotated_prev).
     io_then (demo_write c j args topology outcome writer) (\<lambda>report.
     io_return \<lparr>dr_report = report, dr_finalized = ro_finalized outcome,
                dr_abort_reason = log_abort_reason (ro_log outcome),
                dr_rotated_prev = rotated_prev\<rparr>))))"

section \<open>The verify command\<close>

definition verify ::
  "crates \<Rightarrow> json \<Rightarrow> toml \<Rightarrow> string \<Rightarrow> (run_error command_fault, verifier_report) io" where
  "verify c j tm artifacts =
     io_then (io_get (\<lambda>h.
        if \<not> fs_is_dir h artifacts
        then Inl (CmdErr (RunIo (IoMessage (''artifacts path is not a directory: '' @ artifacts))))
        else and_then (map_sum (\<lambda>e. CmdErr (RunTopology e)) id
               (topology_load (read_text h) (toml_topology tm) parse_redact c
                  (path_join artifacts ''topology.toml''))) (\<lambda>topology.
             and_then (map_sum (\<lambda>e. CmdErr (RunIo (IoArtifact e))) id
               (read_coordination_log j h artifacts)) (\<lambda>log.
             Inr (topology, log))))) (\<lambda>(topology, log).
     let report = verify_log c topology log
     in io_then (art (writer_new artifacts)) (\<lambda>writer.
        io_then (art (write_verifier_report j writer report)) (\<lambda>_.
        io_then (io_get (\<lambda>h. Inr (bundle_manifest h (aw_dir writer)))) (\<lambda>bundle_files.
        let status = \<lparr>st_run_id = log_run_id log, st_finalized = log_finalized log,
               st_final_round = log_final_round log,
               st_receipt_present = (pick_final_receipt log \<noteq> None),
               st_abort_reason = log_abort_reason log,
               st_rejection_count = length (log_rejections log), st_bundle_files = bundle_files\<rparr>
        in io_then (art (write_run_status j writer status)) (\<lambda>_.
           io_return report)))))"

section \<open>Console lines\<close>

definition short_id :: "crates \<Rightarrow> node_id \<Rightarrow> string" where
  "short_id c n = take 8 (to_hex c n) @ ellipsis"

definition local_emit :: "string \<Rightarrow> string \<Rightarrow> string" where
  "local_emit tag detail = ''[local] '' @ tag @ '' '' @ detail"

fun local_line :: "crates \<Rightarrow> observer_event \<Rightarrow> string" where
  "local_line c (OnRoundCommitted round finalized) =
     local_emit ''[VERTEX]'' (''round '' @ show_u64 round @ '' committed (finalized='' @ show_bool finalized @ '')'')"
| "local_line c (OnCommitment node round) =
     local_emit ''[COORD]'' (''commitment from '' @ short_id c node @ '' round='' @ show_u64 round)"
| "local_line c (OnProposal proposer round matched_capability) =
     local_emit ''[COORD]'' (''proposal by '' @ short_id c proposer @ '' ('' @ matched_capability @
       '') round='' @ show_u64 round)"
| "local_line c (OnProofVerified node round) =
     local_emit ''[COORD]'' (''proof verified for '' @ short_id c node @ '' round='' @ show_u64 round)"
| "local_line c (OnReceipt provider round) =
     local_emit ''[COORD]'' (''receipt signed by '' @ short_id c provider @ '' round='' @ show_u64 round)"
| "local_line c (OnAbort reason round) =
     local_emit ''[ABORT]'' (reason @ '' at round='' @ show_u64 round)"

end
