(* ===== verification/Log_Ids.thy ===== *)
theory Log_Ids
  imports Runtime_Inv
begin

text \<open>
  The node ids in the log of a run: over a transport that delivers messages of well-formed origins
  only, every id of the log has its 32 bytes. The commitments, proposals and proofs of a log are
  tied to the topology by \<open>log_inv\<close>; receipts and rejections carry the ids of whoever sent a
  message.
\<close>

section \<open>Transports whose messages have a property\<close>

text \<open>\<open>W\<close>: whatever such a transport still holds or receives satisfies \<open>P\<close>.\<close>

locale message_source =
  fixes ops :: "'t transport" and W :: "'t \<Rightarrow> bool" and P :: "coordination_message \<Rightarrow> bool"
  assumes next_source: "W t \<Longrightarrow> tr_next_ordered ops t = (mo, t') \<Longrightarrow> W t' \<and> pred_option P mo"
    and send_source: "W t \<Longrightarrow> P m \<Longrightarrow> W (snd (tr_broadcast ops m t))"
    and flush_source: "W t \<Longrightarrow> W (tr_flush ops t)"
begin

lemma drain_source:
  assumes "drain_loop (tr_next_ordered ops) body t s = Some (t', s')" "W t" "Q s"
    and body: "\<And>m s. P m \<Longrightarrow> Q s \<Longrightarrow> Q (body m s)"
  shows "W t' \<and> Q s'"
proof -
  have "W t \<longrightarrow> Q s \<longrightarrow> W (fst r) \<and> Q (snd r)"
    if "drain_loop (tr_next_ordered ops) body t s = Some r" for t s r
  proof (rule drain_loop.raw_induct
      [where P = "\<lambda>nx b t s r. nx = tr_next_ordered ops \<longrightarrow> b = body \<longrightarrow> W t \<longrightarrow> Q s \<longrightarrow> W (fst r) \<and> Q (snd r)",
       OF _ that, THEN mp, THEN mp, OF _ refl refl])
    fix f nx b t s r
    assume IH: "\<And>nx b t s r. f nx b t s = Some r \<Longrightarrow>
        nx = tr_next_ordered ops \<longrightarrow> b = body \<longrightarrow> W t \<longrightarrow> Q s \<longrightarrow> W (fst r) \<and> Q (snd r)"
      and eq: "(case nx t of (None, t') \<Rightarrow> Some (t', s) | (Some m, t') \<Rightarrow> f nx b t' (b m s)) = Some r"
    show "nx = tr_next_ordered ops \<longrightarrow> b = body \<longrightarrow> W t \<longrightarrow> Q s \<longrightarrow> W (fst r) \<and> Q (snd r)"
    proof (intro impI)
      assume nx: "nx = tr_next_ordered ops" "b = body" and W: "W t" and "Q s"
      obtain mo t1 where nt: "tr_next_ordered ops t = (mo, t1)" by force
      from next_source [OF W nt] eq nx \<open>Q s\<close> IH [of nx b t1 _ r] body show "W (fst r) \<and> Q (snd r)"
        by (cases mo) (auto simp: nt)
    qed
  qed
  with assms(1-3) show ?thesis by fastforce
qed

end

lemma bus_source: "message_source bus_ops (\<lambda>b. \<forall>m \<in> set (bus_queue b). P m) P"
  by unfold_locales
    (auto simp: bus_ops_def bus_broadcast_def bus_next_ordered_def split: list.splits)

interpretation bus_messages: message_source bus_ops "\<lambda>b. \<forall>m \<in> set (bus_queue b). P m" P for P
  by (rule bus_source)

section \<open>A run over well-formed origins\<close>

definition origin_wf :: "coordination_message \<Rightarrow> bool" where
  "origin_wf m \<longleftrightarrow> node_wf (msg_origin m)"

text \<open>The ids no other record of the log vouches for.\<close>

definition loose_ids_wf :: "coordination_log \<Rightarrow> bool" where
  "loose_ids_wf l \<longleftrightarrow> (\<forall>x \<in> set (log_receipts l). node_wf (rc_provider x)) \<and>
     (\<forall>j \<in> set (log_rejections l). node_wf (rj_node_id j))"

text \<open>What the runtime was made from, and what it has logged.\<close>

definition ids_inv :: "'t runtime \<Rightarrow> bool" where
  "ids_inv rt \<longleftrightarrow> (\<forall>i \<in> set (bt_keys (rt_agents rt)). node_wf i) \<and>
     (\<forall>n \<in> set (topo_nodes (rt_topology rt)). node_wf (nc_id n)) \<and> loose_ids_wf (rt_log rt)"

lemma ids_inv_frame [simp]:
  "ids_inv (rt\<lparr>rt_transport := tr\<rparr>) = ids_inv rt"
  "ids_inv (rt\<lparr>rt_historical := h\<rparr>) = ids_inv rt"
  "ids_inv (rt\<lparr>rt_round_machine := m\<rparr>) = ids_inv rt"
  "ids_inv (observe ev rt) = ids_inv rt"
  "ids_inv (reject_msg r n k e rt) \<longleftrightarrow> ids_inv rt \<and> node_wf n"
  by (auto simp: ids_inv_def observe_def reject_msg_def append_rejection_def loose_ids_wf_def)

lemma ids_inv_log:
  "ids_inv rt \<Longrightarrow> log_receipts l = log_receipts (rt_log rt) \<Longrightarrow> log_rejections l = log_rejections (rt_log rt) \<Longrightarrow>
     ids_inv (rt\<lparr>rt_log := l\<rparr>)"
  by (simp add: ids_inv_def loose_ids_wf_def)

lemma append_commitment_loose:
  "append_commitment rec l = (res, l') \<Longrightarrow> log_receipts l' = log_receipts l \<and> log_rejections l' = log_rejections l"
  by (auto simp: append_commitment_def Let_def split: if_splits)

lemma handlers_keep_ids:
  assumes "origin_wf m" "ids_inv rt"
  shows "ids_inv (handle_commitment r m rt)" "ids_inv (handle_proposal c r m rt)"
    "ids_inv (handle_proof c r m rt)" "ids_inv (handle_receipt r m rt)"
proof -
  have step: "ids_inv (rt\<lparr>rt_round_machine := x, rt_log := l\<rparr>)"
    if "log_receipts l = log_receipts (rt_log rt)" "log_rejections l = log_rejections (rt_log rt)" for x l
    using ids_inv_log [OF assms(2) that] by (simp add: ids_inv_def)
  show "ids_inv (handle_commitment r m rt)"
    using assms
    by (auto simp: handle_commitment_def origin_wf_def step append_commitment_loose
        split: message_payload.split prod.split sum.split)
  show "ids_inv (handle_proposal c r m rt)"
    using assms
    by (auto simp: handle_proposal_def origin_wf_def append_proposal_def step
        split: message_payload.split prod.split sum.split)
  show "ids_inv (handle_proof c r m rt)"
    using assms
    by (auto simp: handle_proof_def Let_def origin_wf_def append_proof_def ids_inv_log
        split: message_payload.split)
  show "ids_inv (handle_receipt r m rt)"
    using assms
    by (auto simp: handle_receipt_def origin_wf_def append_receipt_def
        split: message_payload.split) (auto simp: ids_inv_def loose_ids_wf_def)
qed

lemma event_node: "ev \<in> set (events_for_round s n r) \<Longrightarrow> ev_node ev = n"
  by (auto simp: events_for_round_def event_for_round_def split: scenario_event.splits)

definition ids_run :: "('t \<Rightarrow> bool) \<Rightarrow> 't runtime \<Rightarrow> bool" where
  "ids_run W rt \<longleftrightarrow> W (rt_transport rt) \<and> ids_inv rt"

lemma ids_run_frame [simp]:
  "ids_run W (reject_msg r n k e rt) \<longleftrightarrow> ids_run W rt \<and> node_wf n"
  "ids_run W (observe ev rt) = ids_run W rt"
  "ids_run W (rt\<lparr>rt_round_machine := m\<rparr>) = ids_run W rt"
  "ids_run W (rt\<lparr>rt_historical := h\<rparr>) = ids_run W rt"
  unfolding ids_run_def by (auto simp: observe_def reject_msg_def)
    (auto simp: ids_inv_def append_rejection_def loose_ids_wf_def)

locale origin_source = message_source ops W origin_wf for ops :: "'t transport" and W
begin

lemma good_broadcast: "rt_broadcast ops m rt = Inr rt' \<Longrightarrow> ids_run W rt \<Longrightarrow> node_wf (msg_origin m) \<Longrightarrow> ids_run W rt'"
  using send_source [of "rt_transport rt" m]
  by (auto simp: rt_broadcast_def ids_run_def origin_wf_def split: prod.splits sum.splits)

lemma good_drain:
  assumes "rt_drain ops body (rt_flush ops rt) = Some rt'" "ids_run W rt"
    and "\<And>m rt. origin_wf m \<Longrightarrow> ids_inv rt \<Longrightarrow> ids_inv (body m rt)"
  shows "ids_run W rt'"
proof -
  obtain tr s where s: "drain_loop (tr_next_ordered ops) body (tr_flush ops (rt_transport rt)) (rt_flush ops rt) =
      Some (tr, s)" "rt' = s\<lparr>rt_transport := tr\<rparr>"
    using assms(1) by (auto simp: rt_drain_def rt_flush_def)
  have "W (tr_flush ops (rt_transport rt))" "ids_inv (rt_flush ops rt)"
    using assms(2) flush_source by (simp_all add: ids_run_def rt_flush_def)
  from drain_source [OF s(1) this assms(3)] s(2) show ?thesis by (simp add: ids_run_def)
qed

lemma good_commitments:
  assumes "broadcast_commitments c ops r rt = Inr rt'" "ids_run W rt"
  shows "ids_run W rt' \<and> rt_agents rt' = rt_agents rt"
proof -
  have bc: "rt_broadcast ops m x = Inr y \<Longrightarrow> rt_agents y = rt_agents x" for m and x y :: "'t runtime"
    by (auto dest: rt_broadcast_Inr)
  have ev: "ids_run W y \<and> rt_agents y = rt_agents rt"
    if "try_fold f evs x = Inr y" "ids_run W x \<and> rt_agents x = rt_agents rt"
      "\<And>e x y. e \<in> set evs \<Longrightarrow> ids_run W x \<Longrightarrow> f e x = Inr y \<Longrightarrow> ids_run W y \<and> rt_agents y = rt_agents x" for f evs x y
  proof (rule try_fold_invariant [where P = "\<lambda>y. ids_run W y \<and> rt_agents y = rt_agents rt", OF that(1,2)])
    fix e x y
    assume "e \<in> set evs" "ids_run W x \<and> rt_agents x = rt_agents rt" "f e x = Inr y"
    with that(3) [of e x y] show "ids_run W y \<and> rt_agents y = rt_agents rt" by simp
  qed
  show ?thesis
    using assms(1) unfolding broadcast_commitments_def
  proof (rule try_fold_invariant)
    fix n x y
    assume n: "n \<in> set (bt_keys (rt_agents rt))" and g: "ids_run W x \<and> rt_agents x = rt_agents rt"
      and step: "broadcast_commitment_of c ops r n x = Inr y"
    have wf: "node_wf n" using n g by (simp add: ids_run_def ids_inv_def)
    have replay: "ids_run W y \<and> rt_agents y = rt_agents x"
      if "e \<in> set (events_for_round s n r)" "ids_run W x" "replay_event ops r e x = Inr y" for e x y s
      using that event_node [OF that(1)] wf good_broadcast bc
      by (auto simp: replay_event_def split: scenario_event.splits option.splits)
    have double: "ids_run W y \<and> rt_agents y = rt_agents x"
      if "e \<in> set (events_for_round s n r)" "ids_run W x" "double_commit_event ops e x = Inr y" for e x y s
      using that event_node [OF that(1)] wf good_broadcast bc
      by (auto simp: double_commit_event_def split: scenario_event.splits option.splits)
    obtain x1 where 1: "try_fold (replay_event ops r) (events_for_round (rt_scenario x) n r) x = Inr x1"
      using step by (auto simp: broadcast_commitment_of_def)
    have g1: "ids_run W x1 \<and> rt_agents x1 = rt_agents rt" by (rule ev [OF 1 g replay])
    show "ids_run W y \<and> rt_agents y = rt_agents rt"
    proof (cases "has_dropped (rt_scenario x1) n r")
      case True
      with step 1 g1 wf show ?thesis
        by (auto simp: broadcast_commitment_of_def) (simp add: reject_msg_def)
    next
      case False
      with step 1 obtain base x2 where
        2: "rt_broadcast ops \<lparr>msg_origin = n, msg_payload = PCommitment base\<rparr>
              (x1\<lparr>rt_historical := bt_insert (n, r) base (rt_historical x1)\<rparr>) = Inr x2"
        and 3: "try_fold (double_commit_event ops) (events_for_round (rt_scenario x2) n r) x2 = Inr y"
        by (auto simp: broadcast_commitment_of_def)
      have "ids_run W x2 \<and> rt_agents x2 = rt_agents rt"
        using good_broadcast [OF 2] bc [OF 2] g1 wf by simp
      then show ?thesis by (rule ev [OF 3 _ double])
    qed
  qed (use assms(2) in simp)
qed

lemma agent_wf: "ids_run W rt \<Longrightarrow> bt_contains (rt_agents rt) i \<Longrightarrow> node_wf i"
  by (auto simp: ids_run_def ids_inv_def bt_contains_def bt_keys_def bt_get_def dest!: map_of_SomeD)

lemma good_proposal:
  assumes "broadcast_proposal c ops r rt = Inr (b, rt')" "ids_run W rt"
  shows "ids_run W rt'"
  using assms agent_wf [OF assms(2)] good_broadcast [OF _ assms(2)]
  by (auto simp: broadcast_proposal_def Let_def simp del: case_sum_map_err
      split: sum.split_asm option.split_asm if_split_asm)

lemma good_proofs:
  assumes "broadcast_proofs c ops r p rt = Inr rt'" "ids_run W rt"
  shows "ids_run W rt'"
  using assms unfolding broadcast_proofs_def
  by (rule try_fold_invariant)
    (auto simp: broadcast_proof_of_def Let_def good_broadcast agent_wf split: if_splits option.splits)

lemma good_receipt:
  assumes "broadcast_receipt c ops r p rt = Inr rt'" "ids_run W rt"
  shows "ids_run W rt'"
  using assms by (auto simp: broadcast_receipt_def Let_def good_broadcast agent_wf split: if_splits)

lemma good_round:
  assumes "run_one_round c ops r rt = Some (Inr (outcome, rt'))" "ids_run W rt"
  shows "ids_run W rt'"
proof -
  have receipts: "ids_run W y" if "receipt_phase c ops r p x = Some (Inr (o', y))" "ids_run W x" for p x o' y
    using that good_receipt good_drain handlers_keep_ids(4)
    by (fastforce simp: receipt_phase_def go_Inr drain_receipts_def)
  have proofs: "ids_run W y" if ph: "proof_phase c ops r p x = Some (Inr (o', y))" and gx: "ids_run W x" for p x o' y
  proof -
    obtain x1 x2 where 1: "broadcast_proofs c ops r p x = Inr x1"
      "rt_drain ops (handle_proof c r) (rt_flush ops x1) = Some x2"
      and 2: "(if \<not> (has_proof r (pr_candidate_requester p) (rt_log x2) \<and>
             has_proof r (pr_candidate_provider p) (rt_log x2))
         then Some (Inr (Fallback, x2)) else receipt_phase c ops r p x2) = Some (Inr (o', y))"
      using ph by (auto simp: proof_phase_def go_Inr drain_proofs_def)
    have "ids_run W x2" using good_drain [OF 1(2) good_proofs [OF 1(1) gx]] handlers_keep_ids(3) by blast
    with 2 receipts show ?thesis by (auto split: if_split_asm)
  qed
  have proposals: "ids_run W y" if ph: "proposal_phase c ops r x = Some (Inr (o', y))" and gx: "ids_run W x" for x o' y
  proof -
    obtain b x1 where 1: "broadcast_proposal c ops r x = Inr (b, x1)"
      and 2: "(if \<not> b then Some (Inr (Fallback, x1)) else
         go (drained (drain_proposal c ops r (rt_flush ops x1))) (\<lambda>rt.
         case logged_proposal r (rt_log rt) of None \<Rightarrow> Some (Inr (Fallback, rt))
         | Some p \<Rightarrow> proof_phase c ops r p rt)) = Some (Inr (o', y))"
      using ph by (auto simp: proposal_phase_def go_Inr)
    have g1: "ids_run W x1" by (rule good_proposal [OF 1 gx])
    have "ids_run W x2" if "rt_drain ops (handle_proposal c r) (rt_flush ops x1) = Some x2" for x2
      using good_drain [OF that g1] handlers_keep_ids(2) by blast
    with 2 g1 proofs show ?thesis
      by (fastforce simp: go_Inr drain_proposal_def split: if_split_asm option.split_asm)
  qed
  obtain x1 x2 where 1: "broadcast_commitments c ops r rt = Inr x1"
    and 2: "rt_drain ops (handle_commitment r) (rt_flush ops x1) = Some x2"
    and 3: "(case topo_requester (rt_topology x2) of
       None \<Rightarrow> Some (Inl (Panic ''from_raw enforces exactly one requester''))
     | Some q \<Rightarrow>
         if \<not> bt_contains (rm_commitments (rt_round_machine x2)) (nc_id q)
         then Some (Inr (Fallback, reject_msg r (nc_id q) ''round'' ''requester_missing'' x2))
         else proposal_phase c ops r x2) = Some (Inr (outcome, rt'))"
    using assms(1) by (auto simp: run_one_round_def go_Inr drain_commitments_def)
  have g2: "ids_run W x2"
    using good_drain [OF 2] good_commitments [OF 1 assms(2)] handlers_keep_ids(1) by blast
  have "node_wf (nc_id q)" if "topo_requester (rt_topology x2) = Some q" for q
    using find_Some_mem [OF that [unfolded topo_requester_def]] g2 by (simp add: ids_run_def ids_inv_def)
  then show ?thesis
    using 3 g2 proposals by (auto split: option.split_asm if_split_asm)
qed

lemma good_rounds:
  "run_rounds c ops n fr rt = Some (Inr (x, rt')) \<Longrightarrow> ids_run W rt \<Longrightarrow> ids_run W rt'"
proof (induction n arbitrary: fr rt)
  case (Suc n)
  let ?r = "rm_current (rt_round_machine rt)"
  obtain outcome rt1 where 1: "run_one_round c ops ?r rt = Some (Inr (outcome, rt1))"
    and 2: "(case outcome of
           Finalized \<Rightarrow> Some (Inr ((True, ?r), observe (OnRoundCommitted ?r (outcome = Finalized)) rt1))
         | Fallback \<Rightarrow>
             (case advance_fallback (rt_round_machine
                 (observe (OnRoundCommitted ?r (outcome = Finalized)) rt1)) of
                (Inl e, _) \<Rightarrow> Some (Inl (Fail (RoundErr e)))
              | (Inr _, m) \<Rightarrow> run_rounds c ops n ?r
                  (observe (OnRoundCommitted ?r (outcome = Finalized)) rt1\<lparr>rt_round_machine := m\<rparr>)))
       = Some (Inr (x, rt'))"
    using Suc.prems(1) by (auto simp: go_Inr Let_def)
  have "ids_run W (observe e rt1)" "ids_run W (observe e rt1\<lparr>rt_round_machine := m\<rparr>)" for e m
    using good_round [OF 1 Suc.prems(2)] by simp_all
  with 2 Suc.IH show ?case
    by (cases outcome) (auto split: prod.split_asm sum.split_asm)
qed simp

lemma run_ids_wf:
  assumes new: "runtime_new c t tr agents sc mr = Inr rt"
    and run: "run c ops run_id (with_run_salt salt rt) = Some (Inr out)"
    and wf: "\<forall>n \<in> set (topo_nodes t). node_wf (nc_id n)" and "W tr"
  shows "log_ids_wf (ro_log out)"
proof -
  let ?rt = "with_run_salt salt rt\<lparr>rt_log := log_new run_id\<rparr>"
  have start: "ids_run W ?rt"
    using new wf \<open>W tr\<close>
    by (auto simp: runtime_new_Inr ids_run_def with_run_salt_def ids_inv_def loose_ids_wf_def log_new_def)
  obtain fin fr rt' where
    r: "run_rounds c ops (unat (rt_max_rounds (with_run_salt salt rt))) 0 ?rt = Some (Inr ((fin, fr), rt'))"
    and out: "ro_log out = rt_log (close_run fin fr rt')"
    using run by (auto simp: run_def go_Inr)
  have "loose_ids_wf (rt_log rt')" using good_rounds [OF r start] by (simp add: ids_run_def ids_inv_def)
  then have loose: "loose_ids_wf (ro_log out)"
    by (simp add: out close_run_def Let_def loose_ids_wf_def set_final_round_def set_abort_reason_def)
  have inv: "log_inv c t (ro_final_round out) (ro_log out)"
    using run_log_post(1) [OF new run] by (simp add: run_post_def)
  have node: "node_wf i" if "find_node t i = Some cfg" for i cfg
    using find_Some_mem [OF that [unfolded find_node_def]] wf by auto
  have commits: "node_wf (cr_node_id x) \<and> intent_node (cr_public_intent x) = cr_node_id x"
    if "x \<in> set (log_commitments (ro_log out))" for x
    using inv that node by (auto simp: log_inv_def commitment_sound_def)
  have found: "node_wf i" if "find_commitment (ro_log out) i r = Some x" for i r x
    using find_Some_mem [OF that [unfolded find_commitment_def]] commits by auto
  have proposer: "node_wf p" if "deterministic_proposer c t r = Inr p" for r p
  proof -
    from that have "p \<in> set (map nc_id (providers_stable_order t))"
      by (auto simp: deterministic_proposer_def dest: proposer_mem split: sum.split_asm)
    then show ?thesis using wf by (auto simp: providers_stable_order_def)
  qed
  have "proposal_ids_wf p" if "p \<in> set (log_proposals (ro_log out))" for p
  proof -
    have "proposal_inv c t (ro_log out) p" using inv that by (simp add: log_inv_def)
    then show ?thesis
      unfolding proposal_inv_def proposal_ids_wf_def by (blast intro: found proposer)
  qed
  moreover have "node_wf (pf_node_id q)" if "q \<in> set (log_proofs (ro_log out))" for q
  proof -
    have "proof_linked c (ro_log out) q" using inv that by (simp add: log_inv_def)
    then show ?thesis unfolding proof_linked_def by (blast intro: found)
  qed
  ultimately show ?thesis
    using loose commits by (simp add: log_ids_wf_def loose_ids_wf_def commitment_ids_wf_def)
qed

end

interpretation bus_origins: origin_source bus_ops "\<lambda>b. \<forall>m \<in> set (bus_queue b). origin_wf m"
  by (rule origin_source.intro, rule bus_source)

end
