(* ===== verification/Demo_Bundle.thy ===== *)
theory Demo_Bundle
  imports Demo Log_Ids
begin

text \<open>
  What \<open>demo\<close> leaves on disk: its bundle is accepted by \<open>verify\<close> with the same report, the
  manifest lists the directory, and no file it does not own is lost or changed.
\<close>

section \<open>Files that are kept\<close>

text \<open>
  \<open>kept K h h'\<close>: the working directory and the permissions are the same, and every entry of
  \<open>h\<close> whose key is not in \<open>K\<close> is still there unchanged.
\<close>

definition kept :: "(string list \<Rightarrow> bool) \<Rightarrow> fs \<Rightarrow> fs \<Rightarrow> bool" where
  "kept K h h' \<longleftrightarrow> fs_cwd h' = fs_cwd h \<and> fs_denied h' = fs_denied h \<and>
     (\<forall>k v. \<not> K k \<longrightarrow> fs_lookup h k = Some v \<longrightarrow> fs_lookup h' k = Some v)"

interpretation kept: io_frame "kept K" for K
  by unfold_locales (auto simp: kept_def)

lemma keptD:
  assumes "kept K h h'"
  shows "fs_cwd h' = fs_cwd h" "fs_denied h' = fs_denied h" "fs_key h' p = fs_key h p"
    "\<not> K k \<Longrightarrow> fs_lookup h k = Some v \<Longrightarrow> fs_lookup h' k = Some v"
  using assms by (auto simp: kept_def fs_key_def)

lemma kept_mono: "kept K h h' \<Longrightarrow> (\<And>k. K k \<Longrightarrow> L k) \<Longrightarrow> kept L h h'"
  by (auto simp: kept_def)

lemma kept_put: "k \<noteq> [] \<Longrightarrow> K k \<or> fs_lookup h k = None \<Longrightarrow> kept K h (fs_put k v h)"
  by (auto simp: kept_def lookup_put)

lemma kept_write: "K (fs_key h p) \<or> fs_lookup h (fs_key h p) = None \<Longrightarrow> kept K h (snd (fs_write p text h))"
  by (auto simp: fs_write_def Let_def kept.frame_refl intro!: kept_put)

lemma kept_remove: "K (fs_key h p) \<Longrightarrow> kept K h (snd (fs_remove_file p h))"
  by (auto simp: fs_remove_file_def Let_def kept.frame_refl kept_def lookup_del
      split: option.splits fnode.splits)
    (metis fs_lookup_def fnode.distinct(1) lookup_del option.inject)+

lemma kept_make_dirs: "[] \<notin> set ks \<Longrightarrow> kept K h (snd (make_dirs ks h))"
proof (induction ks h rule: make_dirs.induct)
  case (2 k ks h)
  show ?case
  proof (cases "fs_lookup h k")
    case None
    then have "kept K h (fs_put k FDir h)" using 2 by (intro kept_put) auto
    with None 2 show ?thesis by (auto intro: kept.frame_trans kept.frame_refl)
  next
    case (Some v)
    with 2 show ?thesis by (cases v) (auto intro: kept.frame_refl)
  qed
qed (simp add: kept.frame_refl)

lemma kept_create_dir_all: "kept K h (snd (fs_create_dir_all p h))"
  by (auto simp: fs_create_dir_all_def kept.frame_refl ancestors_def intro!: kept_make_dirs)

text \<open>One step of a chain: what the step keeps, then what the rest keeps.\<close>

lemma kept_then:
  assumes "kept K h (snd (m h))" "\<And>x h'. m h = (Inr x, h') \<Longrightarrow> kept K h' (snd (k x h'))"
  shows "kept K h (snd (io_then m k h))"
  using assms by (auto simp: io_then_def split: prod.splits sum.splits intro: kept.frame_trans)

lemma kept_map_err [simp]: "snd (io_map_err f m h) = snd (m h)"
  by (simp add: io_map_err_def split: prod.splits sum.splits)

lemma kept_pure [simp]: "snd (io_return x h) = h" "snd (io_fail e h) = h" "snd (io_get f h) = h"
  by (simp_all add: io_return_def io_fail_def io_get_def)

definition owned_key :: "string list \<Rightarrow> string list \<Rightarrow> bool" where
  "owned_key d k \<longleftrightarrow> (\<exists>n \<in> set OWNED_FILES. k = d @ [n])"

lemma owned_names:
  "n \<in> set OWNED_FILES \<Longrightarrow> plain_name n" "n \<in> set OWNED_FILES \<Longrightarrow> owned_key d (d @ [n])"
  by (auto simp: OWNED_FILES_def owned_key_def)

text \<open>
  \<open>owning K d m\<close>: wherever all owned keys of the directory \<open>d\<close> are in \<open>K\<close>, the step \<open>m\<close>
  keeps every other entry, whether it succeeds or not.
\<close>

definition owning :: "(string list \<Rightarrow> bool) \<Rightarrow> string \<Rightarrow> ('e, 'a) io \<Rightarrow> bool" where
  "owning K d m \<longleftrightarrow> (\<forall>h. (\<forall>k. owned_key (fs_key h d) k \<longrightarrow> K k) \<longrightarrow> kept K h (snd (m h)))"

named_theorems owning_intros \<open>steps that change owned entries only\<close>

lemma owningD:
  "owning K d m \<Longrightarrow> (\<And>k. owned_key (fs_key h d) k \<Longrightarrow> K k) \<Longrightarrow> kept K h (snd (m h))"
  by (simp add: owning_def)

lemma owning_then [owning_intros]:
  assumes m: "owning K d m" and k: "\<And>x. owning K d (k x)"
  shows "owning K d (io_then m k)"
  unfolding owning_def
proof (intro allI impI)
  fix h assume own: "\<forall>k. owned_key (fs_key h d) k \<longrightarrow> K k"
  then have step: "kept K h (snd (m h))" using m by (simp add: owning_def)
  have "kept K h' (snd (k x h'))" if "m h = (Inr x, h')" for x h'
    using k [of x] step own that by (simp add: owning_def keptD(3))
  then show "kept K h (snd (io_then m k h))" using step by (intro kept_then)
qed

lemma owning_pure [owning_intros]:
  "owning K d (io_return x)" "owning K d (io_fail e)" "owning K d (io_get f)"
  by (simp_all add: owning_def kept.frame_refl)

lemma owning_map_err [owning_intros]: "owning K d m \<Longrightarrow> owning K d (io_map_err f m)"
  by (simp add: owning_def)

lemma owning_write [owning_intros]:
  "n \<in> set OWNED_FILES \<Longrightarrow> owning K d (fs_write (path_join d n) text)"
  unfolding owning_def using owned_names by (auto intro!: kept_write)

lemma owning_remove [owning_intros]:
  "n \<in> set OWNED_FILES \<Longrightarrow> owning K d (fs_remove_file (path_join d n))"
  unfolding owning_def using owned_names by (auto intro!: kept_remove)

text \<open>A choice made on the file system the step starts in.\<close>

lemma owning_choice:
  "(\<And>h. owning K d (m h)) \<Longrightarrow> owning K d (\<lambda>h. m h h)"
  by (simp add: owning_def)

lemma owning_const: "owning K d (\<lambda>h. (x, h))"
  by (simp add: owning_def kept.frame_refl)

lemma remove_owned_choice:
  "remove_owned d (n # ns) = (\<lambda>h. (if fs_exists h (path_join d n)
     then io_then (io_map_err io_message (fs_remove_file (path_join d n))) (\<lambda>_. remove_owned d ns)
     else remove_owned d ns) h)"
  by (auto simp: fun_eq_iff Let_def)

lemma owning_remove_owned [owning_intros]:
  "set ns \<subseteq> set OWNED_FILES \<Longrightarrow> owning K d (remove_owned d ns)"
proof (induction ns)
  case (Cons n ns)
  then have "owning K d (remove_owned d ns)" "n \<in> set OWNED_FILES" by simp_all
  then have "owning K d (if fs_exists h (path_join d n)
     then io_then (io_map_err io_message (fs_remove_file (path_join d n))) (\<lambda>_. remove_owned d ns)
     else remove_owned d ns)" for h
    by (cases "fs_exists h (path_join d n)")
      (simp_all only: if_True if_False owning_then owning_map_err owning_remove)
  then show ?case unfolding remove_owned_choice by (rule owning_choice)
qed (auto simp: owning_def kept.frame_refl)

lemma owning_force_clean [owning_intros]: "owning K d (force_clean_owned_files d)"
  using owning_remove_owned [of OWNED_FILES K d]
  by (auto simp: owning_def force_clean_owned_files_def kept.frame_refl)

lemma owning_files:
  "''coordination_log.json'' \<in> set OWNED_FILES" "''verifier_report.json'' \<in> set OWNED_FILES"
  "''run_status.json'' \<in> set OWNED_FILES" "''completion_receipt.json'' \<in> set OWNED_FILES"
  "''topology.toml'' \<in> set OWNED_FILES" "''scenario.toml'' \<in> set OWNED_FILES"
  "''bundle_README.md'' \<in> set OWNED_FILES"
  by (simp_all add: OWNED_FILES_def)

lemma owning_write_log [owning_intros]: "owning K (aw_dir w) (write_coordination_log j w log)"
proof -
  have "owning K (aw_dir w) (io_then (write_file (path_join (aw_dir w) ''coordination_log.json'') s)
      (\<lambda>_. io_return out))" for s and out :: string
    unfolding write_file_def by (intro owning_intros owning_files)
  then show ?thesis
    by (auto simp: owning_def write_coordination_log_def Let_def kept.frame_refl split: sum.splits)
qed

lemma owning_writes [owning_intros]:
  "owning K (aw_dir w) (write_verifier_report j w report)"
  "owning K (aw_dir w) (write_run_status j w status)"
  "owning K (aw_dir w) (write_receipt_copy j w receipt)"
  "owning K (aw_dir w) (write_bundle_readme w body)"
  unfolding write_verifier_report_def write_run_status_def write_receipt_copy_def
    write_bundle_readme_def write_file_def Let_def
  by (auto split: sum.split option.split intro!: owning_intros owning_files)

lemma owning_persist [owning_intros]:
  "n \<in> set OWNED_FILES \<Longrightarrow> owning K d (persist_text_copy d n text)"
  unfolding persist_text_copy_def by (intro owning_intros)

lemma owning_demo_write: "owning K (aw_dir w) (demo_write c j args topology outcome w)"
  unfolding demo_write_def art_def read_source_def Let_def
  by (intro owning_intros owning_files; cases "da_scenario args"; auto intro!: owning_intros owning_files)

section \<open>Forced runs\<close>

lemma owning_writer_new: "kept K h (snd (writer_new dir h))"
  unfolding writer_new_def io_then_def
  using kept_create_dir_all [of K h dir]
  by (auto simp: io_get_def io_map_err_def io_return_def kept.frame_refl split: sum.splits prod.splits)

lemma writer_new_dir: "writer_new dir h = (Inr w, h') \<Longrightarrow> aw_dir w = dir"
  by (auto simp: writer_new_def split: if_splits)

lemma kept_io_get_then:
  "(\<And>x. f h = Inr x \<Longrightarrow> kept K h (snd (k x h))) \<Longrightarrow> kept K h (snd (io_then (io_get f) k h))"
  by (rule kept_then) (auto simp: kept.frame_refl)

lemma demo_open_forced:
  assumes "da_force args" "\<And>k. owned_key (fs_key h (da_artifacts args)) k \<Longrightarrow> K k"
  shows "kept K h (snd (demo_open args h))"
    "demo_open args h = (Inr (w, prev), h') \<Longrightarrow> aw_dir w = da_artifacts args"
proof -
  let ?clean = "\<lambda>w. io_then (io_map_err (\<lambda>s. CmdErr (RunIo (IoMessage s)))
      (force_clean_owned_files (da_artifacts args))) (\<lambda>_. io_return (w, None))"
  have eq: "demo_open args = io_then (art (writer_new (da_artifacts args))) ?clean"
    using assms(1) by (simp add: demo_open_def)
  show "kept K h (snd (demo_open args h))"
    unfolding eq
  proof (rule kept_then)
    show new: "kept K h (snd (art (writer_new (da_artifacts args)) h))"
      by (simp add: art_def owning_writer_new)
    fix w h' assume "art (writer_new (da_artifacts args)) h = (Inr w, h')"
    then have "fs_key h' p = fs_key h p" for p using new by (simp add: keptD(3))
    then show "kept K h' (snd (?clean w h'))"
      using assms(2) by (intro owningD [where d = "da_artifacts args"] owning_intros) simp
  qed
  show "demo_open args h = (Inr (w, prev), h') \<Longrightarrow> aw_dir w = da_artifacts args"
    using assms(1) by (auto simp: demo_open_def art_def dest: writer_new_dir)
qed

text \<open>What \<open>demo\<close> does to the file system is opening the directory and writing the bundle.\<close>

lemma demo_phases:
  assumes "\<And>t out w prev h'. demo_open args h = (Inr (w, prev), h') \<Longrightarrow>
      kept K h' (snd (demo_write c j args t out w h'))"
    and "kept K h (snd (demo_open args h))"
  shows "kept K h (snd (demo c j tm args h))"
  unfolding demo_def
  by (auto intro!: kept_io_get_then kept_then assms split: prod.split simp: kept.frame_refl)

lemma forced_demo_keeps:
  assumes "da_force args"
  shows "kept (owned_key (fs_key h (da_artifacts args))) h (snd (demo c j tm args h))"
proof (rule demo_phases)
  let ?K = "owned_key (fs_key h (da_artifacts args))"
  show op: "kept ?K h (snd (demo_open args h))" by (rule demo_open_forced(1) [OF assms])
  fix t out w prev h' assume w: "demo_open args h = (Inr (w, prev), h')"
  have "aw_dir w = da_artifacts args" using demo_open_forced(2) [OF assms _ w] by blast
  moreover have "fs_key h' p = fs_key h p" for p using op w by (simp add: keptD(3))
  ultimately show "kept ?K h' (snd (demo_write c j args t out w h'))"
    by (intro owningD [OF owning_demo_write]) simp
qed

section \<open>Rotating runs\<close>

lemma open_writer: "open_versioned dir h = Some (Inr (w, prev), h') \<Longrightarrow> aw_dir w = dir"
  by (auto simp: open_versioned_def split: sum.splits if_splits option.splits)

lemma demo_open_dir: "demo_open args h = (Inr (w, prev), h') \<Longrightarrow> aw_dir w = da_artifacts args"
proof (cases "da_force args")
  case True
  then show "demo_open args h = (Inr (w, prev), h') \<Longrightarrow> ?thesis"
    using demo_open_forced(2) [of args h "\<lambda>_. True"] by simp
next
  case False
  then show "demo_open args h = (Inr (w, prev), h') \<Longrightarrow> ?thesis"
    by (auto simp: demo_open_def art_def split: option.splits dest: open_writer)
qed

text \<open>What \<open>demo\<close> leaves: what it found, what opening left, or what the writes left.\<close>

lemma demo_outcomes:
  obtains (early) "snd (demo c j tm args h) = h"
  | (opened) "snd (demo c j tm args h) = snd (demo_open args h)"
  | (written) t out w prev h1 where "demo_open args h = (Inr (w, prev), h1)"
      "snd (demo c j tm args h) = snd (demo_write c j args t out w h1)"
proof -
  have "snd (demo c j tm args h) = h \<or> snd (demo c j tm args h) = snd (demo_open args h) \<or>
    (\<exists>t out w prev h1. demo_open args h = (Inr (w, prev), h1) \<and>
      snd (demo c j tm args h) = snd (demo_write c j args t out w h1))"
    unfolding demo_def io_then_def io_get_def io_return_def
    by (auto split: prod.splits sum.splits) (metis snd_conv)+
  then show thesis using early opened written by blast
qed

definition loses_nothing :: "string list \<Rightarrow> fs \<Rightarrow> fs \<Rightarrow> bool" where
  "loses_nothing k h h' \<longleftrightarrow>
     (\<forall>i v. fs_lookup h i = Some v \<longrightarrow> fs_lookup h' i = Some v) \<or>
     (\<exists>t. fs_lookup h t = None \<and>
        (\<forall>s v. fs_lookup h (k @ s) = Some v \<longrightarrow> fs_lookup h' (t @ s) = Some v) \<and>
        (\<forall>i v. \<not> prefix k i \<longrightarrow> fs_lookup h i = Some v \<longrightarrow> fs_lookup h' i = Some v))"

lemma kept_loses_nothing: "kept (\<lambda>_. False) h h' \<Longrightarrow> loses_nothing k h h'"
  by (simp add: loses_nothing_def kept_def)

lemma kept_vacant:
  assumes "vacant d h" "kept (owned_key d) h h'"
  shows "kept (\<lambda>_. False) h h'"
proof -
  have "\<not> owned_key d k" if "fs_lookup h k = Some v" for k v
    using that assms(1) by (auto simp: vacant_def owned_key_def)
  then show ?thesis using assms(2) by (auto simp: kept_def)
qed

lemma rotated_loses_nothing:
  assumes "rotated k t h h1" "fs_wf h" "kept (\<lambda>_. False) h1 h'"
  shows "loses_nothing k h h'"
proof -
  have "\<not> prefix t i" if "fs_lookup h i = Some v" for i v
    using that assms(1) unused_target(1) [OF assms(2)] by (auto simp: rotated_def prefix_def)
  then show ?thesis
    using assms(1,3) unfolding loses_nothing_def rotated_def kept_def
    by (intro disjI2 exI [of _ t]) auto
qed

lemma unforced_demo_loses_nothing:
  assumes wf: "fs_wf h" and force: "\<not> da_force args"
  shows "loses_nothing (fs_key h (da_artifacts args)) h (snd (demo c j tm args h))"
proof -
  let ?k = "fs_key h (da_artifacts args)"
  note same = kept_loses_nothing [OF kept.frame_refl]
  note created = kept_loses_nothing [OF kept_create_dir_all]
  have fs_open: "demo_open args h = (Inl CmdHangs, h) \<and> open_versioned (da_artifacts args) h = None \<or>
      (\<exists>r. open_versioned (da_artifacts args) h = Some (r, snd (demo_open args h)) \<and>
        (\<forall>x. fst (demo_open args h) = Inr x \<longrightarrow> r = Inr x))"
    using force
    by (auto simp: demo_open_def art_def io_map_err_def split: option.splits prod.splits sum.splits)
  show ?thesis
  proof (cases rule: demo_outcomes [of c j tm args h])
    case early
    then show ?thesis by (simp add: same)
  next
    case opened
    show ?thesis
    proof (cases "open_versioned (da_artifacts args) h")
      case None
      then show ?thesis using fs_open opened same by auto
    next
      case (Some r)
      with fs_open obtain r where "open_versioned (da_artifacts args) h = Some (r, snd (demo_open args h))"
        by auto
      from wf this show ?thesis
      proof (cases rule: open_versioned_cases)
        case (rotated target parent stem v)
        then show ?thesis unfolding opened
          by (intro rotated_loses_nothing [OF _ wf kept.frame_refl]) (auto simp: rotated_def)
      qed (use opened same created in auto)
    qed
  next
    case (written t out w prev h1)
    have w: "aw_dir w = da_artifacts args" using demo_open_dir [OF written(1)] .
    obtain r where op: "open_versioned (da_artifacts args) h = Some (Inr (w, prev), h1)"
      using fs_open written(1) by auto
    have step: "kept (owned_key (fs_key h1 (da_artifacts args))) h1 (snd (demo c j tm args h))"
      unfolding written(2) w [symmetric] by (rule owningD [OF owning_demo_write])
    from wf op show ?thesis
    proof (cases rule: open_versioned_cases)
      case fresh
      have "kept (\<lambda>_. False) h h1" using fresh(2) kept_create_dir_all kept.frame_refl by metis
      moreover from this have "kept (\<lambda>_. False) h1 (snd (demo c j tm args h))"
        using step fresh(3) by (intro kept_vacant [of ?k]) (simp_all add: keptD(3))
      ultimately show ?thesis by (intro kept_loses_nothing) (rule kept.frame_trans)
    next
      case (rotated target parent stem v)
      then have "vacant ?k h1" "fs_key h1 (da_artifacts args) = ?k"
        by (simp_all add: rotated_def vacant_def fs_key_def)
      with step have "kept (\<lambda>_. False) h1 (snd (demo c j tm args h))" by (metis kept_vacant)
      then show ?thesis using rotated(2) by (intro rotated_loses_nothing [OF _ wf]) (auto simp: rotated_def)
    qed simp
  qed
qed

section \<open>The bundle and its verification\<close>

lemma demo_write_steps:
  assumes "demo_write c j args t out w h = (Inr report, h')"
  obtains topo h1 h2 h3 h4 h5 h6 o1 o4 o5 o6 o7 where
    "report = verify_log c t (ro_log out)"
    "write_coordination_log j w (ro_log out) h = (Inr o1, h1)"
    "fs_read_to_string h1 (da_topology args) = Inr topo"
    "fs_write (path_join (aw_dir w) ''topology.toml'') topo h1 = (Inr (), h2)"
    "write_verifier_report j w (verify_log c t (ro_log out)) h3 = (Inr o4, h4)"
    "h3 = h2 \<or> (\<exists>s. fs_write (path_join (aw_dir w) ''scenario.toml'') s h2 = (Inr (), h3))"
    "write_receipt_copy j w (pick_final_receipt (ro_log out)) h4 = (Inr o5, h5)"
    "write_run_status j w (run_status_of out (bundle_manifest h5 (aw_dir w))) h5 = (Inr o6, h6)"
    "write_bundle_readme w (render_bundle_readme (run_status_of out (bundle_manifest h5 (aw_dir w)))) h6 =
      (Inr o7, h')"
proof -
  have conv: "map_sum f id r = Inr x \<longleftrightarrow> r = Inr x" for f :: "'x \<Rightarrow> 'y" and r and x :: 'z
    by (cases r) auto
  from assms show thesis
    unfolding demo_write_def art_def read_source_def persist_text_copy_def Let_def
    by (cases "da_scenario args") (auto simp: conv elim!: that)
qed

lemma fs_lookup_write:
  assumes "fs_write (path_join d n) s h = (Inr (), h')" "plain_name n"
  shows "fs_lookup h' i = (if i = fs_key h d @ [n] then Some (FFile s) else fs_lookup h i)"
    "fs_key h' p = fs_key h p" "fs_denied h' = fs_denied h" "fs_lookup h (fs_key h d) = Some FDir"
    "fs_key h d @ [n] \<notin> set (fs_denied h)"
  using assms by (auto simp: fs_write_Inr lookup_put)

lemma fs_write_elsewhere:
  assumes "fs_write (path_join d n) s h = (Inr (), h')" "plain_name n"
  shows "(i = fs_key h d @ [n] \<or> fs_lookup h' i = fs_lookup h i) \<and>
    (\<forall>p. fs_key h' p = fs_key h p) \<and> fs_denied h' = fs_denied h"
  using fs_lookup_write [OF assms] by auto

text \<open>What a verifier needs to find, and may change, in a directory.\<close>

definition bundle_at :: "json \<Rightarrow> fs \<Rightarrow> string \<Rightarrow> coordination_log \<Rightarrow> string \<Rightarrow> bool" where
  "bundle_at j h d log topo \<longleftrightarrow> (let k = fs_key h d in
     fs_lookup h k = Some FDir \<and>
     (\<exists>s. json_log j log = Inr s \<and> fs_lookup h (k @ [''coordination_log.json'']) = Some (FFile s)) \<and>
     fs_lookup h (k @ [''topology.toml'']) = Some (FFile topo) \<and>
     (\<forall>n \<in> {''verifier_report.json'', ''run_status.json''}.
        fs_lookup h (k @ [n]) \<noteq> Some FDir \<and> k @ [n] \<notin> set (fs_denied h)))"

lemma set_bundle_manifest:
  assumes "fs_is_dir h d"
  shows "set (bundle_manifest h d) =
    {n. fs_lookup h (fs_key h d @ [n]) \<noteq> None} \<union> {''run_status.json'', ''bundle_README.md''}"
proof -
  have "set (add_manifest_name n files) = insert n (set files)" for n files
    by (auto simp: add_manifest_name_def list_ex_iff)
  moreover have "set (list_bundle_files h d) = {n. fs_lookup h (fs_key h d @ [n]) \<noteq> None}"
    using assms by (auto simp: list_bundle_files_def fs_read_dir_def fs_is_dir_def in_children)
  ultimately show ?thesis by (simp add: bundle_manifest_def insert_commute)
qed

text \<open>
  The writes of a bundle, in their order, leave what a verifier needs and a complete manifest.
\<close>

lemma bundle_written:
  assumes w1: "write_coordination_log j w (ro_log out) h = (Inr o1, h1)"
    and w2: "fs_write (path_join (aw_dir w) ''topology.toml'') topo h1 = (Inr (), h2)"
    and w4: "write_verifier_report j w report h3 = (Inr o4, h4)"
    and w3: "h3 = h2 \<or> (\<exists>s. fs_write (path_join (aw_dir w) ''scenario.toml'') s h2 = (Inr (), h3))"
    and w5: "write_receipt_copy j w receipt h4 = (Inr o5, h5)"
    and w6: "write_run_status j w (run_status_of out (bundle_manifest h5 (aw_dir w))) h5 = (Inr o6, h6)"
    and w7: "write_bundle_readme w body h6 = (Inr o7, h')" and nonempty: "aw_dir w \<noteq> []"
  shows "bundle_at j h' (aw_dir w) (ro_log out) topo"
    "\<exists>s. h1 = fs_put (fs_key h (aw_dir w) @ [''coordination_log.json'']) (FFile s) h"
    "\<exists>files s. fs_lookup h' (fs_key h (aw_dir w) @ [''run_status.json'']) = Some (FFile s) \<and>
      json_status j (run_status_of out files) = Inr s \<and> sorted files \<and>
      set files = {n. fs_lookup h' (fs_key h (aw_dir w) @ [n]) \<noteq> None}"
    "fs_key h' p = fs_key h p"
proof -
  let ?d = "aw_dir w"
  let ?k = "fs_key h ?d"
  obtain lt where lt: "json_log j (ro_log out) = Inr lt"
    "fs_write (path_join ?d ''coordination_log.json'') lt h = (Inr (), h1)"
    using w1 by (auto simp: write_coordination_log_Inr)
  note l1 = fs_lookup_write [OF lt(2), simplified]
  note l2 = fs_lookup_write [OF w2, simplified]
  have l3: "fs_lookup h3 i = fs_lookup h2 i \<or> i = fs_key h2 ?d @ [''scenario.toml'']"
    "fs_key h3 p = fs_key h2 p" "fs_denied h3 = fs_denied h2" for i p
    using w3 by (auto dest!: fs_write_elsewhere [where i = i])
  obtain rt where "fs_write (path_join ?d ''verifier_report.json'') rt h3 = (Inr (), h4)"
    using w4 by (auto simp: write_steps_Inr)
  note l4 = fs_lookup_write [OF this, simplified]
  have l5: "fs_lookup h5 i = fs_lookup h4 i \<or> i = fs_key h4 ?d @ [''completion_receipt.json'']"
    "fs_key h5 p = fs_key h4 p" "fs_denied h5 = fs_denied h4" for i p
    using w5 by (auto simp: write_receipt_copy_Inr split: option.splits
        dest!: fs_write_elsewhere [where i = i])
  obtain st where st: "json_status j (run_status_of out (bundle_manifest h5 ?d)) = Inr st"
    "fs_write (path_join ?d ''run_status.json'') st h5 = (Inr (), h6)"
    using w6 by (auto simp: write_steps_Inr)
  note l6 = fs_lookup_write [OF st(2), simplified]
  have "fs_write (path_join ?d ''bundle_README.md'') body h6 = (Inr (), h')"
    using w7 by (auto simp: write_steps_Inr)
  note l7 = fs_lookup_write [OF this, simplified]
  have keys: "fs_key h5 p = fs_key h p" "fs_key h4 p = fs_key h p" "fs_key h2 p = fs_key h p" for p
    by (simp_all add: l1 l2 l3 l4 l5)
  have child: "n \<in> {''run_status.json'', ''bundle_README.md''} \<or>
      fs_lookup h' (?k @ [n]) = fs_lookup h5 (?k @ [n])" for n
    by (simp add: l7(1) l6(1,2) keys)
  have final: "fs_lookup h' ?k = Some FDir" "fs_lookup h5 ?k = Some FDir"
    using l7(4) l6(4) by (simp_all add: l7(1) l6(2) keys)
  have log: "fs_lookup h' (?k @ [''coordination_log.json'']) = Some (FFile lt)"
    using child [of "''coordination_log.json''"] l5(1) [of "?k @ [''coordination_log.json'']"]
      l3(1) [of "?k @ [''coordination_log.json'']"] by (simp add: l4 keys l2 l1)
  have topo: "fs_lookup h' (?k @ [''topology.toml'']) = Some (FFile topo)"
    using child [of "''topology.toml''"] l5(1) [of "?k @ [''topology.toml'']"]
      l3(1) [of "?k @ [''topology.toml'']"] by (simp add: l4 keys l2 l1)
  have rep: "fs_lookup h' (?k @ [''verifier_report.json'']) = Some (FFile rt)"
    using child [of "''verifier_report.json''"] l5(1) [of "?k @ [''verifier_report.json'']"]
    by (simp add: l4 l3 keys)
  have stat: "fs_lookup h' (?k @ [''run_status.json'']) = Some (FFile st)"
    by (simp add: l7(1) l6 keys)
  have key': "fs_key h' p = fs_key h p" for p by (simp add: l7(2) l6(2) keys)
  then show "fs_key h' p = fs_key h p" .
  show "bundle_at j h' ?d (ro_log out) topo"
    using final(1) lt(1) log topo rep stat l4(5) l6(5)
    by (simp add: bundle_at_def Let_def key' l7(3) l6(3) l5(3) l4(3) l3(2) keys)
  show "\<exists>s. h1 = fs_put (?k @ [''coordination_log.json'']) (FFile s) h"
    using lt(2) by (auto simp: fs_write_Inr)
  have "set (bundle_manifest h5 ?d) = {n. fs_lookup h' (?k @ [n]) \<noteq> None}"
  proof -
    have "fs_is_dir h5 ?d"
      using final(2) nonempty by (simp add: fs_is_dir_def keys)
    then show ?thesis using child by (auto simp: set_bundle_manifest keys l7(1) l6(1,2))
  qed
  then show "\<exists>files s. fs_lookup h' (?k @ [''run_status.json'']) = Some (FFile s) \<and>
      json_status j (run_status_of out files) = Inr s \<and> sorted files \<and>
      set files = {n. fs_lookup h' (?k @ [n]) \<noteq> None}"
    using stat st(1) by (metis bundle_manifest_def sorted_sort)
qed

lemma demo_write_bundle:
  assumes "demo_write c j args t out w h = (Inr report, h')" and nonempty: "aw_dir w \<noteq> []"
  shows "report = verify_log c t (ro_log out)"
    "\<exists>topo. bundle_at j h' (aw_dir w) (ro_log out) topo \<and>
      (\<exists>s. fs_read_to_string (fs_put (fs_key h (aw_dir w) @ [''coordination_log.json'']) (FFile s) h)
        (da_topology args) = Inr topo)"
    "\<exists>files s. fs_lookup h' (fs_key h (aw_dir w) @ [''run_status.json'']) = Some (FFile s) \<and>
      json_status j (run_status_of out files) = Inr s \<and> sorted files \<and>
      set files = {n. fs_lookup h' (fs_key h (aw_dir w) @ [n]) \<noteq> None}"
proof -
  from assms(1) obtain topo h1 h2 h3 h4 h5 h6 o1 o4 o5 o6 o7 where
    report: "report = verify_log c t (ro_log out)" and
    w1: "write_coordination_log j w (ro_log out) h = (Inr o1, h1)" and
    rd: "fs_read_to_string h1 (da_topology args) = Inr topo" and
    ws: "fs_write (path_join (aw_dir w) ''topology.toml'') topo h1 = (Inr (), h2)"
      "write_verifier_report j w (verify_log c t (ro_log out)) h3 = (Inr o4, h4)"
      "h3 = h2 \<or> (\<exists>s. fs_write (path_join (aw_dir w) ''scenario.toml'') s h2 = (Inr (), h3))"
      "write_receipt_copy j w (pick_final_receipt (ro_log out)) h4 = (Inr o5, h5)"
      "write_run_status j w (run_status_of out (bundle_manifest h5 (aw_dir w))) h5 = (Inr o6, h6)"
      "write_bundle_readme w (render_bundle_readme (run_status_of out (bundle_manifest h5 (aw_dir w)))) h6 =
      (Inr o7, h')" by (rule demo_write_steps)
  note written = bundle_written [OF w1 ws nonempty]
  show "report = verify_log c t (ro_log out)" by (rule report)
  show "\<exists>topo. bundle_at j h' (aw_dir w) (ro_log out) topo \<and>
      (\<exists>s. fs_read_to_string (fs_put (fs_key h (aw_dir w) @ [''coordination_log.json'']) (FFile s) h)
        (da_topology args) = Inr topo)"
    using written(1,2) rd by blast
  show "\<exists>files s. fs_lookup h' (fs_key h (aw_dir w) @ [''run_status.json'']) = Some (FFile s) \<and>
      json_status j (run_status_of out files) = Inr s \<and> sorted files \<and>
      set files = {n. fs_lookup h' (fs_key h (aw_dir w) @ [n]) \<noteq> None}"
    by (rule written(3))
qed

text \<open>\<open>verify\<close> on such a directory returns what the verifier says of the log.\<close>

lemma verify_bundle:
  assumes ok: "json_ok j" and idx: "log_indexed log" "log_ids_wf log" and bun: "bundle_at j h d log topo"
    and t: "topology_from_toml_str (toml_topology tm) parse_redact c topo = Inr t"
    and d: "validate_output_path d = Inr ()"
  shows "\<exists>h'. verify c j tm d h = (Inr (verify_log c t log), h')"
proof -
  let ?report = "verify_log c t log" and ?w = "\<lparr>aw_dir = d\<rparr>" and ?k = "fs_key h d"
  have d': "d \<noteq> []" "\<not> has_parent_dir d" using validate_no_parent [OF d] by auto
  obtain s where s: "json_log j log = Inr s"
    and look: "fs_lookup h ?k = Some FDir" "fs_lookup h (?k @ [''topology.toml'']) = Some (FFile topo)"
      "fs_lookup h (?k @ [''coordination_log.json'']) = Some (FFile s)"
      "fs_lookup h (?k @ [''verifier_report.json'']) \<noteq> Some FDir"
      "fs_lookup h (?k @ [''run_status.json'']) \<noteq> Some FDir"
    and allowed: "?k @ [''verifier_report.json''] \<notin> set (fs_denied h)"
      "?k @ [''run_status.json''] \<notin> set (fs_denied h)"
    using bun by (auto simp: bundle_at_def Let_def)
  have dir: "fs_is_dir h d" "fs_exists h d" using look(1) d' by (simp_all add: fs_is_dir_def fs_exists_def)
  have topo: "topology_load (read_text h) (toml_topology tm) parse_redact c (path_join d ''topology.toml'') = Inr t"
    using t d' look(2) by (simp add: topology_load_def validate_path_safe_def has_parent_dir_join
        read_text_def fs_read_to_string_def)
  have log: "read_coordination_log j h d = Inr log" using read_back_log [OF ok idx s d'(1) look(3)] .
  have new: "writer_new d h = (Inr ?w, h)"
    using dir d by (simp add: writer_new_def io_then_def io_get_def)
  obtain rt where rt: "json_report j ?report = Inr rt"
    using ok unfolding json_ok_def json_writes_def is_ok_iff by blast
  define h1 where "h1 = fs_put (?k @ [''verifier_report.json'']) (FFile rt) h"
  have w1: "write_verifier_report j ?w ?report h = (Inr (path_join d ''verifier_report.json''), h1)"
    using rt look(1,4) allowed(1) d' by (simp add: write_steps_Inr fs_write_Inr h1_def)
  have "\<exists>h2. write_run_status j ?w status h1 = (Inr (path_join d ''run_status.json''), h2)" for status
  proof -
    obtain st where "json_status j status = Inr st"
      using ok unfolding json_ok_def json_writes_def is_ok_iff by blast
    then show ?thesis using look(1,5) allowed(2) d'
      by (simp add: write_steps_Inr fs_write_Inr h1_def lookup_put)
  qed
  then obtain h2 where w2: "write_run_status j ?w \<lparr>st_run_id = log_run_id log,
      st_finalized = log_finalized log, st_final_round = log_final_round log,
      st_receipt_present = (pick_final_receipt log \<noteq> None), st_abort_reason = log_abort_reason log,
      st_rejection_count = length (log_rejections log), st_bundle_files = bundle_manifest h1 d\<rparr> h1 =
      (Inr (path_join d ''run_status.json''), h2)" by blast
  have "verify c j tm d h = (Inr ?report, h2)"
    using dir topo log new w1 w2
    by (simp add: verify_def art_def io_then_def io_get_def io_map_err_def io_return_def Let_def)
  then show ?thesis by blast
qed

section \<open>From demo to verify\<close>

lemma demo_Inr:
  assumes "demo c j tm args h = (Inr r, h')"
  obtains t agents sc out w prev h1 where
    "demo_load c tm args h = Inr (t, agents, sc)" "demo_run c args t agents sc = Inr out"
    "demo_open args h = (Inr (w, prev), h1)"
    "demo_write c j args t out w h1 = (Inr (dr_report r), h')"
    "dr_finalized r = ro_finalized out" "dr_rotated_prev r = prev"
    "dr_abort_reason r = log_abort_reason (ro_log out)"
  using assms that unfolding demo_def by (auto split: prod.splits)

lemma demo_open_valid:
  assumes "demo_open args h = (Inr (w, prev), h1)"
  shows "validate_output_path (da_artifacts args) = Inr ()"
  using assms
  by (auto simp: demo_open_def art_def writer_new_def open_versioned_def
      split: if_splits option.splits sum.splits)

lemma demo_open_outside:
  assumes wf: "fs_wf h" and op: "demo_open args h = (Inr (w, prev), h1)"
  shows "fs_key h1 p = fs_key h p"
    "\<not> prefix (fs_key h (da_artifacts args)) i \<Longrightarrow> fs_lookup h i = Some v \<Longrightarrow> fs_lookup h1 i = Some v"
proof -
  let ?k = "fs_key h (da_artifacts args)"
  have "fs_key h1 p = fs_key h p \<and>
    (\<not> prefix ?k i \<longrightarrow> fs_lookup h i = Some v \<longrightarrow> fs_lookup h1 i = Some v)"
  proof (cases "da_force args")
    case True
    have "kept (owned_key ?k) h h1" using demo_open_forced(1) [OF True, of h "owned_key ?k"] op by simp
    moreover have "\<not> owned_key ?k i" if "\<not> prefix ?k i" using that by (auto simp: owned_key_def)
    ultimately show ?thesis using keptD(3,4) by metis
  next
    case False
    then have "open_versioned (da_artifacts args) h = Some (Inr (w, prev), h1)"
      using op by (auto simp: demo_open_def art_def split: option.splits)
    from wf this show ?thesis
    proof (cases rule: open_versioned_cases)
      case fresh
      then have "kept (\<lambda>_. False) h h1" using kept_create_dir_all kept.frame_refl by metis
      then show ?thesis by (auto simp: kept_def fs_key_def)
    next
      case (rotated target parent stem v')
      have "\<not> prefix (fs_key h target) i" if "fs_lookup h i = Some v"
        using that rotated(2) unused_target(1) [OF wf] by (auto simp: rotated_def prefix_def)
      then show ?thesis using rotated(2) by (auto simp: rotated_def fs_key_def)
    qed simp
  qed
  then show "fs_key h1 p = fs_key h p"
    "\<not> prefix ?k i \<Longrightarrow> fs_lookup h i = Some v \<Longrightarrow> fs_lookup h1 i = Some v" by auto
qed

lemma demo_load_topology:
  assumes "demo_load c tm args h = Inr (t, agents, sc)"
  obtains s where "fs_read_to_string h (da_topology args) = Inr s"
    "topology_from_toml_str (toml_topology tm) parse_redact c s = Inr t"
proof -
  have conv: "map_sum f id r = Inr x \<longleftrightarrow> r = Inr x" for f :: "'x \<Rightarrow> 'y" and r and x :: 'z
    by (cases r) auto
  have "topology_load (read_text h) (toml_topology tm) parse_redact c (da_topology args) = Inr t"
    using assms by (auto simp: demo_load_def conv)
  then show thesis using that by (auto simp: topology_load_def read_text_def conv split: sum.split_asm)
qed

lemma demo_run_log:
  assumes "demo_run c args t agents sc = Inr out"
  obtains rt where "runtime_new c t bus_new agents sc (da_max_rounds args) = Inr rt"
    "run c bus_ops (da_run_id args) (with_run_salt (rt_run_salt rt) rt) = Some (Inr out)"
proof (cases "runtime_new c t bus_new agents sc (da_max_rounds args)")
  case (Inr rt)
  have "run c bus_ops (da_run_id args) rt = Some (Inr out)"
  proof (cases "run c bus_ops (da_run_id args) rt")
    case (Some y)
    then show ?thesis using assms Inr
      by (cases y; cases "projl y") (auto simp: demo_run_def)
  qed (use assms Inr in \<open>simp add: demo_run_def\<close>)
  then show thesis using that [OF Inr] by (simp add: with_run_salt_def)
qed (use assms in \<open>simp add: demo_run_def\<close>)

lemma demo_run_indexed:
  assumes "demo_run c args t agents sc = Inr out"
  shows "log_indexed (ro_log out)" "\<forall>n \<in> set (topo_nodes t). node_wf (nc_id n) \<Longrightarrow> log_ids_wf (ro_log out)"
proof -
  obtain rt where run: "runtime_new c t bus_new agents sc (da_max_rounds args) = Inr rt"
    "run c bus_ops (da_run_id args) (with_run_salt (rt_run_salt rt) rt) = Some (Inr out)"
    using assms by (rule demo_run_log)
  from run_log_post(1) [OF run] show "log_indexed (ro_log out)" by (simp add: run_post_def log_inv_def)
  show "\<forall>n \<in> set (topo_nodes t). node_wf (nc_id n) \<Longrightarrow> log_ids_wf (ro_log out)"
    by (rule bus_origins.run_ids_wf [OF run]) (simp_all add: bus_new_def)
qed

text \<open>The ids of a topology that loads.\<close>

lemma loaded_topology_ids:
  assumes "hex_ok c" "topology_from_toml_str parse redact c s = Inr t"
  shows "\<forall>n \<in> set (topo_nodes t). node_wf (nc_id n)"
  using assms topology_from_raw_wf [OF assms(1), of _ t]
  by (auto simp: topology_from_toml_str_def topology_wf_def node_config_wf_def split: sum.splits)

lemma demo_verify_same:
  assumes ok: "json_ok j" "hex_ok c" and wf: "fs_wf h"
    and apart: "\<not> prefix (fs_key h (da_artifacts args)) (fs_key h (da_topology args))"
    and run: "demo c j tm args h = (Inr r, h')"
  shows "\<exists>h''. verify c j tm (da_artifacts args) h' = (Inr (dr_report r), h'')"
proof -
  let ?d = "da_artifacts args"
  from run obtain t agents sc out w prev h1 where load: "demo_load c tm args h = Inr (t, agents, sc)"
    and out: "demo_run c args t agents sc = Inr out"
    and op: "demo_open args h = (Inr (w, prev), h1)"
    and wr: "demo_write c j args t out w h1 = (Inr (dr_report r), h')" by (rule demo_Inr)
  have w: "aw_dir w = ?d" using demo_open_dir [OF op] .
  have valid: "validate_output_path ?d = Inr ()" using demo_open_valid [OF op] .
  then have "aw_dir w \<noteq> []" using validate_no_parent w by auto
  note written = demo_write_bundle [OF wr this]
  obtain topo s where bun: "bundle_at j h' ?d (ro_log out) topo"
    and rd: "fs_read_to_string (fs_put (fs_key h1 ?d @ [''coordination_log.json'']) (FFile s) h1)
      (da_topology args) = Inr topo" using written(2) w by auto
  obtain s0 where s0: "fs_read_to_string h (da_topology args) = Inr s0"
    "topology_from_toml_str (toml_topology tm) parse_redact c s0 = Inr t"
    using demo_load_topology [OF load] .
  have "fs_lookup h (fs_key h (da_topology args)) = Some (FFile s0)"
    using s0(1) by (auto simp: fs_read_to_string_def split: if_splits option.splits fnode.splits)
  then have "fs_lookup h1 (fs_key h (da_topology args)) = Some (FFile s0)"
    using demo_open_outside(2) [OF wf op apart] by simp
  moreover have "fs_key h (da_topology args) \<noteq> fs_key h ?d @ [''coordination_log.json'']"
    using apart by (metis prefixI)
  ultimately have "topo = s0"
    using rd by (auto simp: fs_read_to_string_def demo_open_outside(1) [OF wf op] lookup_put split: if_splits)
  with s0(2) have "topology_from_toml_str (toml_topology tm) parse_redact c topo = Inr t" by simp
  then show ?thesis
    using verify_bundle [OF ok(1) demo_run_indexed(1) [OF out]
        demo_run_indexed(2) [OF out loaded_topology_ids [OF ok(2) s0(2)]] bun _ valid] written(1) by simp
qed

end
