(* ===== verification/Vertex_Transport.thy ===== *)
theory Vertex_Transport
  imports Log_Ids "HOL-Library.Sublist"
begin

text \<open>
  \<open>vertex_transport.rs\<close>: the adapter between the runtime and a \<open>tashi-vertex\<close> engine on a
  worker thread. The transport's own state is modelled as it is; what the worker thread
  does to its two channels between the transport's calls is a schedule, one entry per poll of
  the inbound channel. The worker's select loop is a function of the events it is offered.
  \<open>serde_json\<close> and the engine are parameters.
\<close>

section \<open>Transports that run dry\<close>

text \<open>
  A transport on which every delivered message uses something up: each of the runtime's drains
  returns, and so does a whole run, with an outcome or an error.
\<close>

locale finite_transport =
  fixes ops :: "'t transport" and left :: "'t \<Rightarrow> nat"
  assumes next_uses: "tr_next_ordered ops t = (Some m, t') \<Longrightarrow> left t' < left t"
begin

lemma drain_returns: "drain_loop (tr_next_ordered ops) body t s \<noteq> None"
proof (induction "left t" arbitrary: t s rule: less_induct)
  case less
  show ?case
  proof (cases "tr_next_ordered ops t")
    case (Pair mo t')
    then show ?thesis using less next_uses [of t _ t'] by (cases mo) (subst drain_loop.simps; simp)+
  qed
qed

lemma rt_drain_returns: "rt_drain ops body rt \<noteq> None"
  using drain_returns by (simp add: rt_drain_def)

lemma go_returns: "r \<noteq> None \<Longrightarrow> (\<And>x. k x \<noteq> None) \<Longrightarrow> go r k \<noteq> None"
  by (auto simp: go_def split: sum.splits)

lemma drained_returns: "r \<noteq> None \<Longrightarrow> drained r \<noteq> None"
  by (simp add: drained_def)

lemmas drains_return =
  drained_returns rt_drain_returns [of "handle_commitment _", folded drain_commitments_def]
  rt_drain_returns [of "handle_proposal _ _", folded drain_proposal_def]
  rt_drain_returns [of "handle_proof _ _", folded drain_proofs_def]
  rt_drain_returns [of "handle_receipt _", folded drain_receipts_def]

lemma run_one_round_returns: "run_one_round c ops round rt \<noteq> None"
proof -
  have "receipt_phase c ops round p rt \<noteq> None" for p rt
    unfolding receipt_phase_def by (intro go_returns drains_return) simp_all
  then have "proof_phase c ops round p rt \<noteq> None" for p rt
    unfolding proof_phase_def by (intro go_returns drains_return) simp_all
  then have "(case logged_proposal round l of None \<Rightarrow> Some (Inr (Fallback, rt))
      | Some proposal \<Rightarrow> proof_phase c ops round proposal rt) \<noteq> None" for l rt
    by (cases "logged_proposal round l") auto
  then have "go (drained (drain_proposal c ops round rt)) (\<lambda>rt.
      case logged_proposal round (rt_log rt) of None \<Rightarrow> Some (Inr (Fallback, rt))
      | Some proposal \<Rightarrow> proof_phase c ops round proposal rt) \<noteq> None" for rt
    by (intro go_returns drains_return)
  then have "proposal_phase c ops round rt \<noteq> None" for rt
    unfolding proposal_phase_def by (intro go_returns) (auto split: prod.split)
  then show ?thesis
    unfolding run_one_round_def
    by (intro go_returns drains_return) (simp_all del: not_None_eq split: option.split)
qed

lemma run_rounds_returns: "run_rounds c ops n fr rt \<noteq> None"
proof (induction n arbitrary: fr rt)
  case (Suc n)
  show ?case
    unfolding run_rounds.simps Let_def
    by (intro go_returns run_one_round_returns)
      (use Suc.IH in \<open>auto split: prod.split round_outcome.split sum.split\<close>)
qed simp

lemma run_with_transport_returns: "run_with_transport c ops run_id rt \<noteq> None"
  unfolding run_with_transport_def
  by (intro go_returns run_rounds_returns) (auto simp: Let_def split: prod.split)

end

interpretation bus_finite: finite_transport bus_ops "\<lambda>b. length (bus_queue b)"
  by unfold_locales (auto simp: bus_ops_def bus_next_ordered_def split: list.splits)

section \<open>The transport\<close>

text \<open>What a poll of the inbound channel finds; after the last entry it is disconnected.\<close>

datatype poll = Arrived coordination_message | NothingYet

record vertex_transport =
  vt_sent :: "bytes list"          \<comment> \<open>commands put on the outbound channel\<close>
  vt_accepts :: nat                \<comment> \<open>how many more commands the worker is there to take\<close>
  vt_polls :: "poll list"
  vt_pending :: "coordination_message list"
  vt_closed :: bool

definition mark_closed :: "vertex_transport \<Rightarrow> vertex_transport" where
  "mark_closed t = t\<lparr>vt_closed := True\<rparr>"

definition recv_timeout ::
  "vertex_transport \<Rightarrow> (transport_error + coordination_message option) \<times> vertex_transport" where
  "recv_timeout t =
     (case vt_polls t of
        [] \<Rightarrow> (Inl Closed, t)
      | Arrived msg # ps \<Rightarrow> (Inr (Some msg), t\<lparr>vt_polls := ps\<rparr>)
      | NothingYet # ps \<Rightarrow> (Inr None, t\<lparr>vt_polls := ps\<rparr>))"

text \<open>
  \<open>recv_timeout\<close> and \<open>try_recv\<close> differ only in how long they wait; their three outcomes are treated
  alike, so \<open>block\<close> does not matter here.
\<close>

definition recv_into_pending ::
  "bool \<Rightarrow> vertex_transport \<Rightarrow> (transport_error + bool) \<times> vertex_transport" where
  "recv_into_pending block t =
     (if vt_closed t then (Inl Closed, t)
      else case recv_timeout t of
             (Inr (Some msg), t) \<Rightarrow> (Inr True, t\<lparr>vt_pending := vt_pending t @ [msg]\<rparr>)
           | (Inr None, t) \<Rightarrow> (Inr False, t)
           | (Inl err, t) \<Rightarrow> (Inl err, mark_closed t))"

definition vt_broadcast ::
  "(coordination_message \<Rightarrow> bytes option) \<Rightarrow> coordination_message \<Rightarrow> vertex_transport \<Rightarrow>
     (transport_error + unit) \<times> vertex_transport" where
  "vt_broadcast to_vec msg t =
     (if vt_closed t then (Inl Closed, t)
      else case to_vec msg of
             None \<Rightarrow> (Inl Closed, t)
           | Some payload \<Rightarrow>
               (case vt_accepts t of
                  0 \<Rightarrow> (Inl Closed, mark_closed t)
                | Suc n \<Rightarrow> (Inr (), t\<lparr>vt_accepts := n, vt_sent := vt_sent t @ [payload]\<rparr>)))"

definition pop_front :: "vertex_transport \<Rightarrow> coordination_message option \<times> vertex_transport" where
  "pop_front t =
     (case vt_pending t of [] \<Rightarrow> (None, t) | m # ms \<Rightarrow> (Some m, t\<lparr>vt_pending := ms\<rparr>))"

definition vt_next_ordered ::
  "vertex_transport \<Rightarrow> coordination_message option \<times> vertex_transport" where
  "vt_next_ordered t =
     (case pop_front t of
        (Some m, t) \<Rightarrow> (Some m, t)
      | (None, t) \<Rightarrow>
          (case recv_into_pending True t of
             (Inr _, t) \<Rightarrow> pop_front t
           | (Inl _, t) \<Rightarrow> (None, t)))"

lemma recv_uses: "recv_into_pending b t = (Inr r, t') \<Longrightarrow> length (vt_polls t') < length (vt_polls t)"
  by (auto simp: recv_into_pending_def recv_timeout_def split: if_splits list.splits poll.splits)

function vt_flush :: "vertex_transport \<Rightarrow> vertex_transport" where
  "vt_flush t =
     (case recv_into_pending False t of
        (Inr True, t') \<Rightarrow> vt_flush t'
      | (_, t') \<Rightarrow> t')"
  by pat_completeness auto

termination vt_flush
  by (relation "measure (\<lambda>t. length (vt_polls t))") (auto dest!: sym [THEN recv_uses] recv_uses)

declare vt_flush.simps [simp del]

definition vertex_ops :: "(coordination_message \<Rightarrow> bytes option) \<Rightarrow> vertex_transport transport" where
  "vertex_ops to_vec = \<lparr>tr_broadcast = vt_broadcast to_vec, tr_next_ordered = vt_next_ordered,
     tr_flush = vt_flush\<rparr>"

definition vertex_left :: "vertex_transport \<Rightarrow> nat" where
  "vertex_left t = length (vt_pending t) + 2 * length (vt_polls t)"

lemma next_uses_one: "vt_next_ordered t = (Some m, t') \<Longrightarrow> vertex_left t' < vertex_left t"
  by (auto simp: vt_next_ordered_def pop_front_def recv_into_pending_def recv_timeout_def
      vertex_left_def split: list.splits if_splits poll.splits prod.splits sum.splits)

interpretation vertex_finite: finite_transport "vertex_ops to_vec" vertex_left for to_vec
  by unfold_locales (simp add: vertex_ops_def next_uses_one)

section \<open>Order of delivery\<close>

fun arrived :: "poll \<Rightarrow> coordination_message option" where
  "arrived (Arrived m) = Some m"
| "arrived NothingYet = None"

text \<open>The messages not yet handed to the runtime: the buffer, then what is still to arrive.\<close>

definition vertex_queue :: "vertex_transport \<Rightarrow> coordination_message list" where
  "vertex_queue t = vt_pending t @ List.map_filter arrived (vt_polls t)"

lemma recv_queue:
  "recv_into_pending b t = (r, t') \<Longrightarrow> vertex_queue t' = vertex_queue t"
  by (auto simp: recv_into_pending_def recv_timeout_def mark_closed_def vertex_queue_def map_filter_simps
      split: if_splits list.splits poll.splits)

lemma pop_queue:
  "pop_front t = (Some m, t') \<Longrightarrow> vertex_queue t = m # vertex_queue t'"
  "pop_front t = (None, t') \<Longrightarrow> t' = t"
  by (auto simp: pop_front_def vertex_queue_def split: list.splits)

lemma next_queue:
  "vt_next_ordered t = (Some m, t') \<Longrightarrow> vertex_queue t = m # vertex_queue t'"
  "vt_next_ordered t = (None, t') \<Longrightarrow> vertex_queue t' = vertex_queue t"
  unfolding vt_next_ordered_def
  by (auto split: prod.splits option.splits sum.splits dest!: recv_queue)
    (metis pop_queue)+

lemma flush_queue: "vertex_queue (vt_flush t) = vertex_queue t"
proof (induction t rule: vt_flush.induct)
  case (1 t)
  show ?case
    using 1 recv_queue [of False t]
    by (subst vt_flush.simps) (auto split: prod.split sum.split bool.split)
qed

text \<open>What it holds or still receives decides what it delivers.\<close>

lemma broadcast_queue: "vertex_queue (snd (vt_broadcast to_vec m t)) = vertex_queue t"
  by (auto simp: vt_broadcast_def mark_closed_def vertex_queue_def split: option.split nat.split)

lemma vertex_source: "message_source (vertex_ops to_vec) (\<lambda>t. \<forall>m \<in> set (vertex_queue t). P m) P"
proof
  fix t mo t'
  assume "\<forall>m \<in> set (vertex_queue t). P m" "tr_next_ordered (vertex_ops to_vec) t = (mo, t')"
  then show "(\<forall>m \<in> set (vertex_queue t'). P m) \<and> pred_option P mo"
    by (cases mo) (auto simp: vertex_ops_def dest: next_queue)
qed (simp_all add: vertex_ops_def broadcast_queue flush_queue)

interpretation vertex_messages: message_source "vertex_ops to_vec" "\<lambda>t. \<forall>m \<in> set (vertex_queue t). P m" P
    for to_vec P
  by (rule vertex_source)

interpretation vertex_origins: origin_source "vertex_ops to_vec" "\<lambda>t. \<forall>m \<in> set (vertex_queue t). origin_wf m"
    for to_vec
  by (rule origin_source.intro, rule vertex_source)

lemma vertex_drain_fifo:
  "\<exists>t' ms. drain_loop vt_next_ordered body t s = Some (t', foldl (\<lambda>s m. body m s) s ms) \<and>
     vertex_queue t = ms @ vertex_queue t'"
proof (induction "vertex_left t" arbitrary: t s rule: less_induct)
  case less
  show ?case
  proof (cases "vt_next_ordered t")
    case (Pair mo t1)
    show ?thesis
    proof (cases mo)
      case None
      then show ?thesis using Pair next_queue(2) [of t t1]
        by (subst drain_loop.simps) (auto intro!: exI [of _ "[]"])
    next
      case (Some m)
      then obtain t' ms where "drain_loop vt_next_ordered body t1 (body m s) =
          Some (t', foldl (\<lambda>s m. body m s) (body m s) ms)" "vertex_queue t1 = ms @ vertex_queue t'"
        using less [of t1 "body m s"] next_uses_one [of t m t1] Pair by blast
      then show ?thesis using Pair Some next_queue(1) [of t m t1]
        by (subst drain_loop.simps) (auto intro!: exI [of _ "m # ms"])
    qed
  qed
qed

section \<open>The worker thread\<close>

definition HEARTBEAT_MARKER :: bytes where
  "HEARTBEAT_MARKER = [0x48, 0x42, 0x54, 0x00]"

datatype engine_message = EngineEvent "bytes list" | SyncPoint

text \<open>
  What the select loop is offered: a tick or an outbound command, each with the error of
  submitting its transaction if there is one, a result of \<open>recv_message\<close>, or that the
  receiving side of the inbound channel has gone.
\<close>

datatype worker_event =
  HeartbeatTick "string option"
| OutboundCommand "bytes option" "string option"
| EngineReceived "string + engine_message option"
| ReceiverDropped

record worker =
  wk_submitted :: "bytes list"
  wk_forwarded :: "coordination_message list"
  wk_receiver :: bool
  wk_error :: "string option"

definition worker_start :: worker where
  "worker_start = \<lparr>wk_submitted = [], wk_forwarded = [], wk_receiver = True, wk_error = None\<rparr>"

definition set_worker_error :: "string \<Rightarrow> worker \<Rightarrow> worker" where
  "set_worker_error value w = w\<lparr>wk_error := Some value\<rparr>"

definition send_bytes :: "bytes \<Rightarrow> string option \<Rightarrow> worker \<Rightarrow> (string + unit) \<times> worker" where
  "send_bytes payload fault w =
     (case fault of
        Some e \<Rightarrow> (Inl e, w)
      | None \<Rightarrow> (Inr (), w\<lparr>wk_submitted := wk_submitted w @ [payload]\<rparr>))"

text \<open>The loop over the transactions of an event; \<open>False\<close> when it leaves the worker.\<close>

fun forward_transactions ::
  "(bytes \<Rightarrow> coordination_message option) \<Rightarrow> bytes list \<Rightarrow> worker \<Rightarrow> worker \<times> bool" where
  "forward_transactions from_slice [] w = (w, True)"
| "forward_transactions from_slice (raw # raws) w =
     (if prefix HEARTBEAT_MARKER raw then forward_transactions from_slice raws w
      else case from_slice raw of
             None \<Rightarrow> forward_transactions from_slice raws w
           | Some msg \<Rightarrow>
               if wk_receiver w
               then forward_transactions from_slice raws (w\<lparr>wk_forwarded := wk_forwarded w @ [msg]\<rparr>)
               else (w, False))"

fun worker_step ::
  "(bytes \<Rightarrow> coordination_message option) \<Rightarrow> worker_event \<Rightarrow> worker \<Rightarrow> worker \<times> bool" where
  "worker_step from_slice (HeartbeatTick fault) w =
     (case send_bytes HEARTBEAT_MARKER fault w of
        (Inl err, w) \<Rightarrow> (set_worker_error (''heartbeat send failed: '' @ err) w, False)
      | (Inr _, w) \<Rightarrow> (w, True))"
| "worker_step from_slice (OutboundCommand cmd fault) w =
     (case cmd of
        Some payload \<Rightarrow>
          (case send_bytes payload fault w of
             (Inl err, w) \<Rightarrow> (set_worker_error (''broadcast failed: '' @ err) w, False)
           | (Inr _, w) \<Rightarrow> (w, True))
      | None \<Rightarrow> (w, False))"
| "worker_step from_slice (EngineReceived msg) w =
     (case msg of
        Inr (Some (EngineEvent transactions)) \<Rightarrow> forward_transactions from_slice transactions w
      | Inr (Some SyncPoint) \<Rightarrow> (w, True)
      | Inr None \<Rightarrow> (w, False)
      | Inl err \<Rightarrow> (set_worker_error (''recv_message failed: '' @ err) w, False))"
| "worker_step from_slice ReceiverDropped w = (w\<lparr>wk_receiver := False\<rparr>, True)"

fun worker_loop ::
  "(bytes \<Rightarrow> coordination_message option) \<Rightarrow> worker_event list \<Rightarrow> worker \<Rightarrow> worker \<times> bool" where
  "worker_loop from_slice [] w = (w, True)"
| "worker_loop from_slice (ev # evs) w =
     (case worker_step from_slice ev w of
        (w, True) \<Rightarrow> worker_loop from_slice evs w
      | (w, False) \<Rightarrow> (w, False))"

section \<open>What the worker forwards\<close>

fun ordered_transactions :: "worker_event list \<Rightarrow> bytes list" where
  "ordered_transactions [] = []"
| "ordered_transactions (EngineReceived (Inr (Some (EngineEvent ts))) # evs) = ts @ ordered_transactions evs"
| "ordered_transactions (_ # evs) = ordered_transactions evs"

definition application_messages ::
  "(bytes \<Rightarrow> coordination_message option) \<Rightarrow> bytes list \<Rightarrow> coordination_message list" where
  "application_messages from_slice ts =
     List.map_filter from_slice (filter (\<lambda>raw. \<not> prefix HEARTBEAT_MARKER raw) ts)"

lemma application_messages_simps [simp]:
  "application_messages f [] = []"
  "application_messages f (raw # ts) =
     (if prefix HEARTBEAT_MARKER raw then application_messages f ts
      else case f raw of None \<Rightarrow> application_messages f ts | Some m \<Rightarrow> m # application_messages f ts)"
  "application_messages f (ts @ us) = application_messages f ts @ application_messages f us"
  by (auto simp: application_messages_def map_filter_simps map_filter_def split: option.splits)

lemma forward_transactions_prefix:
  assumes "forward_transactions f ts w = (w', b)"
  shows "\<exists>ms. wk_forwarded w' = wk_forwarded w @ ms \<and> prefix ms (application_messages f ts) \<and>
    (b \<longrightarrow> ms = application_messages f ts)"
  using assms
proof (induction f ts w rule: forward_transactions.induct)
  case (2 f raw raws w)
  then show ?case by (fastforce split: if_splits option.splits)
qed simp

lemma worker_loop_prefix:
  assumes "worker_loop f evs w = (w', b)"
  shows "\<exists>ms. wk_forwarded w' = wk_forwarded w @ ms \<and>
    prefix ms (application_messages f (ordered_transactions evs)) \<and>
    (b \<longrightarrow> ms = application_messages f (ordered_transactions evs))"
  using assms
proof (induction evs arbitrary: w)
  case (Cons ev evs)
  obtain w1 b1 where step: "worker_step f ev w = (w1, b1)" by fastforce
  have ord: "ordered_transactions (ev # evs) = ordered_transactions [ev] @ ordered_transactions evs"
    by (cases "[ev]" rule: ordered_transactions.cases) auto
  have "\<exists>ms. wk_forwarded w1 = wk_forwarded w @ ms \<and>
      prefix ms (application_messages f (ordered_transactions [ev])) \<and>
      (b1 \<longrightarrow> ms = application_messages f (ordered_transactions [ev]))"
    using step forward_transactions_prefix
    by (cases ev) (auto simp: send_bytes_def set_worker_error_def
        split: option.splits sum.splits engine_message.splits)
  then obtain ms where ms: "wk_forwarded w1 = wk_forwarded w @ ms"
    "prefix ms (application_messages f (ordered_transactions [ev]))"
    "b1 \<longrightarrow> ms = application_messages f (ordered_transactions [ev])" by blast
  show ?case
  proof (cases b1)
    case True
    then obtain ms' where "wk_forwarded w' = wk_forwarded w1 @ ms'"
      "prefix ms' (application_messages f (ordered_transactions evs))"
      "b \<longrightarrow> ms' = application_messages f (ordered_transactions evs)"
      using Cons step by fastforce
    with ms True ord show ?thesis by (intro exI [of _ "ms @ ms'"]) simp
  next
    case False
    then have "w' = w1" "\<not> b" using Cons.prems step by auto
    with ms ord show ?thesis by (intro exI [of _ ms]) (auto intro: prefix_order.trans)
  qed
qed simp

text \<open>
  Two workers that were handed prefixes of one consensus order forward the same messages in
  the same order, as far as either got, however ticks and commands were interleaved.
\<close>

lemma workers_agree:
  assumes "prefix (ordered_transactions evs) order" "prefix (ordered_transactions evs') order"
  shows "prefix (wk_forwarded (fst (worker_loop f evs worker_start)))
      (wk_forwarded (fst (worker_loop f evs' worker_start))) \<or>
    prefix (wk_forwarded (fst (worker_loop f evs' worker_start)))
      (wk_forwarded (fst (worker_loop f evs worker_start)))"
proof -
  have "prefix (wk_forwarded (fst (worker_loop f es worker_start))) (application_messages f order)"
    if es: "prefix (ordered_transactions es) order" for es
  proof -
    obtain rest where "order = ordered_transactions es @ rest" using es by (auto simp: prefix_def)
    moreover obtain w b where w: "worker_loop f es worker_start = (w, b)" by fastforce
    moreover have "prefix (wk_forwarded w) (application_messages f (ordered_transactions es))"
      using worker_loop_prefix [OF w] by (auto simp: worker_start_def)
    ultimately show ?thesis by (simp add: prefix_prefix)
  qed
  with assms show ?thesis by (metis prefix_same_cases)
qed

text \<open>What is assumed of the JSON of a message: an object, and it reads back.\<close>

definition wire_ok ::
  "(coordination_message \<Rightarrow> bytes option) \<Rightarrow> (bytes \<Rightarrow> coordination_message option) \<Rightarrow> bool" where
  "wire_ok to_vec from_slice \<longleftrightarrow>
     (\<forall>m p. to_vec m = Some p \<longrightarrow> from_slice p = Some m \<and> (\<exists>rest. p = 0x7b # rest))"

lemma wire_forwarded:
  assumes "wire_ok to_vec from_slice" "to_vec m = Some p"
  shows "application_messages from_slice [p] = [m]"
proof -
  obtain rest where "p = 0x7b # rest" "from_slice p = Some m" using assms unfolding wire_ok_def by blast
  then show ?thesis by (simp add: HEARTBEAT_MARKER_def)
qed

end
