(* ===== verification/Node.thy ===== *)
theory Node
  imports Demo_Bundle Vertex_Transport
begin

text \<open>
  \<open>node.rs\<close>: one agent as a process of its own over the Vertex transport. Its copies of
  \<open>OWNED_FILES\<close>, \<open>pick_final_receipt\<close>, \<open>list_bundle_files\<close> and \<open>short_id\<close> are those of
  \<open>run.rs\<close>. The environment variables, the engine's start and the number of turns of the
  bootstrap loop (a clock) are parameters.
\<close>

datatype node_io = NodeArtifact artifact_error | NodeMessage string

datatype node_error =
  NodeTopology config_error
| NodePrivateIntent "private_intent_error option"   \<comment> \<open>\<open>None\<close>: no entry for the local node\<close>
| NodeScenario config_error
| NodeIdentity string
| NodePeer string
| NodeSecret string
| NodeTransport string
| NodeRuntime runtime_error
| NodeIo node_io

record node_result =
  nr_node_alias :: string
  nr_artifacts_dir :: string
  nr_report :: verifier_report
  nr_finalized :: bool
  nr_abort_reason :: "string option"

record node_args =
  na_bind :: string
  na_peers :: "string list"
  na_node_id :: string
  na_node_alias :: "string option"
  na_topology :: string
  na_private_intents :: string
  na_scenario :: "string option"
  na_artifacts :: string
  na_max_rounds :: u64
  na_run_id :: string
  na_rejoin :: bool
  na_persist :: bool
  na_persist_sleep_ms :: u64
  na_poll_timeout_ms :: u64
  na_secret_env :: "string option"
  na_secret_str :: "string option"

record vertex_config =
  vc_bind :: string
  vc_secret_hex :: string
  vc_peers :: "(string \<times> string) list"
  vc_rejoin :: bool
  vc_poll_timeout_ms :: u64

section \<open>Arguments\<close>

text \<open>\<open>std::env::var\<close> is the map \<open>env\<close>.\<close>

definition resolve_secret ::
  "(string \<rightharpoonup> string) \<Rightarrow> string option \<Rightarrow> string option \<Rightarrow> node_error + string" where
  "resolve_secret env secret_env secret_str =
     (case secret_env of
        Some var \<Rightarrow>
          (case env var of
             None \<Rightarrow> Inl (NodeSecret (''env var '' @ var @ '' unset or non-utf8''))
           | Some val \<Rightarrow> Inr val)
      | None \<Rightarrow>
          (case secret_str of
             Some s \<Rightarrow> Inr s
           | None \<Rightarrow> Inl (NodeSecret ''provide --secret-env <VAR> or --secret <tashi-vertex KeySecret>'')))"

text \<open>\<open>str::split_once\<close>.\<close>

fun split_once :: "char \<Rightarrow> string \<Rightarrow> (string \<times> string) option" where
  "split_once d [] = None"
| "split_once d (x # xs) =
     (if x = d then Some ([], xs)
      else map_option (\<lambda>(a, b). (x # a, b)) (split_once d xs))"

definition parse_peer :: "string \<Rightarrow> node_error + string \<times> string" where
  "parse_peer raw =
     (case split_once (CHR ''@'') raw of
        None \<Rightarrow> Inl (NodePeer ''peer must be <pubkey>@<addr>'')
      | Some (pk, addr) \<Rightarrow> Inr (pk, addr))"

definition node_alias_of :: "crates \<Rightarrow> node_args \<Rightarrow> node_id \<Rightarrow> string" where
  "node_alias_of c args local_node =
     (case na_node_alias args of
        Some a \<Rightarrow> a | None \<Rightarrow> ''node-'' @ take 8 (to_hex c local_node))"

text \<open>Everything \<open>run_node\<close> computes before it starts the transport.\<close>

definition node_setup ::
  "crates \<Rightarrow> toml \<Rightarrow> (string \<rightharpoonup> string) \<Rightarrow> node_args \<Rightarrow> fs \<Rightarrow>
     node_error command_fault +
       topology_config \<times> string \<times> (node_id, agent_state) btree_map \<times> scenario \<times> vertex_config" where
  "node_setup c tm env args h =
     and_then (map_sum (\<lambda>e. CmdErr (NodeTopology e)) id
       (topology_load (read_text h) (toml_topology tm) parse_redact c (na_topology args))) (\<lambda>topology.
     and_then (map_sum (\<lambda>_. CmdErr (NodeIdentity ''invalid --node-id'')) id
       (node_from_str c (na_node_id args))) (\<lambda>local_node.
     if List.find (\<lambda>n. nc_id n = local_node) (topo_nodes topology) = None
     then Inl (CmdErr (NodeIdentity ''--node-id not present in topology''))
     else
       let node_alias = node_alias_of c args local_node
       in and_then (case private_load (read_text h) (toml_bundle tm) c (na_private_intents args) topology of
            Inl (PiErr e) \<Rightarrow> Inl (CmdErr (NodePrivateIntent (Some e)))
          | Inl (PiPanic s) \<Rightarrow> Inl (CmdPanic s)
          | Inr agents \<Rightarrow> Inr agents) (\<lambda>agents.
          and_then (ok_or (CmdErr (NodePrivateIntent None)) (bt_get agents local_node)) (\<lambda>local_agent_state.
          let local_agents = bt_insert local_node local_agent_state []
          in and_then (case na_scenario args of
               None \<Rightarrow> Inr scenario_empty
             | Some p \<Rightarrow> map_sum (\<lambda>e. CmdErr (NodeScenario e)) id
                 (scenario_load (read_text h) (toml_scenario tm) parse_redact p)) (\<lambda>scenario.
             and_then (map_sum CmdErr id (resolve_secret env (na_secret_env args) (na_secret_str args))) (\<lambda>secret_str.
             and_then (map_sum CmdErr id (try_map parse_peer (na_peers args))) (\<lambda>peer_pairs.
             Inr (topology, node_alias, local_agents, scenario,
                  \<lparr>vc_bind = na_bind args, vc_secret_hex = secret_str, vc_peers = peer_pairs,
                   vc_rejoin = na_rejoin args, vc_poll_timeout_ms = na_poll_timeout_ms args\<rparr>))))))))"

section \<open>The node's bundle\<close>

definition clean_owned_files :: "string \<Rightarrow> (node_error command_fault, unit) io" where
  "clean_owned_files dir =
     io_map_err (\<lambda>s. CmdErr (NodeIo (NodeMessage s))) (force_clean_owned_files dir)"

definition render_node_readme :: "run_status \<Rightarrow> string \<Rightarrow> string" where
  "render_node_readme status alias = concat
     ([''# Vertex Veil Per-Node Bundle ('' @ alias @ '')'' @ nl @ nl,
       ''This directory holds one participant's public view of a multi-process'' @ nl,
       ''Vertex-Veil coordination run. Every file here is derived from public'' @ nl,
       ''inputs only; no private witness material is present.'' @ nl @ nl,
       ''## Outcome'' @ nl @ nl,
       ''- run_id: `'' @ st_run_id status @ ''`'' @ nl,
       ''- finalized: `'' @ show_bool (st_finalized status) @ ''`'' @ nl,
       ''- final_round: `'' @ show_u64 (st_final_round status) @ ''`'' @ nl] @
      (case st_abort_reason status of None \<Rightarrow> []
       | Some r \<Rightarrow> [''- abort_reason: `'' @ r @ ''`'' @ nl]) @
      [''- rejections_logged: `'' @ show_nat (st_rejection_count status) @ ''`'' @ nl @ nl,
       ''## Re-verify'' @ nl @ nl @ ''```bash'' @ nl,
       ''cargo run -p vertex-veil-agents -- verify --artifacts <path-to-this-dir>'' @ nl,
       ''```'' @ nl])"

definition node_art :: "(artifact_error, 'a) io \<Rightarrow> (node_error command_fault, 'a) io" where
  "node_art = io_map_err (\<lambda>e. CmdErr (NodeIo (NodeArtifact e)))"

definition node_write :: "string \<Rightarrow> string \<Rightarrow> (node_error command_fault, unit) io" where
  "node_write path text = io_map_err (\<lambda>e. CmdErr (NodeIo (NodeMessage (io_message e)))) (fs_write path text)"

definition persist_node_bundle ::
  "crates \<Rightarrow> json \<Rightarrow> string \<Rightarrow> topology_config \<Rightarrow> string \<Rightarrow> string option \<Rightarrow> string \<Rightarrow> runtime_outcome \<Rightarrow>
     (node_error command_fault, verifier_report) io" where
  "persist_node_bundle c j bundle_dir topology topology_text scenario_text alias outcome =
     io_then (node_art (writer_new bundle_dir)) (\<lambda>writer.
     io_then (clean_owned_files (aw_dir writer)) (\<lambda>_.
     io_then (node_art (write_coordination_log j writer (ro_log outcome))) (\<lambda>_.
     io_then (node_write (path_join (aw_dir writer) ''topology.toml'') topology_text) (\<lambda>_.
     io_then (case scenario_text of
                None \<Rightarrow> io_return ()
              | Some text \<Rightarrow> node_write (path_join (aw_dir writer) ''scenario.toml'') text) (\<lambda>_.
     let report = verify_log c topology (ro_log outcome)
     in io_then (node_art (write_verifier_report j writer report)) (\<lambda>_.
        io_then (node_art (write_receipt_copy j writer (pick_final_receipt (ro_log outcome)))) (\<lambda>_.
        io_then (io_get (\<lambda>h. Inr (bundle_manifest h (aw_dir writer)))) (\<lambda>bundle_files.
        let status = run_status_of outcome bundle_files
        in io_then (node_art (write_run_status j writer status)) (\<lambda>_.
           io_then (node_art (write_bundle_readme writer (render_node_readme status alias))) (\<lambda>_.
           io_return report))))))))))"

section \<open>Sessions\<close>

definition bootstrap_wait :: "nat \<Rightarrow> vertex_transport \<Rightarrow> vertex_transport" where
  "bootstrap_wait turns = vt_flush ^^ turns"

text \<open>\<open>format!("{}-r{:03}")\<close>.\<close>

definition session_run_id :: "node_args \<Rightarrow> u64 \<Rightarrow> string" where
  "session_run_id args session_idx =
     (if na_persist args
      then na_run_id args @ ''-r'' @
        replicate (3 - length (show_u64 session_idx)) (CHR ''0'') @ show_u64 session_idx
      else na_run_id args)"

definition node_run ::
  "crates \<Rightarrow> (coordination_message \<Rightarrow> bytes option) \<Rightarrow> u64 \<Rightarrow> topology_config \<Rightarrow>
     (node_id, agent_state) btree_map \<Rightarrow> scenario \<Rightarrow> string \<Rightarrow> vertex_transport \<Rightarrow>
     node_error command_fault + runtime_outcome \<times> vertex_transport" where
  "node_run c to_vec max_rounds topology local_agents scenario run_id transport =
     (case runtime_new c topology transport local_agents scenario max_rounds of
        Inl e \<Rightarrow> Inl (CmdErr (NodeRuntime e))
      | Inr rt \<Rightarrow>
          (case run_with_transport c (vertex_ops to_vec) run_id rt of
             None \<Rightarrow> Inl CmdHangs
           | Some (Inl (Fail e)) \<Rightarrow> Inl (CmdErr (NodeRuntime e))
           | Some (Inl (Panic s)) \<Rightarrow> Inl (CmdPanic s)
           | Some (Inr r) \<Rightarrow> Inr r))"

record node_job =
  nj_topology :: topology_config
  nj_topology_text :: string
  nj_scenario :: scenario
  nj_scenario_text :: "string option"
  nj_alias :: string
  nj_agents :: "(node_id, agent_state) btree_map"

definition node_session ::
  "crates \<Rightarrow> json \<Rightarrow> (coordination_message \<Rightarrow> bytes option) \<Rightarrow> node_args \<Rightarrow> node_job \<Rightarrow> u64 \<Rightarrow>
     vertex_transport \<Rightarrow> (node_error command_fault, node_result \<times> vertex_transport) io" where
  "node_session c j to_vec args job session_idx transport =
     (let bundle_dir = path_join (na_artifacts args) (nj_alias job)
      in io_then (io_get (\<lambda>_. node_run c to_vec (na_max_rounds args) (nj_topology job) (nj_agents job)
                    (nj_scenario job) (session_run_id args session_idx) transport))
           (\<lambda>(outcome, next_transport).
         io_then (persist_node_bundle c j bundle_dir (nj_topology job) (nj_topology_text job)
                    (nj_scenario_text job) (nj_alias job) outcome) (\<lambda>report.
         io_return (\<lparr>nr_node_alias = nj_alias job, nr_artifacts_dir = bundle_dir, nr_report = report,
                     nr_finalized = ro_finalized outcome,
                     nr_abort_reason = log_abort_reason (ro_log outcome)\<rparr>, next_transport))))"

definition saturating_succ :: "u64 \<Rightarrow> u64" where
  "saturating_succ w = (if w = - 1 then w else w + 1)"

text \<open>
  The session loop, for as many turns as the process is left running; \<open>None\<close> when it is still
  running then.
\<close>

fun node_sessions ::
  "nat \<Rightarrow> crates \<Rightarrow> json \<Rightarrow> (coordination_message \<Rightarrow> bytes option) \<Rightarrow> node_args \<Rightarrow> node_job \<Rightarrow> u64 \<Rightarrow>
     vertex_transport \<Rightarrow> fs \<Rightarrow> (node_error command_fault + node_result) option \<times> fs" where
  "node_sessions 0 c j to_vec args job session_idx transport h = (None, h)"
| "node_sessions (Suc turns) c j to_vec args job session_idx transport h =
     (case node_session c j to_vec args job session_idx transport h of
        (Inl e, h) \<Rightarrow> (Some (Inl e), h)
      | (Inr (result, transport), h) \<Rightarrow>
          if \<not> na_persist args then (Some (Inr result), h)
          else node_sessions turns c j to_vec args job (saturating_succ session_idx) transport h)"

definition run_node ::
  "crates \<Rightarrow> json \<Rightarrow> toml \<Rightarrow> (coordination_message \<Rightarrow> bytes option) \<Rightarrow> (string \<rightharpoonup> string) \<Rightarrow>
     (vertex_config \<Rightarrow> string + vertex_transport) \<Rightarrow> nat \<Rightarrow> nat \<Rightarrow> node_args \<Rightarrow> fs \<Rightarrow>
     (node_error command_fault + node_result) option \<times> fs" where
  "run_node c j tm to_vec env start boot turns args h =
     (case node_setup c tm env args h of
        Inl e \<Rightarrow> (Some (Inl e), h)
      | Inr (topology, node_alias, local_agents, scenario, config) \<Rightarrow>
          (case start config of
             Inl e \<Rightarrow> (Some (Inl (CmdErr (NodeTransport e))), h)
           | Inr transport \<Rightarrow>
               (let transport = bootstrap_wait boot transport;
                    read = (\<lambda>p. map_sum (\<lambda>e. CmdErr (NodeIo (NodeMessage e))) id (read_text h p))
                in case and_then (read (na_topology args)) (\<lambda>topology_text.
                        and_then (case na_scenario args of
                            None \<Rightarrow> Inr None
                          | Some p \<Rightarrow> and_then (read p) (\<lambda>t. Inr (Some t))) (\<lambda>scenario_text.
                        Inr (topology_text, scenario_text))) of
                     Inl e \<Rightarrow> (Some (Inl e), h)
                   | Inr (topology_text, scenario_text) \<Rightarrow>
                       node_sessions turns c j to_vec args
                         \<lparr>nj_topology = topology, nj_topology_text = topology_text,
                          nj_scenario = scenario, nj_scenario_text = scenario_text,
                          nj_alias = node_alias, nj_agents = local_agents\<rparr> 0 transport h)))"

section \<open>Console lines\<close>

definition node_emit :: "string \<Rightarrow> string \<Rightarrow> string \<Rightarrow> string" where
  "node_emit alias tag detail = ''['' @ alias @ ''] '' @ tag @ '' '' @ detail"

fun node_line :: "crates \<Rightarrow> string \<Rightarrow> observer_event \<Rightarrow> string" where
  "node_line c alias (OnRoundCommitted round finalized) =
     node_emit alias ''[VERTEX]''
       (''round '' @ show_u64 round @ '' committed (finalized='' @ show_bool finalized @ '')'')"
| "node_line c alias (OnCommitment node round) =
     node_emit alias ''[COORD]'' (''commitment from '' @ short_id c node @ '' round='' @ show_u64 round)"
| "node_line c alias (OnProposal proposer round matched_capability) =
     node_emit alias ''[COORD]''
       (''proposal by '' @ short_id c proposer @ '' ('' @ matched_capability @ '') round='' @ show_u64 round)"
| "node_line c alias (OnProofVerified node round) =
     node_emit alias ''[COORD]'' (''proof verified for '' @ short_id c node @ '' round='' @ show_u64 round)"
| "node_line c alias (OnReceipt provider round) =
     node_emit alias ''[COORD]'' (''receipt signed by '' @ short_id c provider @ '' round='' @ show_u64 round)"
| "node_line c alias (OnAbort reason round) =
     node_emit alias ''[ABORT]'' (reason @ '' at round='' @ show_u64 round)"

section \<open>What a node leaves on disk\<close>

lemma owning_node_steps [owning_intros]:
  "owning K d m \<Longrightarrow> owning K d (node_art m)"
  "owning K d (clean_owned_files d)"
  "n \<in> set OWNED_FILES \<Longrightarrow> owning K d (node_write (path_join d n) s)"
  unfolding node_art_def clean_owned_files_def node_write_def by (auto intro!: owning_intros)

lemma persist_keeps:
  assumes "\<And>k. owned_key (fs_key h bundle_dir) k \<Longrightarrow> K k"
  shows "kept K h (snd (persist_node_bundle c j bundle_dir t topo scn alias out h))"
  unfolding persist_node_bundle_def
proof (rule kept_then)
  show new: "kept K h (snd (node_art (writer_new bundle_dir) h))"
    by (simp add: node_art_def owning_writer_new)
  fix w h' assume w: "node_art (writer_new bundle_dir) h = (Inr w, h')"
  then have dir: "aw_dir w = bundle_dir" by (auto simp: node_art_def dest: writer_new_dir)
  have "fs_key h' p = fs_key h p" for p using new w by (simp add: keptD(3))
  then show "kept K h' (snd (io_then (clean_owned_files (aw_dir w)) (\<lambda>_.
     io_then (node_art (write_coordination_log j w (ro_log out))) (\<lambda>_.
     io_then (node_write (path_join (aw_dir w) ''topology.toml'') topo) (\<lambda>_.
     io_then (case scn of None \<Rightarrow> io_return ()
              | Some text \<Rightarrow> node_write (path_join (aw_dir w) ''scenario.toml'') text) (\<lambda>_.
     let report = verify_log c t (ro_log out)
     in io_then (node_art (write_verifier_report j w report)) (\<lambda>_.
        io_then (node_art (write_receipt_copy j w (pick_final_receipt (ro_log out)))) (\<lambda>_.
        io_then (io_get (\<lambda>h. Inr (bundle_manifest h (aw_dir w)))) (\<lambda>bundle_files.
        let status = run_status_of out bundle_files
        in io_then (node_art (write_run_status j w status)) (\<lambda>_.
           io_then (node_art (write_bundle_readme w (render_node_readme status alias))) (\<lambda>_.
           io_return report))))))))) h'))"
    using assms unfolding dir [symmetric] Let_def
    by (intro owningD [where d = "aw_dir w"] owning_intros owning_files; cases scn)
      (auto intro!: owning_intros owning_files)
qed

lemma persist_steps:
  assumes "persist_node_bundle c j bundle_dir t topo scn alias out h = (Inr report, h')"
  obtains w h0 hc h1 h2 h3 h4 h5 h6 o1 o4 o5 o6 o7 where
    "writer_new bundle_dir h = (Inr w, h0)" "report = verify_log c t (ro_log out)"
    "write_coordination_log j w (ro_log out) hc = (Inr o1, h1)"
    "fs_write (path_join (aw_dir w) ''topology.toml'') topo h1 = (Inr (), h2)"
    "write_verifier_report j w (verify_log c t (ro_log out)) h3 = (Inr o4, h4)"
    "h3 = h2 \<or> (\<exists>s. fs_write (path_join (aw_dir w) ''scenario.toml'') s h2 = (Inr (), h3))"
    "write_receipt_copy j w (pick_final_receipt (ro_log out)) h4 = (Inr o5, h5)"
    "write_run_status j w (run_status_of out (bundle_manifest h5 (aw_dir w))) h5 = (Inr o6, h6)"
    "write_bundle_readme w (render_node_readme (run_status_of out (bundle_manifest h5 (aw_dir w))) alias) h6 =
      (Inr o7, h')"
  using assms
  by (cases scn) (auto simp: persist_node_bundle_def node_art_def node_write_def Let_def elim!: that)

lemma persist_written:
  assumes "persist_node_bundle c j bundle_dir t topo scn alias out h = (Inr report, h')"
  shows "report = verify_log c t (ro_log out)" "validate_output_path bundle_dir = Inr ()"
    "bundle_at j h' bundle_dir (ro_log out) topo"
    "\<exists>files s. fs_lookup h' (fs_key h' bundle_dir @ [''run_status.json'']) = Some (FFile s) \<and>
      json_status j (run_status_of out files) = Inr s"
proof -
  from assms obtain w h0 hc h1 h2 h3 h4 h5 h6 o1 o4 o5 o6 o7 where
    new: "writer_new bundle_dir h = (Inr w, h0)" and report: "report = verify_log c t (ro_log out)" and
    w1: "write_coordination_log j w (ro_log out) hc = (Inr o1, h1)" and
    ws: "fs_write (path_join (aw_dir w) ''topology.toml'') topo h1 = (Inr (), h2)"
      "write_verifier_report j w (verify_log c t (ro_log out)) h3 = (Inr o4, h4)"
      "h3 = h2 \<or> (\<exists>s. fs_write (path_join (aw_dir w) ''scenario.toml'') s h2 = (Inr (), h3))"
      "write_receipt_copy j w (pick_final_receipt (ro_log out)) h4 = (Inr o5, h5)"
      "write_run_status j w (run_status_of out (bundle_manifest h5 (aw_dir w))) h5 = (Inr o6, h6)"
      "write_bundle_readme w (render_node_readme (run_status_of out (bundle_manifest h5 (aw_dir w))) alias) h6 =
      (Inr o7, h')" by (rule persist_steps)
  have w: "aw_dir w = bundle_dir" using writer_new_dir [OF new] .
  show valid: "validate_output_path bundle_dir = Inr ()"
    using new by (auto simp: writer_new_def)
  then have nonempty: "aw_dir w \<noteq> []" using validate_no_parent w by auto
  note written = bundle_written [OF w1 ws nonempty, unfolded w]
  show "report = verify_log c t (ro_log out)" by (rule report)
  show "bundle_at j h' bundle_dir (ro_log out) topo" by (rule written(1))
  show "\<exists>files s. fs_lookup h' (fs_key h' bundle_dir @ [''run_status.json'']) = Some (FFile s) \<and>
      json_status j (run_status_of out files) = Inr s"
    using written(3) by (auto simp: written(4))
qed

section \<open>Runs of a node\<close>

lemma node_run_log:
  assumes "node_run c to_vec mr t agents sc run_id tr = Inr (out, tr')"
  obtains rt where "runtime_new c t tr agents sc mr = Inr rt"
    "run_with_transport c (vertex_ops to_vec) run_id rt = Some (Inr (out, tr'))"
proof (cases "runtime_new c t tr agents sc mr")
  case (Inr rt)
  have "run_with_transport c (vertex_ops to_vec) run_id rt = Some (Inr (out, tr'))"
  proof (cases "run_with_transport c (vertex_ops to_vec) run_id rt")
    case (Some y)
    then show ?thesis using assms Inr
      by (cases y; cases "projl y") (auto simp: node_run_def)
  qed (use assms Inr in \<open>simp add: node_run_def\<close>)
  then show thesis using that [OF Inr] by simp
qed (use assms in \<open>simp add: node_run_def\<close>)

text \<open>Over the Vertex transport a run always comes back, whatever arrives.\<close>

lemma node_run_returns: "node_run c to_vec mr t agents sc run_id tr \<noteq> Inl CmdHangs"
proof -
  have "run_with_transport c (vertex_ops to_vec) run_id rt \<noteq> None" for rt
    by (rule vertex_finite.run_with_transport_returns)
  then show ?thesis
    by (simp del: not_None_eq add: node_run_def split: sum.split option.split fault.split)
qed

lemma run_with_transport_run:
  assumes "run_with_transport c ops run_id rt = Some (Inr (out, tr'))"
  shows "run c ops run_id rt = Some (Inr out)"
  using assms by (auto simp: run_with_transport_def run_def go_Inr Let_def)

lemma node_run_indexed:
  assumes "node_run c to_vec mr t agents sc run_id tr = Inr (out, tr')"
  shows "log_indexed (ro_log out)"
    "\<forall>n \<in> set (topo_nodes t). node_wf (nc_id n) \<Longrightarrow> \<forall>m \<in> set (vertex_queue tr). origin_wf m \<Longrightarrow>
       log_ids_wf (ro_log out)"
proof -
  from assms obtain rt where new: "runtime_new c t tr agents sc mr = Inr rt"
    and run: "run_with_transport c (vertex_ops to_vec) run_id rt = Some (Inr (out, tr'))"
    by (rule node_run_log)
  have run: "run c (vertex_ops to_vec) run_id (with_run_salt (rt_run_salt rt) rt) = Some (Inr out)"
    using run_with_transport_run [OF run] by (simp add: with_run_salt_def)
  from run_log_post(1) [OF new run] show "log_indexed (ro_log out)" by (simp add: run_post_def log_inv_def)
  show "\<forall>n \<in> set (topo_nodes t). node_wf (nc_id n) \<Longrightarrow> \<forall>m \<in> set (vertex_queue tr). origin_wf m \<Longrightarrow>
      log_ids_wf (ro_log out)"
    by (rule vertex_origins.run_ids_wf [OF new run])
qed

lemma node_session_verifies:
  assumes ok: "json_ok j" "hex_ok c" and src: "\<forall>m \<in> set (vertex_queue tr). origin_wf m"
    and t: "topology_from_toml_str (toml_topology tm) parse_redact c (nj_topology_text job) =
      Inr (nj_topology job)"
    and run: "node_session c j to_vec args job idx tr h = (Inr (res, tr'), h')"
  shows "\<exists>h''. verify c j tm (nr_artifacts_dir res) h' = (Inr (nr_report res), h'')"
proof -
  from run obtain out where out: "node_run c to_vec (na_max_rounds args) (nj_topology job) (nj_agents job)
      (nj_scenario job) (session_run_id args idx) tr = Inr (out, tr')"
    and pers: "persist_node_bundle c j (nr_artifacts_dir res) (nj_topology job) (nj_topology_text job)
      (nj_scenario_text job) (nj_alias job) out h = (Inr (nr_report res), h')"
    by (auto simp: node_session_def Let_def)
  note written = persist_written [OF pers]
  show ?thesis
    using verify_bundle [OF ok(1) node_run_indexed(1) [OF out]
        node_run_indexed(2) [OF out loaded_topology_ids [OF ok(2) t] src] written(3) t written(2)] written(1)
    by simp
qed

lemma node_session_keeps:
  "kept (owned_key (fs_key h (path_join (na_artifacts args) (nj_alias job)))) h
     (snd (node_session c j to_vec args job idx tr h))"
  unfolding node_session_def Let_def
  by (auto intro!: kept_io_get_then kept_then persist_keeps split: prod.split simp: kept.frame_refl)

lemma node_sessions_keep:
  "kept (owned_key (fs_key h (path_join (na_artifacts args) (nj_alias job)))) h
     (snd (node_sessions turns c j to_vec args job idx tr h))"
proof (induction turns arbitrary: idx tr h)
  case (Suc turns)
  let ?d = "path_join (na_artifacts args) (nj_alias job)"
  let ?K = "owned_key (fs_key h ?d)"
  note step = node_session_keeps [of h args job c j to_vec idx tr]
  show ?case
  proof (cases "node_session c j to_vec args job idx tr h")
    case (Pair r h1)
    have h1: "kept ?K h h1" using step Pair by simp
    have "kept ?K h1 (snd (node_sessions turns c j to_vec args job idx' tr' h1))" for idx' tr'
      using Suc.IH [of h1 idx' tr'] keptD(3) [OF h1] by simp
    with Pair h1 show ?thesis by (auto split: sum.split prod.split intro: kept.frame_trans)
  qed
qed (simp add: kept.frame_refl)

text \<open>A persistent node never comes back with a result.\<close>

lemma persistent_runs_on:
  assumes "na_persist args"
  shows "fst (node_sessions turns c j to_vec args job idx tr h) \<noteq> Some (Inr res)"
  using assms
proof (induction turns arbitrary: idx tr h)
  case (Suc turns)
  then show ?case by (auto split: prod.split sum.split)
qed simp

section \<open>The command\<close>

lemma node_setup_Inr:
  assumes "node_setup c tm env args h = Inr (t, alias, agents, sc, cfg)"
  obtains n a s bn where "node_from_str c (na_node_id args) = Inr n" "alias = node_alias_of c args n"
    "fs_read_to_string h (na_topology args) = Inr s"
    "topology_from_toml_str (toml_topology tm) parse_redact c s = Inr t"
    "private_load (read_text h) (toml_bundle tm) c (na_private_intents args) t = Inr bn"
    "bt_get bn n = Some a" "agents = [(n, a)]"
proof -
  have conv: "map_sum f id r = Inr x \<longleftrightarrow> r = Inr x" for f :: "'x \<Rightarrow> 'y" and r and x :: 'z
    by (cases r) auto
  have fault: "(case r of Inl (PiErr e) \<Rightarrow> Inl (f e) | Inl (PiPanic s) \<Rightarrow> Inl (g s) | Inr x \<Rightarrow> Inr x) = Inr y \<longleftrightarrow>
      r = Inr y" for f :: "private_intent_error \<Rightarrow> 'x" and g and r :: "pi_fault + 'z" and y
    by (auto split: sum.splits pi_fault.splits)
  from assms show thesis
    using that
    by (auto simp: node_setup_def conv fault Let_def topology_load_def read_text_def
        split: if_splits sum.splits option.splits)
qed

text \<open>The directory a node writes to.\<close>

definition node_dir :: "crates \<Rightarrow> node_args \<Rightarrow> string" where
  "node_dir c args =
     (case node_from_str c (na_node_id args) of
        Inl _ \<Rightarrow> []
      | Inr n \<Rightarrow> path_join (na_artifacts args) (node_alias_of c args n))"

lemma and_then_hangs:
  "and_then r k = Inl e \<Longrightarrow> r \<noteq> Inl e \<Longrightarrow> \<exists>x. r = Inr x \<and> k x = Inl e"
  by (cases r) auto

lemma node_setup_no_hang: "node_setup c tm env args h \<noteq> Inl CmdHangs"
proof
  have conv: "map_sum f id r = Inl x \<longleftrightarrow> (\<exists>y. r = Inl y \<and> x = f y)" for f :: "'x \<Rightarrow> 'y" and r :: "'x + 'z" and x
    by (cases r) auto
  assume "node_setup c tm env args h = Inl CmdHangs"
  then show False
    by (auto simp: node_setup_def and_then_Inl conv Let_def ok_or_def
        split: if_splits sum.splits option.splits pi_fault.splits)
qed

lemma bootstrap_queue: "vertex_queue (bootstrap_wait boot tr) = vertex_queue tr"
  by (induction boot) (simp_all add: bootstrap_wait_def flush_queue)

lemma run_node_cases:
  obtains (early) e where "run_node c j tm to_vec env start boot turns args h = (Some (Inl e), h)"
      "e \<noteq> CmdHangs"
  | (job) job tr where "run_node c j tm to_vec env start boot turns args h =
      node_sessions turns c j to_vec args job 0 tr h"
    "path_join (na_artifacts args) (nj_alias job) = node_dir c args"
    "topology_from_toml_str (toml_topology tm) parse_redact c (nj_topology_text job) =
      Inr (nj_topology job)"
    "\<exists>n a bn. nj_agents job = [(n, a)] \<and> node_from_str c (na_node_id args) = Inr n \<and>
      private_load (read_text h) (toml_bundle tm) c (na_private_intents args) (nj_topology job) = Inr bn \<and>
      bt_get bn n = Some a"
    "\<exists>cfg tr0. start cfg = Inr tr0 \<and> vertex_queue tr = vertex_queue tr0"
proof (cases "node_setup c tm env args h")
  case (Inl e)
  then show thesis using early [of e] node_setup_no_hang [of c tm env args h]
    by (auto simp: run_node_def)
next
  case (Inr x)
  obtain t al agents sc cfg where x: "x = (t, al, agents, sc, cfg)" by (cases x)
  from Inr [unfolded x] obtain n a s bn where n: "node_from_str c (na_node_id args) = Inr n" "al = node_alias_of c args n"
    and s: "fs_read_to_string h (na_topology args) = Inr s"
    "topology_from_toml_str (toml_topology tm) parse_redact c s = Inr t"
    and a: "private_load (read_text h) (toml_bundle tm) c (na_private_intents args) t = Inr bn"
    "bt_get bn n = Some a" "agents = [(n, a)]" by (rule node_setup_Inr)
  have topo: "read_text h (na_topology args) = Inr s" using s(1) by (simp add: read_text_def)
  show thesis
  proof (cases "start cfg")
    case (Inl e)
    then show thesis using early Inr by (simp add: run_node_def x)
  next
    case st: (Inr tr)
    have go_on: thesis
      if "run_node c j tm to_vec env start boot turns args h =
        node_sessions turns c j to_vec args \<lparr>nj_topology = t, nj_topology_text = s, nj_scenario = sc,
          nj_scenario_text = st, nj_alias = al, nj_agents = agents\<rparr> 0 (bootstrap_wait boot tr) h" for st
      using that n s(2) a st by (intro job [OF that]) (auto simp: node_dir_def bootstrap_queue)
    show thesis
    proof (cases "na_scenario args")
      case None
      then show thesis using Inr st topo by (intro go_on [of None]) (simp add: run_node_def x Let_def)
    next
      case (Some p)
      show thesis
      proof (cases "read_text h p")
        case (Inl e)
        then show thesis using early Inr st topo Some by (simp add: run_node_def x Let_def)
      next
        case (Inr scn)
        then show thesis using \<open>node_setup c tm env args h = Inr x\<close> st topo Some
          by (intro go_on [of "Some scn"]) (simp add: run_node_def x Let_def)
      qed
    qed
  qed
qed

lemma run_node_keeps:
  "kept (owned_key (fs_key h (node_dir c args))) h
     (snd (run_node c j tm to_vec env start boot turns args h))"
proof (cases rule: run_node_cases [of c j tm to_vec env start boot turns args h])
  case (job jb tr)
  then show ?thesis using node_sessions_keep [of h args jb turns c j to_vec 0 tr] by simp
qed (simp add: kept.frame_refl)

text \<open>Steps that always come back.\<close>

definition comes_back :: "('e command_fault, 'a) io \<Rightarrow> bool" where
  "comes_back m \<longleftrightarrow> (\<forall>h. fst (m h) \<noteq> Inl CmdHangs)"

lemma comes_back_intros:
  "comes_back m \<Longrightarrow> (\<And>x. comes_back (k x)) \<Longrightarrow> comes_back (io_then m k)"
  "(\<And>e. f e \<noteq> CmdHangs) \<Longrightarrow> comes_back (io_map_err f n)"
  "comes_back (io_return x)" "(\<And>h. g h \<noteq> Inl CmdHangs) \<Longrightarrow> comes_back (io_get g)"
proof -
  show "comes_back m \<Longrightarrow> (\<And>x. comes_back (k x)) \<Longrightarrow> comes_back (io_then m k)"
    unfolding comes_back_def io_then_def by (auto split: prod.splits sum.splits) (metis fst_conv)+
  show "(\<And>e. f e \<noteq> CmdHangs) \<Longrightarrow> comes_back (io_map_err f n)"
    unfolding comes_back_def io_map_err_def by (auto split: prod.splits sum.splits)
qed (simp_all add: comes_back_def io_return_def io_get_def)

lemma node_session_comes_back: "comes_back (node_session c j to_vec args job idx tr)"
proof -
  have "comes_back (persist_node_bundle c j d t topo scn al out)" for d t topo scn al out
    unfolding persist_node_bundle_def node_art_def clean_owned_files_def node_write_def Let_def
    by (cases scn) (auto intro!: comes_back_intros)
  then show ?thesis
    unfolding node_session_def Let_def
    by (auto intro!: comes_back_intros simp: node_run_returns split: prod.split)
qed

lemma run_node_returns:
  assumes "\<not> na_persist args"
  shows "\<exists>r. fst (run_node c j tm to_vec env start boot (Suc turns) args h) = Some r \<and> r \<noteq> Inl CmdHangs"
proof (cases rule: run_node_cases [of c j tm to_vec env start boot "Suc turns" args h])
  case (job jb tr)
  have "fst (node_session c j to_vec args jb 0 tr h) \<noteq> Inl CmdHangs"
    using node_session_comes_back by (simp add: comes_back_def)
  then show ?thesis using assms job(1) by (auto split: prod.split sum.split)
qed simp

lemma run_node_verifies:
  assumes ok: "json_ok j" "hex_ok c"
    and src: "\<And>cfg tr m. start cfg = Inr tr \<Longrightarrow> m \<in> set (vertex_queue tr) \<Longrightarrow> origin_wf m"
    and run: "fst (run_node c j tm to_vec env start boot 1 args h) = Some (Inr res)"
  shows "\<exists>h'. verify c j tm (nr_artifacts_dir res)
    (snd (run_node c j tm to_vec env start boot 1 args h)) = (Inr (nr_report res), h')"
proof (cases rule: run_node_cases [of c j tm to_vec env start boot 1 args h])
  case (early e)
  then show ?thesis using run by simp
next
  case (job jb tr)
  from job(5) src have "\<forall>m \<in> set (vertex_queue tr). origin_wf m" by metis
  moreover obtain tr' h1 where "node_session c j to_vec args jb 0 tr h = (Inr (res, tr'), h1)"
    "run_node c j tm to_vec env start boot 1 args h = (Some (Inr res), h1)"
    using run job(1) by (auto split: prod.splits sum.splits if_splits)
  ultimately show ?thesis using node_session_verifies [OF ok _ job(3)] by simp
qed

end
