(* ===== verification/Orchestrator.thy ===== *)
theory Orchestrator
  imports Serde_Value Node
begin

text \<open>
  \<open>orchestrate.rs\<close>: the process that starts one node per topology entry, watches their
  output, kills and restarts one of them on request, and sums up the bundles. Generated keys,
  the spawning of a process and the readings of the clock are parameters or inputs; the
  supervision loop is a step function of what each turn observes.
\<close>

datatype orchestrate_error =
  OrchTopology "config_error option"   \<comment> \<open>\<open>None\<close>: fewer than two nodes\<close>
| OrchPrivateIntent string
| OrchIo string
| OrchSpawn string string
| OrchChildExit string int
| OrchTimeout string

record orch_args =
  oa_topology :: string
  oa_private_intents :: string
  oa_scenario :: "string option"
  oa_artifacts :: string
  oa_base_port :: "16 word"
  oa_fail_at_round :: "u64 option"
  oa_rejoin_after_ms :: "u64 option"
  oa_fail_target :: "string option"
  oa_max_rounds :: u64
  oa_run_id :: string
  oa_poll_timeout_ms :: u64
  oa_binary :: "string option"

record node_spec =
  ns_alias :: string
  ns_node_id_hex :: string
  ns_bind :: string
  ns_pubkey :: string
  ns_secret :: string

section \<open>The children and their command lines\<close>

definition node_alias_at :: "nat \<Rightarrow> string" where
  "node_alias_at idx = ''n'' @ show_nat (idx + 1)"

text \<open>\<open>keys idx\<close> is the key pair generated for the node, secret first; the port wraps.\<close>

definition make_spec ::
  "crates \<Rightarrow> (nat \<Rightarrow> string \<times> string) \<Rightarrow> 16 word \<Rightarrow> nat \<Rightarrow> node_config \<Rightarrow> node_spec" where
  "make_spec c keys base_port idx nc =
     (let port = base_port + word_of_nat idx;
          (secret, public) = keys idx
      in \<lparr>ns_alias = node_alias_at idx, ns_node_id_hex = to_hex c (nc_id nc),
          ns_bind = ''127.0.0.1:'' @ show_nat (unat port), ns_pubkey = public, ns_secret = secret\<rparr>)"

definition make_specs ::
  "crates \<Rightarrow> (nat \<Rightarrow> string \<times> string) \<Rightarrow> orch_args \<Rightarrow> topology_config \<Rightarrow>
     orchestrate_error + node_spec list" where
  "make_specs c keys args topology =
     (let ordered = sort_key nc_id (topo_nodes topology)
      in if length ordered < 2 then Inl (OrchTopology None)
         else Inr (map (\<lambda>(idx, nc). make_spec c keys (oa_base_port args) idx nc) (enumerate 0 ordered)))"

definition upper_char :: "char \<Rightarrow> char" where
  "upper_char ch =
     (let n = (of_char ch :: nat) in if 97 \<le> n \<and> n \<le> 122 then char_of (n - 32) else ch)"

definition secret_env_var :: "node_spec \<Rightarrow> string" where
  "secret_env_var spec = ''VERTEX_SECRET_'' @ map upper_char (ns_alias spec)"

definition peer_arg :: "node_spec \<Rightarrow> string" where
  "peer_arg peer = ns_pubkey peer @ ''@'' @ ns_bind peer"

definition other_specs :: "nat \<Rightarrow> node_spec list \<Rightarrow> node_spec list" where
  "other_specs self_idx all = map snd (filter (\<lambda>(i, _). i \<noteq> self_idx) (enumerate 0 all))"

definition spawn_argv :: "node_spec \<Rightarrow> node_spec list \<Rightarrow> nat \<Rightarrow> orch_args \<Rightarrow> bool \<Rightarrow> string list" where
  "spawn_argv spec all self_idx args rejoin =
     [''node'', ''--bind'', ns_bind spec, ''--node-id'', ns_node_id_hex spec,
      ''--node-alias'', ns_alias spec, ''--topology'', oa_topology args,
      ''--private-intents'', oa_private_intents args, ''--artifacts'', oa_artifacts args,
      ''--max-rounds'', show_u64 (oa_max_rounds args), ''--run-id'', oa_run_id args,
      ''--poll-timeout-ms'', show_u64 (oa_poll_timeout_ms args)] @
     (case oa_scenario args of None \<Rightarrow> [] | Some scn \<Rightarrow> [''--scenario'', scn]) @
     (if rejoin then [''--rejoin''] else []) @
     concat (map (\<lambda>peer. [''--peer'', peer_arg peer]) (other_specs self_idx all)) @
     [''--secret-env'', secret_env_var spec]"

definition spawn_env :: "node_spec \<Rightarrow> string \<times> string" where
  "spawn_env spec = (secret_env_var spec, ns_secret spec)"

section \<open>Reading the children's output\<close>

text \<open>What follows the first occurrence of \<open>tag\<close>.\<close>

fun after_tag :: "string \<Rightarrow> string \<Rightarrow> string option" where
  "after_tag tag [] = (if tag = [] then Some [] else None)"
| "after_tag tag (x # xs) =
     (if prefix tag (x # xs) then Some (drop (length tag) (x # xs)) else after_tag tag xs)"

fun break_ws :: "string \<Rightarrow> string \<times> string" where
  "break_ws [] = ([], [])"
| "break_ws (x # xs) =
     (if strip_one white_space (x # xs) \<noteq> None then ([], x # xs)
      else case break_ws xs of (w, r) \<Rightarrow> (x # w, r))"

text \<open>\<open>SplitWhitespace::next\<close>.\<close>

definition next_word :: "string \<Rightarrow> (string \<times> string) option" where
  "next_word s = (case break_ws (strip_all white_space s) of (w, r) \<Rightarrow> if w = [] then None else Some (w, r))"

definition parse_round_committed :: "string \<Rightarrow> u64 option" where
  "parse_round_committed line =
     Option.bind (after_tag ''[VERTEX]'' line) (\<lambda>rest.
     Option.bind (next_word (strip_all white_space rest)) (\<lambda>(word0, rest).
     if word0 \<noteq> ''round'' then None
     else Option.bind (next_word rest) (\<lambda>(word1, _). parse_u64 word1)))"

section \<open>The supervision loop\<close>

text \<open>What \<open>recv_timeout\<close> returns; on a timeout, what \<open>try_wait\<close> says of each child.\<close>

datatype orch_event =
  RoundCommitted string u64
| ChildExited string int
| RecvTimeout "string \<Rightarrow> int option"
| Disconnected

text \<open>One turn: the clock at each of its three readings, whether a restart works, the event.\<close>

record orch_turn =
  ot_deadline_now :: nat
  ot_rejoin_now :: nat
  ot_kill_now :: nat
  ot_spawn_error :: "string option"
  ot_event :: orch_event

datatype orch_action = Killed string | Rejoined string | KilledAll "string list"

record orch_state =
  os_children :: "(string, unit) btree_map"
  os_killed_once :: bool
  os_rejoin_at :: "nat option"
  os_actions :: "orch_action list"

datatype orch_stop = OrchErr orchestrate_error | OrchPanic string

datatype loop_step = Continue orch_state | Break orch_state | Stop orch_stop orch_state

definition remove_child :: "string \<Rightarrow> (string, unit) btree_map \<Rightarrow> (string, unit) btree_map" where
  "remove_child a m = filter (\<lambda>(k, _). k \<noteq> a) m"

definition fail_target_alias :: "orch_args \<Rightarrow> node_spec list \<Rightarrow> string" where
  "fail_target_alias args nodes =
     (case oa_fail_target args of Some a \<Rightarrow> a | None \<Rightarrow> ns_alias (last nodes))"

text \<open>The scheduler of the restart.\<close>

definition rejoin_step ::
  "orch_args \<Rightarrow> node_spec list \<Rightarrow> orch_turn \<Rightarrow> orch_state \<Rightarrow> orch_stop + orch_state" where
  "rejoin_step args nodes turn s =
     (case os_rejoin_at s of
        None \<Rightarrow> Inr s
      | Some at \<Rightarrow>
          if ot_rejoin_now turn < at then Inr s
          else
            let s = s\<lparr>os_rejoin_at := None\<rparr>;
                target = fail_target_alias args nodes
            in case List.find (\<lambda>n. ns_alias n = target) nodes of
                 None \<Rightarrow> Inl (OrchPanic ''fail target in nodes list'')
               | Some spec \<Rightarrow>
                   (case ot_spawn_error turn of
                      Some e \<Rightarrow> Inl (OrchErr (OrchSpawn (ns_alias spec) e))
                    | None \<Rightarrow>
                        Inr (s\<lparr>os_children := bt_insert (ns_alias spec) () (os_children s),
                               os_actions := os_actions s @ [Rejoined (ns_alias spec)]\<rparr>)))"

definition kill_step ::
  "orch_args \<Rightarrow> node_spec list \<Rightarrow> orch_turn \<Rightarrow> string \<Rightarrow> u64 \<Rightarrow> orch_state \<Rightarrow> orch_state" where
  "kill_step args nodes turn al round s =
     (let target = fail_target_alias args nodes
      in case (oa_fail_at_round args, os_killed_once s) of
           (Some target_round, False) \<Rightarrow>
             if al = target \<and> round = target_round \<and> bt_contains (os_children s) target
             then s\<lparr>os_actions := os_actions s @ [Killed target], os_killed_once := True,
                    os_rejoin_at := (case oa_rejoin_after_ms args of
                        None \<Rightarrow> os_rejoin_at s
                      | Some ms \<Rightarrow> Some (ot_kill_now turn + unat ms))\<rparr>
             else s
         | _ \<Rightarrow> s)"

definition event_step :: "orch_args \<Rightarrow> node_spec list \<Rightarrow> orch_turn \<Rightarrow> orch_state \<Rightarrow> loop_step" where
  "event_step args nodes turn s =
     (case ot_event turn of
        RoundCommitted al round \<Rightarrow> Continue (kill_step args nodes turn al round s)
      | ChildExited al _ \<Rightarrow>
          let s = s\<lparr>os_children := remove_child al (os_children s)\<rparr>
          in if os_children s = [] then Break s else Continue s
      | RecvTimeout exited \<Rightarrow>
          let to_remove = filter (\<lambda>al. exited al \<noteq> None) (bt_keys (os_children s));
              s = s\<lparr>os_children := fold remove_child to_remove (os_children s)\<rparr>
          in if os_children s = [] then Break s else Continue s
      | Disconnected \<Rightarrow> Break s)"

definition orch_step ::
  "orch_args \<Rightarrow> node_spec list \<Rightarrow> nat \<Rightarrow> orch_turn \<Rightarrow> orch_state \<Rightarrow> loop_step" where
  "orch_step args nodes deadline turn s =
     (if ot_deadline_now turn > deadline
      then Stop (OrchErr (OrchTimeout ''orchestrator deadline exceeded''))
             (s\<lparr>os_actions := os_actions s @ [KilledAll (bt_keys (os_children s))]\<rparr>)
      else case rejoin_step args nodes turn s of
             Inl e \<Rightarrow> Stop e s
           | Inr s \<Rightarrow> event_step args nodes turn s)"

text \<open>The loop over the turns observed; \<open>Continue\<close> when it is still running after them.\<close>

fun orch_loop ::
  "orch_args \<Rightarrow> node_spec list \<Rightarrow> nat \<Rightarrow> orch_turn list \<Rightarrow> orch_state \<Rightarrow> loop_step" where
  "orch_loop args nodes deadline [] s = Continue s"
| "orch_loop args nodes deadline (turn # turns) s =
     (case orch_step args nodes deadline turn s of
        Continue s \<Rightarrow> orch_loop args nodes deadline turns s
      | r \<Rightarrow> r)"

definition orch_start :: "node_spec list \<Rightarrow> orch_state" where
  "orch_start nodes =
     \<lparr>os_children = fold (\<lambda>n. bt_insert (ns_alias n) ()) nodes [], os_killed_once = False,
      os_rejoin_at = None, os_actions = []\<rparr>"

section \<open>The summary\<close>

text \<open>The parser into \<open>serde_json::Value\<close> is a parameter.\<close>

definition read_status :: "(string \<Rightarrow> jvalue option) \<Rightarrow> fs \<Rightarrow> string \<Rightarrow> jvalue option" where
  "read_status parse h dir =
     (case fs_read_to_string h (path_join dir ''run_status.json'') of
        Inl _ \<Rightarrow> None | Inr text \<Rightarrow> parse text)"

definition status_finalized :: "(string \<Rightarrow> jvalue option) \<Rightarrow> fs \<Rightarrow> string \<Rightarrow> bool" where
  "status_finalized parse h dir =
     (case read_status parse h dir of
        None \<Rightarrow> False
      | Some v \<Rightarrow> (case jget ''finalized'' v of Some (JBool b) \<Rightarrow> b | _ \<Rightarrow> False))"

definition status_aborted :: "(string \<Rightarrow> jvalue option) \<Rightarrow> fs \<Rightarrow> string \<Rightarrow> bool" where
  "status_aborted parse h dir =
     (case read_status parse h dir of
        None \<Rightarrow> False
      | Some v \<Rightarrow> (case jget ''abort_reason'' v of None \<Rightarrow> False | Some x \<Rightarrow> x \<noteq> JNull))"

record orch_result =
  or_children_finalized :: nat
  or_children_aborted :: nat
  or_bundle_dirs :: "string list"
  or_overall_ok :: bool

definition orch_summary ::
  "(string \<Rightarrow> jvalue option) \<Rightarrow> fs \<Rightarrow> orch_args \<Rightarrow> node_spec list \<Rightarrow> orch_result" where
  "orch_summary parse h args nodes =
     (let bundle_dirs = map (\<lambda>n. path_join (oa_artifacts args) (ns_alias n)) nodes;
          finalized = length (filter (status_finalized parse h) bundle_dirs);
          aborted = length (filter (status_aborted parse h) bundle_dirs)
      in \<lparr>or_children_finalized = finalized, or_children_aborted = aborted,
          or_bundle_dirs = bundle_dirs,
          or_overall_ok = (finalized + aborted > 0 \<and>
            finalized + aborted \<ge> length bundle_dirs - 1)\<rparr>)"

section \<open>The command\<close>

text \<open>Up to the loop; \<open>spawns\<close> says which of the first children could not be started.\<close>

definition orch_setup ::
  "crates \<Rightarrow> toml \<Rightarrow> (nat \<Rightarrow> string \<times> string) \<Rightarrow> (string \<Rightarrow> string option) \<Rightarrow> orch_args \<Rightarrow> fs \<Rightarrow>
     orchestrate_error + node_spec list" where
  "orch_setup c tm keys spawns args h =
     and_then (map_sum (\<lambda>e. OrchTopology (Some e)) id
        (topology_load (read_text h) (toml_topology tm) parse_redact c (oa_topology args))) (\<lambda>topology.
     and_then (make_specs c keys args topology) (\<lambda>nodes.
     and_then (map_sum (\<lambda>e. OrchIo (io_message e)) id (fst (fs_create_dir_all (oa_artifacts args) h))) (\<lambda>_.
     case List.find (\<lambda>n. spawns (ns_alias n) \<noteq> None) nodes of
       Some n \<Rightarrow> Inl (OrchSpawn (ns_alias n) (the (spawns (ns_alias n))))
     | None \<Rightarrow> Inr nodes)))"

text \<open>
  \<open>h'\<close> is the file system once the loop is over; the deadline is 180 seconds after \<open>now\<close>;
  \<open>None\<close> when the loop is still running after the given turns.
\<close>

definition run_orchestrator ::
  "crates \<Rightarrow> toml \<Rightarrow> (nat \<Rightarrow> string \<times> string) \<Rightarrow> (string \<Rightarrow> jvalue option) \<Rightarrow> (string \<Rightarrow> string option) \<Rightarrow>
     nat \<Rightarrow> orch_turn list \<Rightarrow> fs \<Rightarrow> orch_args \<Rightarrow> fs \<Rightarrow> (orch_stop + orch_result) option" where
  "run_orchestrator c tm keys parse spawns now turns h' args h =
     (case orch_setup c tm keys spawns args h of
        Inl e \<Rightarrow> Some (Inl (OrchErr e))
      | Inr nodes \<Rightarrow>
          (case orch_loop args nodes (now + 180000) turns (orch_start nodes) of
             Continue _ \<Rightarrow> None
           | Break _ \<Rightarrow> Some (Inr (orch_summary parse h' args nodes))
           | Stop e _ \<Rightarrow> Some (Inl e)))"

section \<open>Command lines\<close>

text \<open>The arguments a child is started with do not depend on any secret.\<close>

definition forget_secret :: "node_spec \<Rightarrow> node_spec" where
  "forget_secret spec = spec\<lparr>ns_secret := []\<rparr>"

lemma enumerate_map_snd: "map snd (filter (\<lambda>(i, _). P i) (enumerate n (map f xs))) =
    map f (map snd (filter (\<lambda>(i, _). P i) (enumerate n xs)))"
  by (induction xs arbitrary: n) auto

lemma spawn_argv_no_secret:
  "spawn_argv (forget_secret spec) (map forget_secret all) idx args rejoin =
    spawn_argv spec all idx args rejoin"
  by (simp add: spawn_argv_def secret_env_var_def other_specs_def enumerate_map_snd peer_arg_def
      forget_secret_def o_def)

text \<open>The child finds the secret where it is told to look, and its peers as they were meant.\<close>

lemma child_secret:
  "env (fst (spawn_env spec)) = Some (snd (spawn_env spec)) \<Longrightarrow>
     resolve_secret env (Some (secret_env_var spec)) None = Inr (ns_secret spec)"
  by (simp add: resolve_secret_def spawn_env_def)

lemma split_once_first: "d \<notin> set a \<Longrightarrow> split_once d (a @ d # b) = Some (a, b)"
  by (induction a) auto

lemma parse_peer_args:
  "\<forall>spec \<in> set specs. CHR ''@'' \<notin> set (ns_pubkey spec) \<Longrightarrow>
     try_map parse_peer (map peer_arg specs) = Inr (map (\<lambda>spec. (ns_pubkey spec, ns_bind spec)) specs)"
  by (induction specs) (auto simp: parse_peer_def peer_arg_def split_once_first)

lemma child_peers:
  assumes "\<forall>spec \<in> set all. CHR ''@'' \<notin> set (ns_pubkey spec)"
  shows "try_map parse_peer (map peer_arg (other_specs idx all)) =
    Inr (map (\<lambda>spec. (ns_pubkey spec, ns_bind spec)) (other_specs idx all))"
  using assms by (intro parse_peer_args) (auto simp: other_specs_def in_set_enumerate_eq)

lemma make_specs_nth:
  assumes "make_specs c keys args t = Inr specs" "i < length specs"
  shows "specs ! i = make_spec c keys (oa_base_port args) i (sort_key nc_id (topo_nodes t) ! i)"
    "length specs = length (topo_nodes t)"
  using assms by (auto simp: make_specs_def Let_def nth_enumerate_eq split: if_splits)

lemma make_spec_alias: "ns_alias (make_spec c keys p i nc) = node_alias_at i"
  and make_spec_bind: "ns_bind (make_spec c keys p i nc) =
    ''127.0.0.1:'' @ show_nat (unat (p + word_of_nat i :: 16 word))"
  by (simp_all add: make_spec_def Let_def split: prod.splits)

lemma word16_inject:
  assumes "i < 2 ^ 16" "j < 2 ^ 16" "(word_of_nat i :: 16 word) = word_of_nat j"
  shows "i = j"
  using arg_cong [OF assms(3), where f = unat] assms(1,2)
  by (simp add: unsigned_of_nat take_bit_eq_mod)

lemma make_specs_distinct:
  assumes specs: "make_specs c keys args t = Inr specs" and size: "length (topo_nodes t) \<le> 2 ^ 16"
  shows "distinct (map ns_alias specs)" "distinct (map ns_bind specs)"
proof -
  note at = make_specs_nth(1) [OF specs]
  have bound: "i < 2 ^ 16" if "i < length specs" for i
    using that make_specs_nth(2) [OF specs that] size by linarith
  show "distinct (map ns_alias specs)"
    by (auto simp: distinct_conv_nth at make_spec_alias node_alias_at_def show_nat_inject)
  have "i = j" if "i < length specs" "j < length specs" "ns_bind (specs ! i) = ns_bind (specs ! j)" for i j
  proof -
    have "(word_of_nat i :: 16 word) = word_of_nat j"
      using that by (auto simp: at make_spec_bind show_nat_inject dest: unsigned_word_eqI)
    then show ?thesis using word16_inject bound that by blast
  qed
  then show "distinct (map ns_bind specs)"
    by (auto simp: distinct_conv_nth)
qed

lemma make_specs_ports:
  assumes "make_specs c keys args t = Inr specs" "i < length specs"
    and "unat (oa_base_port args) + i < 2 ^ 16"
  shows "ns_bind (specs ! i) = ''127.0.0.1:'' @ show_nat (unat (oa_base_port args) + i)"
proof -
  have "unat (oa_base_port args + word_of_nat i) = unat (oa_base_port args) + i"
    using assms(3) by (simp add: unat_word_ariths unsigned_of_nat take_bit_eq_mod)
  then show ?thesis using make_specs_nth(1) [OF assms(1,2)] by (simp add: make_spec_bind)
qed

section \<open>The log line and its reader\<close>

lemma after_tag_skip:
  "x \<notin> set pre \<Longrightarrow> after_tag (x # t) (pre @ s) = after_tag (x # t) s"
  by (induction pre) auto

lemma after_tag_none: "x \<notin> set s \<Longrightarrow> after_tag (x # t) s = None"
  by (induction s) auto

lemma after_tag_here: "after_tag (x # t) ((x # t) @ s) = Some s"
  by simp

lemma no_ws_strip: "hd s \<notin> hd ` set white_space \<Longrightarrow> strip_one white_space s = None"
  by (cases s) (auto simp: strip_one_def find_None_iff neq_Nil_conv white_space_def)

lemma strip_all_none: "strip_one white_space s = None \<Longrightarrow> strip_all white_space s = s"
  by (subst strip_all.simps) simp

lemma space_no_lead: "n < 256 \<Longrightarrow> n \<noteq> 32 \<Longrightarrow> CHR '' '' \<noteq> char_of (n :: nat)"
  by (auto simp: char_of_eq_iff eq_commute [of "CHR '' ''"] take_bit_eq_mod)

lemma strip_space: "strip_one white_space (CHR '' '' # s) = Some s"
  by (simp add: strip_one_def white_space_def space_no_lead upt_rec)
    (simp add: char_of_eq_iff eq_commute [of "CHR '' ''"])

lemma strip_all_space: "strip_all white_space (CHR '' '' # s) = strip_all white_space s"
  by (subst strip_all.simps) (simp add: strip_space)

definition word_char :: "char \<Rightarrow> bool" where
  "word_char ch \<longleftrightarrow> (let n = (of_char ch :: nat) in 33 \<le> n \<and> n < 128)"

lemma word_char_head:
  assumes "word_char ch"
  shows "strip_one white_space (ch # s) = None"
proof (rule no_ws_strip)
  have "\<forall>w \<in> set white_space. (of_char (hd w) :: nat) \<notin> {33..<128}"
    by (auto simp: white_space_def)
  with assms show "hd (ch # s) \<notin> hd ` set white_space"
    by (fastforce simp: word_char_def Let_def)
qed

lemma next_word_plain:
  assumes "\<forall>ch \<in> set w. word_char ch" "w \<noteq> []"
  shows "next_word (w @ CHR '' '' # s) = Some (w, CHR '' '' # s)"
proof -
  have "break_ws (w @ CHR '' '' # s) = (w, CHR '' '' # s)" if "\<forall>ch \<in> set w. word_char ch" for w
    using that by (induction w) (simp_all add: strip_space word_char_head)
  moreover have "strip_one white_space (w @ CHR '' '' # s) = None"
    using assms by (cases w) (simp_all add: word_char_head)
  ultimately show ?thesis using assms by (simp add: next_word_def strip_all_none)
qed

lemma next_word_space: "next_word (CHR '' '' # s) = next_word s"
  by (simp add: next_word_def strip_all_space)

lemma digit_word_char: "digits_only s \<Longrightarrow> ch \<in> set s \<Longrightarrow> word_char ch"
  by (auto simp: digits_only_def digit_value_def word_char_def Let_def split: if_splits)

lemma parse_round_text:
  "parse_round_committed (''['' @ node_alias_at i @ ''] [VERTEX] round '' @ show_u64 r @ CHR '' '' # s) = Some r"
proof -
  have "after_tag ''[VERTEX]'' (''['' @ node_alias_at i @ ''] [VERTEX] round '' @ show_u64 r @ CHR '' '' # s) =
      after_tag ''[VERTEX]'' ((node_alias_at i @ ''] '') @ ''[VERTEX]'' @ '' round '' @ show_u64 r @ CHR '' '' # s)"
    by (simp add: node_alias_at_def)
  also have "\<dots> = Some ('' round '' @ show_u64 r @ CHR '' '' # s)"
    using digits_no [OF show_nat_digits, of "CHR ''[''"]
    by (subst after_tag_skip) (auto simp: node_alias_at_def digit_value_def)
  finally have tag: "after_tag ''[VERTEX]'' (''['' @ node_alias_at i @ ''] [VERTEX] round '' @ show_u64 r @ CHR '' '' # s) =
    Some ('' round '' @ show_u64 r @ CHR '' '' # s)" .
  have "next_word (''round'' @ CHR '' '' # show_u64 r @ CHR '' '' # s) =
      Some (''round'', CHR '' '' # show_u64 r @ CHR '' '' # s)"
    by (rule next_word_plain) (auto simp: word_char_def)
  moreover have "next_word (CHR '' '' # show_u64 r @ CHR '' '' # s) = Some (show_u64 r, CHR '' '' # s)"
    using digit_word_char [OF show_u64_digits, of _ r] show_u64_nonempty
    by (simp add: next_word_space next_word_plain)
  moreover have "strip_all white_space ('' round '' @ show_u64 r @ CHR '' '' # s) =
      ''round'' @ CHR '' '' # show_u64 r @ CHR '' '' # s"
    by (simp add: strip_all_space strip_all_none word_char_head word_char_def)
  ultimately show ?thesis unfolding parse_round_committed_def tag by simp
qed

lemma parse_other_tag:
  assumes "CHR ''['' \<notin> set s" "t \<noteq> []" "\<not> prefix ''VERTEX]'' (t @ s)" "CHR ''['' \<notin> set t"
  shows "parse_round_committed (''['' @ node_alias_at i @ ''] ['' @ t @ s) = None"
proof -
  have "after_tag ''[VERTEX]'' (''['' @ node_alias_at i @ ''] ['' @ t @ s) =
      after_tag ''[VERTEX]'' ((node_alias_at i @ ''] '') @ ''['' @ t @ s)"
    by (simp add: node_alias_at_def)
  also have "\<dots> = after_tag ''[VERTEX]'' (''['' @ t @ s)"
    using digits_no [OF show_nat_digits, of "CHR ''[''"]
    by (subst after_tag_skip) (auto simp: node_alias_at_def digit_value_def)
  also have "\<dots> = None" using assms by (simp add: after_tag_none)
  finally show ?thesis unfolding parse_round_committed_def by simp
qed

definition plain_event :: "observer_event \<Rightarrow> bool" where
  "plain_event e \<longleftrightarrow>
     (case e of OnProposal _ _ cap \<Rightarrow> CHR ''['' \<notin> set cap | OnAbort reason _ \<Rightarrow> CHR ''['' \<notin> set reason | _ \<Rightarrow> True)"

lemma parse_node_line:
  assumes hex: "\<forall>n. CHR ''['' \<notin> set (to_hex c n)" and e: "plain_event e"
  shows "parse_round_committed (node_line c (node_alias_at i) e) =
    (case e of OnRoundCommitted r _ \<Rightarrow> Some r | _ \<Rightarrow> None)"
proof -
  have plain: "CHR ''['' \<notin> set (short_id c n)" "CHR ''['' \<notin> set (show_u64 w)" for n w
    using hex digits_no [OF show_u64_digits, of "CHR ''[''"]
    by (auto simp: short_id_def ellipsis_def digit_value_def char_of_eq_iff eq_commute [of "CHR ''[''"]
        dest: in_set_takeD)
  show ?thesis
  proof (cases e)
    case (OnRoundCommitted r b)
    then show ?thesis
      using parse_round_text [of i r "''committed (finalized='' @ show_bool b @ '')''"] by (simp add: node_emit_def)
  next
    case (OnCommitment n r)
    then show ?thesis using plain parse_other_tag [of "'' commitment from '' @ short_id c n @ '' round='' @ show_u64 r" "''COORD]''"]
      by (simp add: node_emit_def)
  next
    case (OnProposal n r cap)
    then show ?thesis using e plain
        parse_other_tag [of "'' proposal by '' @ short_id c n @ '' ('' @ cap @ '') round='' @ show_u64 r" "''COORD]''"]
      by (simp add: node_emit_def plain_event_def)
  next
    case (OnProofVerified n r)
    then show ?thesis using plain
        parse_other_tag [of "'' proof verified for '' @ short_id c n @ '' round='' @ show_u64 r" "''COORD]''"]
      by (simp add: node_emit_def)
  next
    case (OnReceipt n r)
    then show ?thesis using plain
        parse_other_tag [of "'' receipt signed by '' @ short_id c n @ '' round='' @ show_u64 r" "''COORD]''"]
      by (simp add: node_emit_def)
  next
    case (OnAbort reason r)
    then show ?thesis using e plain parse_other_tag [of "'' '' @ reason @ '' at round='' @ show_u64 r" "''ABORT]''"]
      by (simp add: node_emit_def plain_event_def)
  qed
qed

section \<open>Killing and restarting\<close>

text \<open>A turn in which the target's round comes in, and what the loop has done after some turns.\<close>

definition kill_turn :: "orch_args \<Rightarrow> node_spec list \<Rightarrow> orch_turn \<Rightarrow> bool" where
  "kill_turn args nodes turn \<longleftrightarrow>
     (case ot_event turn of
        RoundCommitted al round \<Rightarrow>
          al = fail_target_alias args nodes \<and> oa_fail_at_round args = Some round
      | _ \<Rightarrow> False)"

definition orch_inv :: "orch_args \<Rightarrow> node_spec list \<Rightarrow> orch_turn set \<Rightarrow> orch_state \<Rightarrow> bool" where
  "orch_inv args nodes seen s \<longleftrightarrow>
     (let target = fail_target_alias args nodes
      in (os_actions s = [] \<and> \<not> os_killed_once s \<and> os_rejoin_at s = None) \<or>
         (os_actions s = [Killed target] \<and> os_killed_once s \<and> target \<in> ns_alias ` set nodes \<and>
           (\<exists>turn \<in> seen. kill_turn args nodes turn \<and>
             os_rejoin_at s = map_option (\<lambda>ms. ot_kill_now turn + unat ms) (oa_rejoin_after_ms args))) \<or>
         (os_actions s = [Killed target, Rejoined target] \<and> os_killed_once s \<and> os_rejoin_at s = None \<and>
           (\<exists>turn \<in> seen. \<exists>later \<in> seen. \<exists>ms. kill_turn args nodes turn \<and>
             oa_rejoin_after_ms args = Some ms \<and> ot_kill_now turn + unat ms \<le> ot_rejoin_now later))) \<and>
     set (bt_keys (os_children s)) \<subseteq> ns_alias ` set nodes"

lemma orch_inv_mono: "orch_inv args nodes seen s \<Longrightarrow> seen \<subseteq> seen' \<Longrightarrow> orch_inv args nodes seen' s"
  unfolding orch_inv_def Let_def by blast

lemma orch_inv_children:
  "orch_inv args nodes seen s \<Longrightarrow> set (bt_keys cs) \<subseteq> set (bt_keys (os_children s)) \<Longrightarrow>
     orch_inv args nodes seen (s\<lparr>os_children := cs\<rparr>)"
  unfolding orch_inv_def Let_def by (simp, blast)

lemma bt_keys_Nil: "bt_keys [] = []"
  by (simp add: bt_keys_def)

lemma keys_remove_child: "set (bt_keys (remove_child a m)) = set (bt_keys m) - {a}"
  by (auto simp: remove_child_def bt_keys_def)

lemma keys_remove_children: "set (bt_keys (fold remove_child as m)) = set (bt_keys m) - set as"
  by (induction as arbitrary: m) (auto simp: keys_remove_child)

lemma find_alias:
  "a \<in> ns_alias ` set nodes \<Longrightarrow> \<exists>spec. List.find (\<lambda>n. ns_alias n = a) nodes = Some spec \<and> ns_alias spec = a"
  by (induction nodes) auto

lemma rejoin_step_inv:
  assumes inv: "orch_inv args nodes seen s"
  shows "case rejoin_step args nodes turn s of
      Inl e \<Rightarrow> \<exists>a t. e = OrchErr (OrchSpawn a t)
    | Inr s' \<Rightarrow> orch_inv args nodes (insert turn seen) s'"
proof (cases "os_rejoin_at s")
  case None
  then show ?thesis using orch_inv_mono [OF inv] by (auto simp: rejoin_step_def)
next
  case (Some at)
  let ?t = "fail_target_alias args nodes"
  from Some inv obtain before ms where
      acts: "os_actions s = [Killed ?t]" "os_killed_once s" and tgt: "?t \<in> ns_alias ` set nodes"
    and k: "before \<in> seen" "kill_turn args nodes before" "oa_rejoin_after_ms args = Some ms"
      "at = ot_kill_now before + unat ms"
    and keys: "set (bt_keys (os_children s)) \<subseteq> ns_alias ` set nodes"
    by (cases "oa_rejoin_after_ms args") (auto simp: orch_inv_def Let_def)
  from find_alias [OF tgt] obtain spec where
    spec: "List.find (\<lambda>n. ns_alias n = ?t) nodes = Some spec" "ns_alias spec = ?t" by blast
  have "orch_inv args nodes (insert turn seen)
      (s\<lparr>os_rejoin_at := None, os_children := bt_insert ?t () (os_children s),
         os_actions := os_actions s @ [Rejoined ?t]\<rparr>)" if "at \<le> ot_rejoin_now turn"
    using acts tgt k keys that by (auto simp: orch_inv_def Let_def bt_keys_insert)
  then show ?thesis
    using Some spec orch_inv_mono [OF inv]
    by (auto simp: rejoin_step_def Let_def split: option.splits)
qed

lemma kill_step_inv:
  assumes inv: "orch_inv args nodes seen s" and ev: "ot_event turn = RoundCommitted al round"
    and turn: "turn \<in> seen"
  shows "orch_inv args nodes seen (kill_step args nodes turn al round s)"
proof (cases "kill_step args nodes turn al round s = s")
  case False
  then have k: "oa_fail_at_round args = Some round" "\<not> os_killed_once s" "al = fail_target_alias args nodes"
    "bt_contains (os_children s) al"
    by (auto simp: kill_step_def Let_def split: option.splits bool.splits if_splits)
  then have "al \<in> ns_alias ` set nodes"
    using inv by (auto simp: orch_inv_def Let_def bt_contains_def set_bt_keys)
  moreover have "kill_turn args nodes turn" using k ev by (simp add: kill_turn_def)
  moreover have "os_actions s = []" "os_rejoin_at s = None"
    using inv k by (auto simp: orch_inv_def Let_def)
  ultimately show ?thesis
    using k inv turn by (auto simp: kill_step_def orch_inv_def Let_def split: option.splits)
qed (use inv in simp)

fun loop_state :: "loop_step \<Rightarrow> orch_state" where
  "loop_state (Continue s) = s"
| "loop_state (Break s) = s"
| "loop_state (Stop _ s) = s"

lemma event_step_inv:
  assumes "orch_inv args nodes seen s" "turn \<in> seen"
  shows "orch_inv args nodes seen (loop_state (event_step args nodes turn s)) \<and>
    (\<forall>e s'. event_step args nodes turn s \<noteq> Stop e s')"
  using assms kill_step_inv [OF assms(1) _ assms(2)]
  by (cases "ot_event turn")
    (auto simp: event_step_def Let_def keys_remove_child keys_remove_children bt_keys_Nil
      intro!: orch_inv_children)

text \<open>What a stopped loop says: a restart that could not be spawned, or the deadline.\<close>

definition orch_end :: "orch_args \<Rightarrow> node_spec list \<Rightarrow> orch_turn set \<Rightarrow> loop_step \<Rightarrow> bool" where
  "orch_end args nodes seen r \<longleftrightarrow>
     (case r of
        Stop (OrchErr (OrchSpawn _ _)) s \<Rightarrow> orch_inv args nodes seen s
      | Stop (OrchErr (OrchTimeout _)) s \<Rightarrow>
          \<exists>s0. orch_inv args nodes seen s0 \<and>
            s = s0\<lparr>os_actions := os_actions s0 @ [KilledAll (bt_keys (os_children s0))]\<rparr>
      | Stop _ _ \<Rightarrow> False
      | Continue s \<Rightarrow> orch_inv args nodes seen s
      | Break s \<Rightarrow> orch_inv args nodes seen s)"

lemma orch_step_end:
  assumes inv: "orch_inv args nodes seen s"
  shows "orch_end args nodes (insert turn seen) (orch_step args nodes deadline turn s)"
proof (cases "ot_deadline_now turn > deadline")
  case True
  have "orch_inv args nodes (insert turn seen) s" by (rule orch_inv_mono [OF inv]) blast
  with True show ?thesis by (auto simp: orch_step_def orch_end_def intro!: exI [of _ s])
next
  case False
  show ?thesis
  proof (cases "rejoin_step args nodes turn s")
    case (Inl e)
    then show ?thesis
      using False rejoin_step_inv [OF inv, of turn] orch_inv_mono [OF inv subset_insertI]
      by (auto simp: orch_step_def orch_end_def)
  next
    case (Inr s')
    then have "orch_inv args nodes (insert turn seen) s'"
      using rejoin_step_inv [OF inv, of turn] by simp
    from event_step_inv [OF this, of turn] show ?thesis
      using False Inr by (cases "event_step args nodes turn s'") (auto simp: orch_step_def orch_end_def)
  qed
qed

lemma orch_end_mono:
  "orch_end args nodes seen r \<Longrightarrow> seen \<subseteq> seen' \<Longrightarrow> orch_end args nodes seen' r"
  unfolding orch_end_def
  by (auto split: loop_step.splits orch_stop.splits orchestrate_error.splits dest: orch_inv_mono)

lemma orch_loop_end:
  "orch_inv args nodes seen s \<Longrightarrow>
     orch_end args nodes (seen \<union> set turns) (orch_loop args nodes deadline turns s)"
proof (induction turns arbitrary: seen s)
  case Nil
  then show ?case by (simp add: orch_end_def)
next
  case (Cons turn turns)
  have e: "orch_end args nodes (insert turn seen) (orch_step args nodes deadline turn s)"
    by (rule orch_step_end [OF Cons.prems])
  show ?case
  proof (cases "orch_step args nodes deadline turn s")
    case (Continue s')
    with e have "orch_inv args nodes (insert turn seen) s'" by (simp add: orch_end_def)
    from Cons.IH [OF this] show ?thesis using Continue by simp
  qed (use orch_end_mono [OF e, of "seen \<union> set (turn # turns)"] in auto)
qed

lemma keys_orch_start: "set (bt_keys (os_children (orch_start nodes))) = ns_alias ` set nodes"
proof -
  have "set (bt_keys (fold (\<lambda>n. bt_insert (ns_alias n) ()) nodes m)) = ns_alias ` set nodes \<union> set (bt_keys m)" for m
    by (induction nodes arbitrary: m) (auto simp: bt_keys_insert)
  then show ?thesis by (simp add: orch_start_def bt_keys_def)
qed

lemma orch_start_inv: "orch_inv args nodes {} (orch_start nodes)"
  using keys_orch_start [of nodes] by (simp add: orch_inv_def orch_start_def Let_def)

lemma orchestrator_loop:
  "orch_end args nodes (set turns) (orch_loop args nodes deadline turns (orch_start nodes))"
  using orch_loop_end [OF orch_start_inv] by simp

lemma orch_inv_actions:
  assumes "orch_inv args nodes seen s"
  shows "\<exists>acts \<in> {[], [Killed (fail_target_alias args nodes)],
        [Killed (fail_target_alias args nodes), Rejoined (fail_target_alias args nodes)]}.
      os_actions s = acts \<and> (acts \<noteq> [] \<longrightarrow> (\<exists>turn \<in> seen. kill_turn args nodes turn)) \<and>
      (length acts = 2 \<longrightarrow>
        (\<exists>turn \<in> seen. \<exists>later \<in> seen. \<exists>ms. kill_turn args nodes turn \<and>
          oa_rejoin_after_ms args = Some ms \<and> ot_kill_now turn + unat ms \<le> ot_rejoin_now later))"
proof -
  consider "os_actions s = []"
    | turn where "os_actions s = [Killed (fail_target_alias args nodes)]" "turn \<in> seen" "kill_turn args nodes turn"
    | turn later ms where
      "os_actions s = [Killed (fail_target_alias args nodes), Rejoined (fail_target_alias args nodes)]"
      "turn \<in> seen" "later \<in> seen" "kill_turn args nodes turn" "oa_rejoin_after_ms args = Some ms"
      "ot_kill_now turn + unat ms \<le> ot_rejoin_now later"
    using assms unfolding orch_inv_def Let_def by blast
  then show ?thesis by cases (simp_all, blast+)
qed

lemma orchestrator_actions:
  "\<exists>acts \<in> {[], [Killed (fail_target_alias args nodes)],
        [Killed (fail_target_alias args nodes), Rejoined (fail_target_alias args nodes)]}. \<exists>ks.
      os_actions (loop_state (orch_loop args nodes deadline turns (orch_start nodes))) \<in> {acts, acts @ [KilledAll ks]} \<and>
      (acts \<noteq> [] \<longrightarrow> (\<exists>turn \<in> set turns. kill_turn args nodes turn)) \<and>
      (length acts = 2 \<longrightarrow>
        (\<exists>turn \<in> set turns. \<exists>later \<in> set turns. \<exists>ms. kill_turn args nodes turn \<and>
          oa_rejoin_after_ms args = Some ms \<and> ot_kill_now turn + unat ms \<le> ot_rejoin_now later)) \<and>
      (\<forall>m s. orch_loop args nodes deadline turns (orch_start nodes) \<noteq> Stop (OrchPanic m) s)"
proof -
  let ?r = "orch_loop args nodes deadline turns (orch_start nodes)"
  have e: "orch_end args nodes (set turns) ?r" by (rule orchestrator_loop)
  then obtain s ks where s: "orch_inv args nodes (set turns) s"
    "os_actions (loop_state ?r) \<in> {os_actions s, os_actions s @ [KilledAll ks]}"
    by (auto simp: orch_end_def split: loop_step.splits orch_stop.splits orchestrate_error.splits)
  moreover have "?r \<noteq> Stop (OrchPanic m) s" for m s
    using e by (auto simp: orch_end_def)
  ultimately show ?thesis using orch_inv_actions [OF s(1)] by metis
qed

lemma orch_loop_deadline:
  "\<exists>turn \<in> set turns. ot_deadline_now turn > deadline \<Longrightarrow>
     orch_loop args nodes deadline turns s \<noteq> Continue s'"
  by (induction turns arbitrary: s) (auto simp: orch_step_def split: loop_step.splits)

text \<open>The command returns once a turn falls behind the deadline, and never panics.\<close>

lemma run_orchestrator_returns:
  assumes "\<exists>turn \<in> set turns. ot_deadline_now turn > now + 180000"
  shows "\<exists>r. run_orchestrator c tm keys parse spawns now turns h' args h = Some r \<and>
    (\<forall>s. r \<noteq> Inl (OrchPanic s))"
proof -
  have "(\<exists>s. orch_loop args nodes (now + 180000) turns (orch_start nodes) = Break s) \<or>
      (\<exists>e s. orch_loop args nodes (now + 180000) turns (orch_start nodes) = Stop (OrchErr e) s)" for nodes
    using orch_loop_deadline [OF assms, of args nodes "orch_start nodes"]
      orchestrator_loop [of args nodes turns "now + 180000"]
    by (cases "orch_loop args nodes (now + 180000) turns (orch_start nodes)")
      (auto simp: orch_end_def split: orch_stop.splits)
  note loop = this
  show ?thesis
  proof (cases "orch_setup c tm keys spawns args h")
    case (Inr nodes)
    with loop [of nodes] show ?thesis by (auto simp: run_orchestrator_def)
  qed (simp add: run_orchestrator_def)
qed

lemma summary_dirs:
  "or_bundle_dirs (orch_summary parse h args nodes) = map (\<lambda>n. path_join (oa_artifacts args) (ns_alias n)) nodes"
  by (simp add: orch_summary_def Let_def)

text \<open>A pending restart is given up when the other children are gone first.\<close>

definition two_specs :: "node_spec list" where
  "two_specs = map (\<lambda>i. \<lparr>ns_alias = node_alias_at i, ns_node_id_hex = [], ns_bind = [],
     ns_pubkey = [], ns_secret = []\<rparr>) [0, 1]"

definition failing_args :: orch_args where
  "failing_args = \<lparr>oa_topology = [], oa_private_intents = [], oa_scenario = None, oa_artifacts = [],
     oa_base_port = 9000, oa_fail_at_round = Some 1, oa_rejoin_after_ms = Some 1000,
     oa_fail_target = None, oa_max_rounds = 3, oa_run_id = [], oa_poll_timeout_ms = 10,
     oa_binary = None\<rparr>"

definition turn_at :: "nat \<Rightarrow> orch_event \<Rightarrow> orch_turn" where
  "turn_at now e = \<lparr>ot_deadline_now = now, ot_rejoin_now = now, ot_kill_now = now,
     ot_spawn_error = None, ot_event = e\<rparr>"

lemma two_specs_eq: "two_specs =
    [\<lparr>ns_alias = ''n1'', ns_node_id_hex = [], ns_bind = [], ns_pubkey = [], ns_secret = []\<rparr>,
     \<lparr>ns_alias = ''n2'', ns_node_id_hex = [], ns_bind = [], ns_pubkey = [], ns_secret = []\<rparr>]"
proof -
  have "node_alias_at 0 = ''n1''" "node_alias_at 1 = ''n2''"
    by code_simp+
  then show ?thesis by (simp add: two_specs_def)
qed

lemma pending_restart_lost:
  "\<exists>s. orch_loop failing_args two_specs 180000
         [turn_at 100 (RoundCommitted ''n2'' 1), turn_at 600 (RecvTimeout (\<lambda>_. Some 0))]
         (orch_start two_specs) = Break s \<and>
       os_actions s = [Killed ''n2''] \<and> os_rejoin_at s = Some 1100"
  by (simp add: two_specs_eq orch_start_def orch_step_def rejoin_step_def event_step_def kill_step_def
      fail_target_alias_def turn_at_def failing_args_def bt_contains_def bt_get_def bt_keys_def
      remove_child_def Let_def less_list_code)

end
