(* ===== verification/Debug_Text.thy ===== *)
theory Debug_Text
  imports Redaction Intents
begin

text \<open>
  The hand-written \<open>Debug\<close> implementations of \<open>keys.rs\<close>, \<open>commitments.rs\<close> and
  \<open>private_intent.rs\<close>, in the one-line form of \<open>{:?}\<close>: what may end up in a panic message or a
  log line.
\<close>

section \<open>The standard library's forms\<close>

text \<open>
  \<open>str\<close>: the escapes of the characters below; the other characters Rust escapes do not occur in
  a tag that \<open>parse_shape\<close> accepted.
\<close>

definition debug_char :: "char \<Rightarrow> string" where
  "debug_char ch =
     (if ch = double_quote then [CHR 0x5C, double_quote]
      else if ch = CHR 0x5C then [CHR 0x5C, CHR 0x5C]
      else if ch = CHR 0x09 then [CHR 0x5C, CHR ''t'']
      else if ch = CHR 0x0A then [CHR 0x5C, CHR ''n'']
      else if ch = CHR 0x0D then [CHR 0x5C, CHR ''r'']
      else if ch = CHR 0x00 then [CHR 0x5C, CHR ''0'']
      else [ch])"

definition debug_str :: "string \<Rightarrow> string" where
  "debug_str s = double_quote # concat (map debug_char s) @ [double_quote]"

fun commas :: "string list \<Rightarrow> string" where
  "commas [] = []"
| "commas [s] = s"
| "commas (s # t # ss) = s @ '', '' @ commas (t # ss)"

definition debug_list :: "('a \<Rightarrow> string) \<Rightarrow> 'a list \<Rightarrow> string" where
  "debug_list f xs = ''['' @ commas (map f xs) @ '']''"

definition debug_option :: "('a \<Rightarrow> string) \<Rightarrow> 'a option \<Rightarrow> string" where
  "debug_option f x = (case x of None \<Rightarrow> ''None'' | Some v \<Rightarrow> ''Some('' @ f v @ '')'')"

definition debug_struct :: "string \<Rightarrow> (string \<times> string) list \<Rightarrow> string" where
  "debug_struct name kvs =
     name @ '' { '' @ commas (map (\<lambda>(k, v). k @ '': '' @ v) kvs) @ '' }''"

section \<open>The program's types\<close>

definition tag_debug :: "capability_tag \<Rightarrow> string" where
  "tag_debug t = ''CapabilityTag('' @ debug_str (tag_str t) @ '')''"

definition node_id_debug :: "crates \<Rightarrow> node_id \<Rightarrow> string" where
  "node_id_debug c n = (let h = to_hex c n in ''NodeId('' @ take (min 8 (length h)) h @ ellipsis @ '')'')"

definition commitment_bytes_debug :: "crates \<Rightarrow> bytes \<Rightarrow> string" where
  "commitment_bytes_debug c bs =
     (let h = hex_encode c bs in ''CommitmentBytes('' @ take (min 8 (length h)) h @ ellipsis @ '')'')"

definition seed_debug :: "signing_secret_seed \<Rightarrow> string" where
  "seed_debug seed = ''SigningSecretSeed([REDACTED])''"

definition requester_intent_debug :: "crates \<Rightarrow> private_requester_intent \<Rightarrow> string" where
  "requester_intent_debug c i =
     debug_struct ''PrivateRequesterIntent''
       [(''node_id'', node_id_debug c (pri_node_id i)),
        (''required_capability'', tag_debug (pri_required_capability i)),
        (''budget_cents'', secret_debug (pri_budget_cents i)),
        (''signing_secret_key'', debug_option secret_debug (pri_signing_secret_key i))]"

definition provider_intent_debug :: "crates \<Rightarrow> private_provider_intent \<Rightarrow> string" where
  "provider_intent_debug c i =
     debug_struct ''PrivateProviderIntent''
       [(''node_id'', node_id_debug c (ppi_node_id i)),
        (''capability_claims'', debug_list tag_debug (ppi_capability_claims i)),
        (''reservation_cents'', secret_debug (ppi_reservation_cents i)),
        (''signing_secret_key'', debug_option secret_debug (ppi_signing_secret_key i))]"

text \<open>Only the presence of a signing key shows.\<close>

lemma intent_debug_public:
  "pri_node_id i = pri_node_id i' \<Longrightarrow> pri_required_capability i = pri_required_capability i' \<Longrightarrow>
     (pri_signing_secret_key i = None) = (pri_signing_secret_key i' = None) \<Longrightarrow>
     requester_intent_debug c i = requester_intent_debug c i'"
  "ppi_node_id p = ppi_node_id p' \<Longrightarrow> ppi_capability_claims p = ppi_capability_claims p' \<Longrightarrow>
     (ppi_signing_secret_key p = None) = (ppi_signing_secret_key p' = None) \<Longrightarrow>
     provider_intent_debug c p = provider_intent_debug c p'"
  by (auto simp: requester_intent_debug_def provider_intent_debug_def debug_option_def
      secret_debug_def split: option.split)

lemma intent_debug_sample:
  "requester_intent_debug c (requester_with_signing (requester_intent_new n cap budget) seed) =
     ''PrivateRequesterIntent { node_id: '' @ node_id_debug c n @
     '', required_capability: '' @ tag_debug cap @
     '', budget_cents: Secret([REDACTED]), signing_secret_key: Some(Secret([REDACTED])) }''"
  by (simp add: requester_intent_debug_def requester_with_signing_def requester_intent_new_def
      debug_struct_def debug_option_def secret_debug_def)

end
