(* ===== verification/Error_Text.thy ===== *)
theory Error_Text
  imports Private_Intents Debug_Text
begin

text \<open>
  The \<open>Display\<close> texts of the error types: the \<open>#[error(...)]\<close> formats and the messages the
  constructors are given. They are what a failed command prints.
\<close>

text \<open>
  Two texts are not the program's: the \<open>hex\<close> crate's error, and the escaped form of a character
  (as its UTF-8 bytes) in \<open>{:?}\<close>.
\<close>

record texts =
  tx_hex_error :: string
  tx_char_debug :: "string \<Rightarrow> string"

section \<open>The core's errors\<close>

definition show_word :: "'w::len word \<Rightarrow> string" where
  "show_word w = show_nat (unat w)"

fun key_fault_text :: "texts \<Rightarrow> key_fault \<Rightarrow> string" where
  "key_fault_text tx KeyEmpty = ''empty''"
| "key_fault_text tx (KeyLength n) = ''expected 64 hex chars, got '' @ show_nat n"
| "key_fault_text tx KeyNotLowerHex = ''must be lowercase hex with no prefix''"
| "key_fault_text tx KeyDecode = tx_hex_error tx"

text \<open>The first character of a string, as its bytes.\<close>

definition first_char :: "string \<Rightarrow> string" where
  "first_char s = (case s of [] \<Rightarrow> [] | ch # s \<Rightarrow> ch # takeWhile is_continuation_byte s)"

fun tag_fault_text :: "texts \<Rightarrow> tag_fault \<Rightarrow> string" where
  "tag_fault_text tx TagEmpty = ''empty''"
| "tag_fault_text tx (TagBadStart raw) = ''must start with uppercase letter: '' @ raw"
| "tag_fault_text tx (TagBadChar ch raw) =
     ''contains invalid character '' @ tx_char_debug tx (first_char (dropWhile tag_char_ok (tl raw))) @
     '' in '' @ raw"

fun topology_fault_text :: "topology_fault \<Rightarrow> string" where
  "topology_fault_text (UnsupportedVersion v) = ''unsupported topology version '' @ show_word v"
| "topology_fault_text EmptyTagSet = ''capability tag set must not be empty''"
| "topology_fault_text EmptyNodes = ''nodes list must not be empty''"
| "topology_fault_text ProviderDeclaresRequirement = ''provider must not declare required_capability''"
| "topology_fault_text EmptyClaims = ''provider capability_claims must not be empty''"
| "topology_fault_text RequesterDeclaresClaims = ''requester must not declare capability_claims''"
| "topology_fault_text (BadSigningPublicKey h) = ''invalid signing_public_key for node '' @ h"
| "topology_fault_text (RequesterCount n) = ''exactly one requester required, found '' @ show_nat n"
| "topology_fault_text (UnsupportedScenarioVersion v) = ''unsupported scenario version '' @ show_word v"

definition parent_segments :: string where
  "parent_segments = ''path must not contain '' @ [single_quote] @ ''..'' @ [single_quote] @ '' segments''"

text \<open>\<open>what\<close> is the prefix of the path message: empty for the topology, \<open>scenario\<close> for a scenario.\<close>

fun config_error_text :: "texts \<Rightarrow> string \<Rightarrow> config_error \<Rightarrow> string" where
  "config_error_text tx what (InvalidTopology f) = ''topology config is invalid: '' @ topology_fault_text f"
| "config_error_text tx what (UnknownCapabilityTag t) = ''unknown capability tag: '' @ t"
| "config_error_text tx what (MalformedCapabilityTag f) =
     ''capability tag is malformed: '' @ tag_fault_text tx f"
| "config_error_text tx what (MissingField k) = ''missing required field: '' @ k"
| "config_error_text tx what (InvalidStableKey f) = ''invalid stable public key: '' @ key_fault_text tx f"
| "config_error_text tx what EmptyProviderList = ''provider list must not be empty''"
| "config_error_text tx what (DuplicateNodeId h) = ''duplicate node identifier: '' @ h"
| "config_error_text tx what UnsafePath = ''unsafe config path: '' @ what @ parent_segments"
| "config_error_text tx what (ConfigIo e) = ''failed to read config file: '' @ e"
| "config_error_text tx what (ConfigParse e) = ''failed to parse TOML: '' @ e"

fun artifact_error_text :: "artifact_error \<Rightarrow> string" where
  "artifact_error_text (InvalidOutputPath p) = ''artifact output path is invalid: '' @ p"
| "artifact_error_text (DirectoryNotEmpty d) = ''artifact directory already contains a run: '' @ d"
| "artifact_error_text (DuplicateCommitmentEntry r) =
     ''duplicate commitment entry for node in round '' @ show_u64 r"
| "artifact_error_text (ArtifactIo e) = ''io error writing artifact: '' @ e"
| "artifact_error_text (Serialization e) = ''serialization error: '' @ e"

fun sign_error_text :: "sign_error \<Rightarrow> string" where
  "sign_error_text MalformedPublicKey = ''malformed ed25519 public key''"
| "sign_error_text MalformedSecretKey = ''malformed ed25519 secret seed''"
| "sign_error_text MalformedSignature = ''signature bytes are not valid hex or wrong length''"
| "sign_error_text BadSignature = ''ed25519 signature verification failed''"

fun commitment_error_text :: "commitment_error \<Rightarrow> string" where
  "commitment_error_text (InvalidField k) = ''commitment helper received invalid field: '' @ k"
| "commitment_error_text (CapabilityTooLong actual limit) =
     ''capability tag byte length '' @ show_nat actual @ '' exceeds MAX_CAPABILITY_BYTES='' @ show_nat limit"
| "commitment_error_text (TooManyClaims actual limit) =
     ''provider claim count '' @ show_nat actual @ '' exceeds MAX_CAPABILITY_CLAIMS='' @ show_nat limit"

fun proposer_error_text :: "proposer_error \<Rightarrow> string" where
  "proposer_error_text NoProvidersGiven = ''provider list must not be empty''"
| "proposer_error_text (DuplicateInput h) = ''duplicate provider key in proposer input: '' @ h"

text \<open>The derived \<open>Debug\<close> of a denial is its name.\<close>

fun denial_debug :: "predicate_denial \<Rightarrow> string" where
  "denial_debug WrongRequesterRole = ''WrongRequesterRole''"
| "denial_debug WrongProviderRole = ''WrongProviderRole''"
| "denial_debug RequesterRoundMismatch = ''RequesterRoundMismatch''"
| "denial_debug ProviderRoundMismatch = ''ProviderRoundMismatch''"
| "denial_debug RequesterProviderRoundMismatch = ''RequesterProviderRoundMismatch''"
| "denial_debug ProviderLacksCapability = ''ProviderLacksCapability''"
| "denial_debug RequesterIdentityMismatch = ''RequesterIdentityMismatch''"
| "denial_debug ProviderIdentityMismatch = ''ProviderIdentityMismatch''"
| "denial_debug CapabilityAnnotationMismatch = ''CapabilityAnnotationMismatch''"

fun round_error_text :: "round_error \<Rightarrow> string" where
  "round_error_text (RoundMismatch expected actual) =
     ''record round '' @ show_u64 actual @ '' does not match active round '' @ show_u64 expected"
| "round_error_text (DuplicateCommitment r) = ''duplicate commitment for node in round '' @ show_u64 r"
| "round_error_text ReplayDetected = ''replay detected: commitment hex already seen in a prior round''"
| "round_error_text UnknownNode = ''commitment from unknown node id''"
| "round_error_text RoleMismatch = ''commitment role does not match topology configuration''"
| "round_error_text BackwardTransition = ''backward round transition is not permitted''"
| "round_error_text (ProposerError e) = ''proposer error: '' @ proposer_error_text e"
| "round_error_text WrongProposer = ''wrong proposer for round''"
| "round_error_text UnknownRequesterCommitment =
     ''proposal references a requester with no accepted commitment''"
| "round_error_text UnknownProviderCommitment =
     ''proposal references a provider with no accepted commitment''"
| "round_error_text (TamperedProposal d) = ''proposal annotation is tampered: '' @ denial_debug d"
| "round_error_text AlreadyFinalized = ''round has already been finalized''"

fun runtime_error_text :: "runtime_error \<Rightarrow> string" where
  "runtime_error_text NoRequester = ''topology must contain exactly one requester''"
| "runtime_error_text NoProviders = ''no providers configured''"
| "runtime_error_text (MissingPrivateIntent h) = ''missing private intent for node '' @ h"
| "runtime_error_text (RoundErr e) = ''round state machine error: '' @ round_error_text e"
| "runtime_error_text (ProposerErr e) = ''proposer rotation error: '' @ proposer_error_text e"
| "runtime_error_text (CommitmentErr e) = ''commitment helper rejected input: '' @ commitment_error_text e"
| "runtime_error_text (ExceededMaxRounds n) =
     ''exceeded max rounds ('' @ show_u64 n @ '') without finalizing or verifiably aborting''"
| "runtime_error_text (TransportErr Closed) = ''transport error: transport closed''"

section \<open>The loader's errors\<close>

fun private_intent_error_text :: "private_intent_error \<Rightarrow> string" where
  "private_intent_error_text PiUnsafePath =
     ''unsafe private-intent path: private-intent '' @ parent_segments"
| "private_intent_error_text (PiIo e) = ''io error reading private-intent file: '' @ e"
| "private_intent_error_text (PiParse e) = ''failed to parse private-intent TOML: '' @ e"
| "private_intent_error_text (PiUnsupportedVersion v) = ''unsupported private-intent version: '' @ show_word v"
| "private_intent_error_text (PiInvalidNodeId s) = ''invalid node id in private-intent entry: '' @ s"
| "private_intent_error_text (PiUnknownNodeId h) = ''unknown node id in private-intent entry: '' @ h"
| "private_intent_error_text (PiDuplicateEntry h) =
     ''duplicate private-intent entry for node id: '' @ h"
| "private_intent_error_text (PiRoleMismatch h) =
     ''private-intent role does not match topology role for node id: '' @ h"
| "private_intent_error_text (PiMissingCapability h) = ''missing capability field for node id: '' @ h"
| "private_intent_error_text (PiBadCapability h) =
     ''unknown or malformed capability tag for node id: '' @ h"
| "private_intent_error_text (PiMissingWitness h role_name) =
     ''missing witness field for node id: '' @ h @ '' (role '' @ role_name @ '')''"
| "private_intent_error_text (PiMissingAgent h) =
     ''topology has a node with no private-intent entry: '' @ h"
| "private_intent_error_text (PiBadSigningKey h) =
     ''invalid ed25519 signing_secret_key for node id: '' @ h"
| "private_intent_error_text (PiSigningKeyMismatch h) =
     ''signing_secret_key for node id '' @ h @ '' does not match topology signing_public_key''"

text \<open>
  The parser's message reaches the user between its two redactions. If no quote is left after the
  first, every line of it without a pipe is echoed.
\<close>

lemma join_with_mem: "x \<in> set xs \<Longrightarrow> \<exists>p s. join_with sep xs = p @ x @ s"
proof (induction sep xs rule: join_with.induct)
  case (2 sep y)
  then show ?case by (intro exI [of _ "[]"]) simp
next
  case (3 sep y z ys)
  show ?case
  proof (cases "x = y")
    case True
    then show ?thesis by (intro exI [of _ "[]"] exI [of _ "sep @ join_with sep (z # ys)"]) simp
  next
    case False
    then obtain p s where "join_with sep (z # ys) = p @ x @ s" using 3 by auto
    then show ?thesis by (intro exI [of _ "y @ sep @ p"] exI [of _ s]) simp
  qed
qed simp

lemma parse_error_keeps_line:
  assumes "l \<in> set (str_lines raw)" "CHR ''|'' \<notin> set l" "trim l \<noteq> []"
    and "double_quote \<notin> set (parse_redact raw)" "single_quote \<notin> set (parse_redact raw)"
  shows "\<exists>p s. private_intent_error_text (redact_parse_error raw) = p @ trim l @ s"
proof -
  have "\<exists>p s. parse_redact raw = p @ trim l @ s"
    unfolding parse_redact_def using assms(1-3) by (intro join_with_mem) simp
  then obtain p s where p: "parse_redact raw = p @ trim l @ s" by blast
  have "redact_quoted (parse_redact raw) = parse_redact raw"
    using redact_quoted_plain [OF assms(4,5), of "[]"] by simp
  also note p
  finally show ?thesis
    by (intro exI [of _ "''failed to parse private-intent TOML: '' @ p"] exI [of _ s])
      (simp add: redact_parse_error_def)
qed

end
