(* ===== verification/Serde_Records.thy ===== *)
theory Serde_Records
  imports Serde_Value Error_Text
begin

text \<open>
  The serialized form of the public records: the hand-written implementations of \<open>keys.rs\<close>,
  \<open>config.rs\<close> and \<open>private_intent.rs\<close>, and the derived ones of \<open>shared_types.rs\<close>,
  \<open>artifacts.rs\<close> and \<open>runtime.rs\<close> as their attributes describe them. A node id reads back
  only with its 32 bytes, which the Rust type guarantees and \<open>*_ids_wf\<close> states here.
\<close>

section \<open>Node ids, tags and keys\<close>

definition node_ser :: "crates \<Rightarrow> node_id \<Rightarrow> jvalue" where
  "node_ser c n = JString (to_hex c n)"

definition node_de :: "crates \<Rightarrow> texts \<Rightarrow> jvalue \<Rightarrow> de_fault + node_id" where
  "node_de c tx v =
     and_then (de_string v) (\<lambda>s. map_sum (\<lambda>e. CustomFault (config_error_text tx [] e)) id (node_from_str c s))"

text \<open>A tag is written and read as it is: reading does not check its shape.\<close>

definition tag_ser :: "capability_tag \<Rightarrow> jvalue" where
  "tag_ser t = JString (tag_str t)"

definition tag_de :: "jvalue \<Rightarrow> de_fault + capability_tag" where
  "tag_de v = map_sum id CapabilityTag (de_string v)"

definition pubkey_ser :: "crates \<Rightarrow> signing_public_key \<Rightarrow> jvalue" where
  "pubkey_ser c pk = JString (pk_to_hex c pk)"

definition secret_ser :: "'a secret \<Rightarrow> jvalue" where
  "secret_ser s = JString (secret_serialize s)"

definition secret_de :: "(jvalue \<Rightarrow> de_fault + 'a) \<Rightarrow> jvalue \<Rightarrow> de_fault + 'a secret" where
  "secret_de de v = map_sum id Secret (de v)"

interpretation node_json: json_codec "node_ser c" "node_de c tx" "\<lambda>n. hex_ok c \<and> node_wf n" for c tx
  by unfold_locales (auto simp: node_ser_def node_de_def de_string_def node_hex.parse_render)

interpretation tag_json: json_codec tag_ser tag_de "\<lambda>_. True"
  by unfold_locales (simp_all add: tag_ser_def tag_de_def de_string_def)

section \<open>Public intents\<close>

definition intent_ser :: "crates \<Rightarrow> public_intent \<Rightarrow> jvalue" where
  "intent_ser c i =
     (case i of
        PubRequester n r t \<Rightarrow>
          ser_tagged ''role'' ''requester'' 
            [(''node_id'', node_ser c n), (''round'', ser_word r), (''required_capability'', tag_ser t)]
      | PubProvider n r ts \<Rightarrow>
          ser_tagged ''role'' ''provider'' 
            [(''node_id'', node_ser c n), (''round'', ser_word r),
             (''capability_claims'', ser_list tag_ser ts)])"

definition intent_de :: "crates \<Rightarrow> texts \<Rightarrow> jvalue \<Rightarrow> de_fault + public_intent" where
  "intent_de c tx v =
     and_then (de_tagged ''role'' v) (\<lambda>(variant, body).
     if variant = ''requester'' then
       and_then (de_struct [''node_id'', ''round'', ''required_capability''] body) (\<lambda>m.
       and_then (de_field m ''node_id'' (node_de c tx)) (\<lambda>n.
       and_then (de_field m ''round'' de_word) (\<lambda>r.
       and_then (de_field m ''required_capability'' tag_de) (\<lambda>t.
       Inr (PubRequester n r t)))))
     else if variant = ''provider'' then
       and_then (de_struct [''node_id'', ''round'', ''capability_claims''] body) (\<lambda>m.
       and_then (de_field m ''node_id'' (node_de c tx)) (\<lambda>n.
       and_then (de_field m ''round'' de_word) (\<lambda>r.
       and_then (de_field m ''capability_claims'' (de_list tag_de)) (\<lambda>ts.
       Inr (PubProvider n r ts)))))
     else Inl (UnknownVariant variant))"

lemma intent_de_ser:
  assumes "hex_ok c" "node_wf (intent_node i)"
  shows "intent_de c tx (intent_ser c i) = Inr i"
  using assms
  by (cases i) (simp_all add: intent_ser_def intent_de_def de_field_def node_json.de_ser u64_json.de_ser
      tag_json.de_ser tag_json.de_ser_list)

interpretation intent_json: json_codec "intent_ser c" "intent_de c tx"
    "\<lambda>i. hex_ok c \<and> node_wf (intent_node i)" for c tx
proof
  fix i
  show "writable (intent_ser c i)" "intent_ser c i \<noteq> JNull"
    by (cases i; simp add: intent_ser_def ser_tagged_def node_json.ser_writable u64_json.ser_writable
        tag_json.ser_writable tag_json.ser_list_writable)+
qed (simp add: intent_de_ser)

section \<open>The records of a log\<close>

definition commitment_fields :: "crates \<Rightarrow> commitment_record \<Rightarrow> (string \<times> jvalue) list" where
  "commitment_fields c r =
     [(''node_id'', node_ser c (cr_node_id r)), (''round'', ser_word (cr_round r)),
      (''commitment_hex'', JString (cr_commitment_hex r)),
      (''public_intent'', intent_ser c (cr_public_intent r))]"

definition commitment_de :: "crates \<Rightarrow> texts \<Rightarrow> jvalue \<Rightarrow> de_fault + commitment_record" where
  "commitment_de c tx v =
     and_then (de_struct [''node_id'', ''round'', ''commitment_hex'', ''public_intent''] v) (\<lambda>m.
     and_then (de_field m ''node_id'' (node_de c tx)) (\<lambda>n.
     and_then (de_field m ''round'' de_word) (\<lambda>r.
     and_then (de_field m ''commitment_hex'' de_string) (\<lambda>h.
     and_then (de_field m ''public_intent'' (intent_de c tx)) (\<lambda>i.
     Inr \<lparr>cr_node_id = n, cr_round = r, cr_commitment_hex = h, cr_public_intent = i\<rparr>)))))"

definition proposal_fields :: "crates \<Rightarrow> proposal_record \<Rightarrow> (string \<times> jvalue) list" where
  "proposal_fields c p =
     [(''proposer'', node_ser c (pr_proposer p)), (''round'', ser_word (pr_round p)),
      (''candidate_requester'', node_ser c (pr_candidate_requester p)),
      (''candidate_provider'', node_ser c (pr_candidate_provider p)),
      (''matched_capability'', tag_ser (pr_matched_capability p))]"

definition proposal_de :: "crates \<Rightarrow> texts \<Rightarrow> jvalue \<Rightarrow> de_fault + proposal_record" where
  "proposal_de c tx v =
     and_then (de_struct [''proposer'', ''round'', ''candidate_requester'', ''candidate_provider'',
       ''matched_capability''] v) (\<lambda>m.
     and_then (de_field m ''proposer'' (node_de c tx)) (\<lambda>n.
     and_then (de_field m ''round'' de_word) (\<lambda>r.
     and_then (de_field m ''candidate_requester'' (node_de c tx)) (\<lambda>q.
     and_then (de_field m ''candidate_provider'' (node_de c tx)) (\<lambda>p.
     and_then (de_field m ''matched_capability'' tag_de) (\<lambda>t.
     Inr \<lparr>pr_proposer = n, pr_round = r, pr_candidate_requester = q, pr_candidate_provider = p,
          pr_matched_capability = t\<rparr>))))))"

definition proof_fields :: "crates \<Rightarrow> proof_artifact_record \<Rightarrow> (string \<times> jvalue) list" where
  "proof_fields c p =
     [(''node_id'', node_ser c (pf_node_id p)), (''round'', ser_word (pf_round p)),
      (''public_inputs_hex'', JString (pf_public_inputs_hex p)), (''proof_hex'', JString (pf_proof_hex p))]"

definition proof_de :: "crates \<Rightarrow> texts \<Rightarrow> jvalue \<Rightarrow> de_fault + proof_artifact_record" where
  "proof_de c tx v =
     and_then (de_struct [''node_id'', ''round'', ''public_inputs_hex'', ''proof_hex''] v) (\<lambda>m.
     and_then (de_field m ''node_id'' (node_de c tx)) (\<lambda>n.
     and_then (de_field m ''round'' de_word) (\<lambda>r.
     and_then (de_field m ''public_inputs_hex'' de_string) (\<lambda>i.
     and_then (de_field m ''proof_hex'' de_string) (\<lambda>p.
     Inr \<lparr>pf_node_id = n, pf_round = r, pf_public_inputs_hex = i, pf_proof_hex = p\<rparr>)))))"

definition receipt_fields :: "crates \<Rightarrow> completion_receipt_record \<Rightarrow> (string \<times> jvalue) list" where
  "receipt_fields c r =
     [(''provider'', node_ser c (rc_provider r)), (''round'', ser_word (rc_round r)),
      (''signature_hex'', JString (rc_signature_hex r))]"

definition receipt_de :: "crates \<Rightarrow> texts \<Rightarrow> jvalue \<Rightarrow> de_fault + completion_receipt_record" where
  "receipt_de c tx v =
     and_then (de_struct [''provider'', ''round'', ''signature_hex''] v) (\<lambda>m.
     and_then (de_field m ''provider'' (node_de c tx)) (\<lambda>n.
     and_then (de_field m ''round'' de_word) (\<lambda>r.
     and_then (de_field m ''signature_hex'' de_string) (\<lambda>s.
     Inr \<lparr>rc_provider = n, rc_round = r, rc_signature_hex = s\<rparr>))))"

definition rejection_fields :: "crates \<Rightarrow> rejection_record \<Rightarrow> (string \<times> jvalue) list" where
  "rejection_fields c r =
     [(''round'', ser_word (rj_round r)), (''node_id'', node_ser c (rj_node_id r)),
      (''kind'', JString (rj_kind r)), (''reason_code'', JString (rj_reason_code r))]"

definition rejection_de :: "crates \<Rightarrow> texts \<Rightarrow> jvalue \<Rightarrow> de_fault + rejection_record" where
  "rejection_de c tx v =
     and_then (de_struct [''round'', ''node_id'', ''kind'', ''reason_code''] v) (\<lambda>m.
     and_then (de_field m ''round'' de_word) (\<lambda>r.
     and_then (de_field m ''node_id'' (node_de c tx)) (\<lambda>n.
     and_then (de_field m ''kind'' de_string) (\<lambda>k.
     and_then (de_field m ''reason_code'' de_string) (\<lambda>s.
     Inr \<lparr>rj_round = r, rj_node_id = n, rj_kind = k, rj_reason_code = s\<rparr>)))))"

lemmas record_fields_defs =
  commitment_fields_def proposal_fields_def proof_fields_def receipt_fields_def rejection_fields_def

lemmas leaf_de_ser =
  node_json.de_ser tag_json.de_ser u64_json.de_ser u32_json.de_ser string_json.de_ser bool_json.de_ser
  intent_json.de_ser

lemmas leaf_writable =
  node_json.ser_writable tag_json.ser_writable u64_json.ser_writable u32_json.ser_writable
  string_json.ser_writable bool_json.ser_writable intent_json.ser_writable

interpretation commitment_json: json_codec "\<lambda>r. JObject (commitment_fields c r)" "commitment_de c tx"
    "\<lambda>r. hex_ok c \<and> commitment_ids_wf r" for c tx
  by unfold_locales
    (simp_all add: commitment_fields_def commitment_de_def de_field_def leaf_de_ser leaf_writable
      commitment_ids_wf_def)

interpretation proposal_json: json_codec "\<lambda>p. JObject (proposal_fields c p)" "proposal_de c tx"
    "\<lambda>p. hex_ok c \<and> proposal_ids_wf p" for c tx
  by unfold_locales
    (simp_all add: proposal_fields_def proposal_de_def de_field_def leaf_de_ser leaf_writable
      proposal_ids_wf_def)

interpretation proof_json: json_codec "\<lambda>p. JObject (proof_fields c p)" "proof_de c tx"
    "\<lambda>p. hex_ok c \<and> node_wf (pf_node_id p)" for c tx
  by unfold_locales
    (simp_all add: proof_fields_def proof_de_def de_field_def leaf_de_ser leaf_writable)

interpretation receipt_json: json_codec "\<lambda>r. JObject (receipt_fields c r)" "receipt_de c tx"
    "\<lambda>r. hex_ok c \<and> node_wf (rc_provider r)" for c tx
  by unfold_locales
    (simp_all add: receipt_fields_def receipt_de_def de_field_def leaf_de_ser leaf_writable)

interpretation rejection_json: json_codec "\<lambda>r. JObject (rejection_fields c r)" "rejection_de c tx"
    "\<lambda>r. hex_ok c \<and> node_wf (rj_node_id r)" for c tx
  by unfold_locales
    (simp_all add: rejection_fields_def rejection_de_def de_field_def leaf_de_ser leaf_writable)

end
