(* ===== verification/Serde_Log.thy ===== *)
theory Serde_Log
  imports Serde_Records Artifact_Writer Log_Ids
begin

text \<open>
  The serialized coordination log, the messages on the wire, and the other JSON files of a bundle,
  on top of a text format: \<open>to_text\<close> and \<open>from_text\<close> are \<open>serde_json\<close>'s printer and parser
  of values. \<open>serde_json\<close> is the instance of the parameter \<open>json\<close> of the commands they give.
\<close>

section \<open>Messages\<close>

definition payload_ser :: "crates \<Rightarrow> message_payload \<Rightarrow> jvalue" where
  "payload_ser c p =
     (case p of
        PCommitment r \<Rightarrow> ser_tagged ''type'' ''commitment'' (commitment_fields c r)
      | PProposal r \<Rightarrow> ser_tagged ''type'' ''proposal'' (proposal_fields c r)
      | PProof r \<Rightarrow> ser_tagged ''type'' ''proof'' (proof_fields c r)
      | PReceipt r \<Rightarrow> ser_tagged ''type'' ''receipt'' (receipt_fields c r))"

definition payload_de :: "crates \<Rightarrow> texts \<Rightarrow> jvalue \<Rightarrow> de_fault + message_payload" where
  "payload_de c tx v =
     and_then (de_tagged ''type'' v) (\<lambda>(variant, body).
     if variant = ''commitment'' then map_sum id PCommitment (commitment_de c tx body)
     else if variant = ''proposal'' then map_sum id PProposal (proposal_de c tx body)
     else if variant = ''proof'' then map_sum id PProof (proof_de c tx body)
     else if variant = ''receipt'' then map_sum id PReceipt (receipt_de c tx body)
     else Inl (UnknownVariant variant))"

definition message_ser :: "crates \<Rightarrow> coordination_message \<Rightarrow> jvalue" where
  "message_ser c m =
     JObject [(''origin'', node_ser c (msg_origin m)), (''payload'', payload_ser c (msg_payload m))]"

definition message_de :: "crates \<Rightarrow> texts \<Rightarrow> jvalue \<Rightarrow> de_fault + coordination_message" where
  "message_de c tx v =
     and_then (de_struct [''origin'', ''payload''] v) (\<lambda>m.
     and_then (de_field m ''origin'' (node_de c tx)) (\<lambda>n.
     and_then (de_field m ''payload'' (payload_de c tx)) (\<lambda>p.
     Inr \<lparr>msg_origin = n, msg_payload = p\<rparr>)))"

fun payload_ids_wf :: "message_payload \<Rightarrow> bool" where
  "payload_ids_wf (PCommitment r) = commitment_ids_wf r"
| "payload_ids_wf (PProposal p) = proposal_ids_wf p"
| "payload_ids_wf (PProof p) = node_wf (pf_node_id p)"
| "payload_ids_wf (PReceipt r) = node_wf (rc_provider r)"

definition message_ids_wf :: "coordination_message \<Rightarrow> bool" where
  "message_ids_wf m \<longleftrightarrow> node_wf (msg_origin m) \<and> payload_ids_wf (msg_payload m)"

lemma payload_de_ser:
  assumes "hex_ok c" "payload_ids_wf p"
  shows "payload_de c tx (payload_ser c p) = Inr p"
proof -
  have "''type'' \<notin> fst ` set (commitment_fields c r1)" "''type'' \<notin> fst ` set (proposal_fields c r2)"
    "''type'' \<notin> fst ` set (proof_fields c r3)" "''type'' \<notin> fst ` set (receipt_fields c r4)" for r1 r2 r3 r4
    by (simp_all add: record_fields_defs)
  with assms show ?thesis
    by (cases p) (simp_all add: payload_ser_def payload_de_def commitment_json.de_ser
        proposal_json.de_ser proof_json.de_ser receipt_json.de_ser)
qed

interpretation message_json: json_codec "message_ser c" "message_de c tx"
    "\<lambda>m. hex_ok c \<and> message_ids_wf m" for c tx
proof
  fix m
  have "payload_ser c p \<noteq> JNull \<and> writable (payload_ser c p)" for p
    by (cases p) (simp_all add: payload_ser_def ser_tagged_def record_fields_defs leaf_writable)
  then show "writable (message_ser c m)"
    by (simp add: message_ser_def leaf_writable)
qed (simp_all add: message_ser_def message_de_def de_field_def message_ids_wf_def leaf_de_ser payload_de_ser)

section \<open>The coordination log\<close>

definition log_fields :: "crates \<Rightarrow> coordination_log \<Rightarrow> (string \<times> jvalue) list" where
  "log_fields c l =
     [(''run_id'', JString (log_run_id l)), (''schema_version'', ser_word (log_schema_version l)),
      (''commitments'', ser_list (\<lambda>r. JObject (commitment_fields c r)) (log_commitments l)),
      (''proposals'', ser_list (\<lambda>p. JObject (proposal_fields c p)) (log_proposals l)),
      (''proofs'', ser_list (\<lambda>p. JObject (proof_fields c p)) (log_proofs l)),
      (''receipts'', ser_list (\<lambda>r. JObject (receipt_fields c r)) (log_receipts l)),
      (''rejections'', ser_list (\<lambda>r. JObject (rejection_fields c r)) (log_rejections l)),
      (''final_round'', ser_word (log_final_round l)), (''finalized'', JBool (log_finalized l))] @
     ser_some ''abort_reason'' JString (log_abort_reason l)"

definition log_de :: "crates \<Rightarrow> texts \<Rightarrow> jvalue \<Rightarrow> de_fault + coordination_log" where
  "log_de c tx v =
     and_then (de_struct [''run_id'', ''schema_version'', ''commitments'', ''proposals'', ''proofs'',
       ''receipts'', ''rejections'', ''final_round'', ''finalized'', ''abort_reason''] v) (\<lambda>m.
     and_then (de_field m ''run_id'' de_string) (\<lambda>i.
     and_then (de_field m ''schema_version'' de_word) (\<lambda>sv.
     and_then (de_field m ''commitments'' (de_list (commitment_de c tx))) (\<lambda>cs.
     and_then (de_field m ''proposals'' (de_list (proposal_de c tx))) (\<lambda>ps.
     and_then (de_field m ''proofs'' (de_list (proof_de c tx))) (\<lambda>qs.
     and_then (de_field m ''receipts'' (de_list (receipt_de c tx))) (\<lambda>rs.
     and_then (de_default m ''rejections'' [] (de_list (rejection_de c tx))) (\<lambda>js.
     and_then (de_default m ''final_round'' 0 de_word) (\<lambda>r.
     and_then (de_default m ''finalized'' False de_bool) (\<lambda>f.
     and_then (de_default m ''abort_reason'' None (de_option de_string)) (\<lambda>a.
     Inr \<lparr>log_run_id = i, log_schema_version = sv, log_commitments = cs, log_proposals = ps,
          log_proofs = qs, log_receipts = rs, log_rejections = js, log_final_round = r,
          log_finalized = f, log_abort_reason = a, log_commitment_keys = {}\<rparr>)))))))))))"

lemma log_fields_distinct: "distinct (map fst (log_fields c l))"
  by (simp add: log_fields_def ser_some_def split: option.split)

lemma log_fields_get:
  "map_of (log_fields c l) ''run_id'' = Some (JString (log_run_id l))"
  "map_of (log_fields c l) ''schema_version'' = Some (ser_word (log_schema_version l))"
  "map_of (log_fields c l) ''commitments'' =
     Some (ser_list (\<lambda>r. JObject (commitment_fields c r)) (log_commitments l))"
  "map_of (log_fields c l) ''proposals'' =
     Some (ser_list (\<lambda>p. JObject (proposal_fields c p)) (log_proposals l))"
  "map_of (log_fields c l) ''proofs'' = Some (ser_list (\<lambda>p. JObject (proof_fields c p)) (log_proofs l))"
  "map_of (log_fields c l) ''receipts'' = Some (ser_list (\<lambda>r. JObject (receipt_fields c r)) (log_receipts l))"
  "map_of (log_fields c l) ''rejections'' =
     Some (ser_list (\<lambda>r. JObject (rejection_fields c r)) (log_rejections l))"
  "map_of (log_fields c l) ''final_round'' = Some (ser_word (log_final_round l))"
  "map_of (log_fields c l) ''finalized'' = Some (JBool (log_finalized l))"
  "map_of (log_fields c l) ''abort_reason'' =
     map_of (ser_some ''abort_reason'' JString (log_abort_reason l)) ''abort_reason''"
  by (simp_all add: log_fields_def)

lemma log_de_ser:
  assumes "hex_ok c" "log_ids_wf l"
  shows "log_de c tx (JObject (log_fields c l)) = Inr (l\<lparr>log_commitment_keys := {}\<rparr>)"
proof -
  have "pred_option (\<lambda>_. True) (log_abort_reason l)" by (cases "log_abort_reason l") simp_all
  then have "de_default (map_of (log_fields c l)) ''abort_reason'' None (de_option de_string) =
      Inr (log_abort_reason l)"
    using string_json.de_ser_option [of "log_abort_reason l" "''abort_reason''"]
    by (simp add: de_default_def log_fields_get)
  moreover have
    "de_list (commitment_de c tx) (ser_list (\<lambda>r. JObject (commitment_fields c r)) (log_commitments l)) =
       Inr (log_commitments l)"
    "de_list (proposal_de c tx) (ser_list (\<lambda>p. JObject (proposal_fields c p)) (log_proposals l)) =
       Inr (log_proposals l)"
    "de_list (proof_de c tx) (ser_list (\<lambda>p. JObject (proof_fields c p)) (log_proofs l)) =
       Inr (log_proofs l)"
    "de_list (receipt_de c tx) (ser_list (\<lambda>r. JObject (receipt_fields c r)) (log_receipts l)) =
       Inr (log_receipts l)"
    "de_list (rejection_de c tx) (ser_list (\<lambda>r. JObject (rejection_fields c r)) (log_rejections l)) =
       Inr (log_rejections l)"
    using assms
    by (auto simp: log_ids_wf_def intro!: commitment_json.de_ser_list proposal_json.de_ser_list
        proof_json.de_ser_list receipt_json.de_ser_list rejection_json.de_ser_list)
  ultimately show ?thesis
    by (simp add: log_de_def log_fields_distinct de_field_def log_fields_get
        string_json.de_ser u32_json.de_ser)
      (simp add: de_default_def log_fields_get u64_json.de_ser bool_json.de_ser)
qed

lemma log_writable: "writable (JObject (log_fields c l))"
proof -
  have "\<forall>kv \<in> set (log_fields c l). writable (snd kv)"
    by (auto simp: log_fields_def ser_some_def leaf_writable commitment_json.ser_list_writable
        proposal_json.ser_list_writable proof_json.ser_list_writable receipt_json.ser_list_writable
        rejection_json.ser_list_writable simp del: writable.simps split: option.splits)
  then show ?thesis by (simp add: log_fields_distinct)
qed

text \<open>
  A log of the first schema, which ends with the receipts, reads as a log without rejections that
  did not finalize.
\<close>

definition legacy_log_fields :: "crates \<Rightarrow> coordination_log \<Rightarrow> (string \<times> jvalue) list" where
  "legacy_log_fields c l = take 6 (log_fields c l)"

lemma legacy_log_reads:
  assumes "hex_ok c" "log_ids_wf l"
  shows "log_de c tx (JObject (legacy_log_fields c l)) =
    Inr (l\<lparr>log_rejections := [], log_final_round := 0, log_finalized := False, log_abort_reason := None,
           log_commitment_keys := {}\<rparr>)"
proof -
  have fields: "legacy_log_fields c l =
     [(''run_id'', JString (log_run_id l)), (''schema_version'', ser_word (log_schema_version l)),
      (''commitments'', ser_list (\<lambda>r. JObject (commitment_fields c r)) (log_commitments l)),
      (''proposals'', ser_list (\<lambda>p. JObject (proposal_fields c p)) (log_proposals l)),
      (''proofs'', ser_list (\<lambda>p. JObject (proof_fields c p)) (log_proofs l)),
      (''receipts'', ser_list (\<lambda>r. JObject (receipt_fields c r)) (log_receipts l))]"
    by (simp add: legacy_log_fields_def log_fields_def)
  show ?thesis
    using assms
    by (simp add: log_de_def fields de_field_def de_default_def string_json.de_ser u32_json.de_ser
        log_ids_wf_def commitment_json.de_ser_list proposal_json.de_ser_list proof_json.de_ser_list
        receipt_json.de_ser_list)
qed

section \<open>Reports and status\<close>

definition report_fields :: "verifier_report \<Rightarrow> (string \<times> jvalue) list" where
  "report_fields r =
     [(''run_id'', JString (vr_run_id r)), (''valid'', JBool (vr_valid r)),
      (''final_round'', ser_word (vr_final_round r)), (''reasons'', ser_list JString (vr_reasons r))]"

text \<open>The rejection count is a \<open>usize\<close>.\<close>

definition status_fields :: "run_status \<Rightarrow> (string \<times> jvalue) list" where
  "status_fields st =
     [(''run_id'', JString (st_run_id st)), (''finalized'', JBool (st_finalized st)),
      (''final_round'', ser_word (st_final_round st)), (''receipt_present'', JBool (st_receipt_present st))] @
     ser_some ''abort_reason'' JString (st_abort_reason st) @
     [(''rejection_count'', ser_word (word_of_nat (st_rejection_count st) :: u64)),
      (''bundle_files'', ser_list JString (st_bundle_files st))]"

lemma status_writable: "writable (JObject (status_fields st))"
proof -
  have "\<forall>kv \<in> set (status_fields st). writable (snd kv)"
    by (auto simp: status_fields_def ser_some_def leaf_writable string_json.ser_list_writable
        simp del: writable.simps split: option.splits)
  moreover have "distinct (map fst (status_fields st))"
    by (simp add: status_fields_def ser_some_def split: option.split)
  ultimately show ?thesis by simp
qed

lemma status_get:
  "jget ''finalized'' (JObject (status_fields st)) = Some (JBool (st_finalized st))"
  "jget ''abort_reason'' (JObject (status_fields st)) = map_option JString (st_abort_reason st)"
  by (simp_all add: status_fields_def ser_some_def split: option.split)

section \<open>The text format\<close>

record json_text =
  jt_print :: "jvalue \<Rightarrow> string"
  jt_parse :: "string \<Rightarrow> string + jvalue"

text \<open>\<open>serde_json\<close> reads back the values it has printed; an object's text starts with its brace.\<close>

definition json_text_ok :: "json_text \<Rightarrow> bool" where
  "json_text_ok t \<longleftrightarrow> (\<forall>v. writable v \<longrightarrow> jt_parse t (jt_print t v) = Inr v) \<and>
     (\<forall>kvs. \<exists>rest. jt_print t (JObject kvs) = CHR ''{'' # rest)"

definition read_value :: "json_text \<Rightarrow> string \<Rightarrow> jvalue option" where
  "read_value t s = (case jt_parse t s of Inl _ \<Rightarrow> None | Inr v \<Rightarrow> Some v)"

text \<open>\<open>show\<close> is the text of a deserialization error.\<close>

definition serde_json :: "crates \<Rightarrow> texts \<Rightarrow> (de_fault \<Rightarrow> string) \<Rightarrow> json_text \<Rightarrow> json" where
  "serde_json c tx de_text t =
     \<lparr>json_log = (\<lambda>l. Inr (jt_print t (JObject (log_fields c l)))),
      json_log_parse = (\<lambda>s. and_then (jt_parse t s) (\<lambda>v. map_sum de_text id (log_de c tx v))),
      json_report = (\<lambda>r. Inr (jt_print t (JObject (report_fields r)))),
      json_status = (\<lambda>st. Inr (jt_print t (JObject (status_fields st)))),
      json_receipt = (\<lambda>r. Inr (jt_print t (JObject (receipt_fields c r))))\<rparr>"

text \<open>\<open>to_vec\<close> and \<open>from_slice\<close> on the wire.\<close>

definition bytes_str :: "bytes \<Rightarrow> string" where
  "bytes_str bs = map (\<lambda>b. char_of (unat b)) bs"

lemma bytes_str_of [simp]: "bytes_str (str_bytes s) = s"
  by (induction s) (simp_all add: bytes_str_def str_bytes_def unat_of_nat take_bit_eq_mod [symmetric])

definition wire_to_vec :: "crates \<Rightarrow> json_text \<Rightarrow> coordination_message \<Rightarrow> bytes option" where
  "wire_to_vec c t m = Some (str_bytes (jt_print t (message_ser c m)))"

definition wire_from_slice :: "crates \<Rightarrow> texts \<Rightarrow> json_text \<Rightarrow> bytes \<Rightarrow> coordination_message option" where
  "wire_from_slice c tx t bs =
     (case jt_parse t (bytes_str bs) of
        Inl _ \<Rightarrow> None
      | Inr v \<Rightarrow> (case message_de c tx v of Inl _ \<Rightarrow> None | Inr m \<Rightarrow> Some m))"

text \<open>It meets the contract the commands rely on.\<close>

lemma serde_json_ok:
  assumes "json_text_ok t" "hex_ok c"
  shows "json_ok (serde_json c tx de_text t)" "json_writes (serde_json c tx de_text t)"
proof -
  show "json_writes (serde_json c tx de_text t)" by (simp add: json_writes_def serde_json_def)
  then show "json_ok (serde_json c tx de_text t)"
    using assms log_writable [of c]
    by (simp add: json_ok_def serde_json_def json_text_ok_def log_de_ser del: writable.simps)
qed

lemma serde_log_reads_back:
  assumes "json_text_ok t" "hex_ok c" "log_ids_wf l"
  shows "and_then (json_log (serde_json c tx de_text t) l) (json_log_parse (serde_json c tx de_text t)) =
    Inr (l\<lparr>log_commitment_keys := {}\<rparr>)"
  using assms log_writable [of c l]
  by (simp add: serde_json_def json_text_ok_def log_de_ser del: writable.simps)

lemma serde_legacy_log_reads:
  assumes "json_text_ok t" "hex_ok c" "log_ids_wf l"
  shows "json_log_parse (serde_json c tx de_text t) (jt_print t (JObject (legacy_log_fields c l))) =
    Inr (l\<lparr>log_rejections := [], log_final_round := 0, log_finalized := False, log_abort_reason := None,
           log_commitment_keys := {}\<rparr>)"
proof -
  have "writable (JObject (legacy_log_fields c l))"
    using log_writable [of c l]
    by (auto simp: legacy_log_fields_def take_map [symmetric] distinct_take dest: in_set_takeD
        simp del: writable.simps simp add: writable.simps(4))
  with assms show ?thesis
    by (simp add: serde_json_def json_text_ok_def legacy_log_reads del: writable.simps)
qed

text \<open>Whatever is received as a message has a well-formed origin.\<close>

lemma wire_origin_wf:
  assumes "hex_ok c" "wire_from_slice c tx t bs = Some m"
  shows "origin_wf m"
proof -
  obtain v where v: "message_de c tx v = Inr m"
    using assms(2) by (auto simp: wire_from_slice_def split: sum.splits)
  have "node_wf n" if "node_de c tx x = Inr n" for x n
    using that node_hex.parse_wf [OF assms(1)]
    by (auto simp: node_de_def de_string_def map_sum_def split: jvalue.splits sum.splits)
  with v show ?thesis
    by (auto simp: message_de_def de_field_def origin_wf_def split: option.splits sum.splits)
qed

lemma serde_message_reads_back:
  assumes "json_text_ok t" "hex_ok c" "message_ids_wf m"
  shows "\<exists>p rest. wire_to_vec c t m = Some p \<and> wire_from_slice c tx t p = Some m \<and> p = 0x7b # rest"
proof -
  obtain rest where "jt_print t (message_ser c m) = CHR ''{'' # rest"
    using assms(1) by (auto simp: json_text_ok_def message_ser_def)
  then have "str_bytes (jt_print t (message_ser c m)) = 0x7b # str_bytes rest"
    by (simp add: str_bytes_def)
  moreover have "wire_from_slice c tx t (str_bytes (jt_print t (message_ser c m))) = Some m"
    using assms message_json.ser_writable [of c m] message_json.de_ser [of c m tx]
    by (simp add: wire_from_slice_def json_text_ok_def del: writable.simps)
  ultimately show ?thesis by (simp add: wire_to_vec_def)
qed

end
