(* ===== verification/Bundle_Status.thy ===== *)
theory Bundle_Status
  imports Orchestrator Serde_Log
begin

text \<open>
  The status file between the process that writes it (a node, \<open>persist_node_bundle\<close>) and the one
  that reads it (the orchestrator's summary, through \<open>serde_json::Value\<close>).
\<close>

text \<open>The status file of a bundle directory.\<close>

definition status_at :: "json_text \<Rightarrow> fs \<Rightarrow> string \<Rightarrow> run_status \<Rightarrow> bool" where
  "status_at t h dir st \<longleftrightarrow>
     fs_read_to_string h (path_join dir ''run_status.json'') = Inr (jt_print t (JObject (status_fields st)))"

lemma status_at_reads:
  assumes "json_text_ok t" "status_at t h dir st"
  shows "status_finalized (read_value t) h dir = st_finalized st"
    "status_aborted (read_value t) h dir \<longleftrightarrow> st_abort_reason st \<noteq> None"
proof -
  have "read_status (read_value t) h dir = Some (JObject (status_fields st))"
    using assms status_writable [of st]
    by (simp add: read_status_def status_at_def read_value_def json_text_ok_def del: writable.simps)
  then show "status_finalized (read_value t) h dir = st_finalized st"
    "status_aborted (read_value t) h dir \<longleftrightarrow> st_abort_reason st \<noteq> None"
    by (auto simp: status_finalized_def status_aborted_def status_get split: option.split
        simp del: jget.simps)
qed

lemma persist_status:
  assumes "persist_node_bundle c (serde_json c' tx de_text t) bundle_dir tcfg topo scn alias out h = (Inr report, h')"
  shows "\<exists>files. status_at t h' bundle_dir (run_status_of out files)"
proof -
  obtain files s where "fs_lookup h' (fs_key h' bundle_dir @ [''run_status.json'']) = Some (FFile s)"
    "json_status (serde_json c' tx de_text t) (run_status_of out files) = Inr s"
    using persist_written(4) [OF assms] by blast
  moreover have "path_join bundle_dir ''run_status.json'' \<noteq> []" by (simp add: path_join_def)
  ultimately show ?thesis
    by (intro exI [of _ files]) (simp add: status_at_def fs_read_to_string_def serde_json_def)
qed

text \<open>What the orchestrator reads of a node's bundle is what the node's session ended with.\<close>

lemma session_status:
  assumes "json_text_ok t"
    and "node_session c (serde_json c' tx de_text t) to_vec args job idx tr h = (Inr (res, tr'), h')"
  shows "status_finalized (read_value t) h' (nr_artifacts_dir res) = nr_finalized res"
    "status_aborted (read_value t) h' (nr_artifacts_dir res) \<longleftrightarrow> nr_abort_reason res \<noteq> None"
proof -
  from assms(2) obtain out where
    "persist_node_bundle c (serde_json c' tx de_text t) (nr_artifacts_dir res) (nj_topology job)
      (nj_topology_text job) (nj_scenario_text job) (nj_alias job) out h = (Inr (nr_report res), h')"
    and res: "nr_finalized res = ro_finalized out" "nr_abort_reason res = log_abort_reason (ro_log out)"
    by (auto simp: node_session_def Let_def)
  from persist_status [OF this(1)] obtain files where
    "status_at t h' (nr_artifacts_dir res) (run_status_of out files)" by blast
  from status_at_reads [OF assms(1) this]
  show "status_finalized (read_value t) h' (nr_artifacts_dir res) = nr_finalized res"
    "status_aborted (read_value t) h' (nr_artifacts_dir res) \<longleftrightarrow> nr_abort_reason res \<noteq> None"
    by (simp_all add: run_status_of_def res)
qed

text \<open>The summary counts the statuses of the bundle directories.\<close>

lemma summary_counts:
  assumes "json_text_ok t"
    and "list_all2 (\<lambda>n st. status_at t h (path_join (oa_artifacts args) (ns_alias n)) st) nodes sts"
  shows "or_children_finalized (orch_summary (read_value t) h args nodes) = length (filter st_finalized sts)"
    "or_children_aborted (orch_summary (read_value t) h args nodes) =
       length (filter (\<lambda>st. st_abort_reason st \<noteq> None) sts)"
  using assms(2)
  by (induction rule: list_all2_induct)
    (auto simp: orch_summary_def Let_def status_at_reads [OF assms(1)])

end
