(* ===== verification/Sample_Json.thy ===== *)
theory Sample_Json
  imports Bundle_Status Samples
begin

text \<open>
  A concrete text of values, as an instance of \<open>json_text_ok\<close>, built from readers and writers that
  compose, each reading back its own output in front of any rest: a letter for the kind of value in
  front of its content. It is not JSON; nothing about the program is proved from it.
\<close>

type_synonym 'a codec = "('a \<Rightarrow> string) \<times> (string \<Rightarrow> ('a \<times> string) option)"

definition reads_back :: "'a codec \<Rightarrow> bool" where
  "reads_back cd \<longleftrightarrow> (\<forall>x s. snd cd (fst cd x @ s) = Some (x, s))"

definition char_codec :: "char codec" where
  "char_codec = (\<lambda>ch. [ch], \<lambda>s. case s of [] \<Rightarrow> None | ch # s \<Rightarrow> Some (ch, s))"

definition word_codec :: "'w::len word codec" where
  "word_codec =
     (\<lambda>w. show_nat (unat w) @ '','',
      \<lambda>s. map_option (\<lambda>n. (word_of_nat n, drop 1 (dropWhile (\<lambda>ch. ch \<noteq> CHR '','') s)))
            (parse_digits (2 ^ LENGTH('w)) 0 (takeWhile (\<lambda>ch. ch \<noteq> CHR '','') s)))"

fun read_many :: "nat \<Rightarrow> (string \<Rightarrow> ('a \<times> string) option) \<Rightarrow> string \<Rightarrow> ('a list \<times> string) option" where
  "read_many 0 rd s = None"
| "read_many (Suc n) rd s =
     (case s of
        [] \<Rightarrow> None
      | ch # s \<Rightarrow>
          if ch = CHR '']'' then Some ([], s)
          else Option.bind (rd s) (\<lambda>(x, s). Option.bind (read_many n rd s) (\<lambda>(xs, s). Some (x # xs, s))))"

definition list_codec :: "'a codec \<Rightarrow> 'a list codec" where
  "list_codec cd =
     (\<lambda>xs. concat (map (\<lambda>x. CHR ''['' # fst cd x) xs) @ '']'', \<lambda>s. read_many (Suc (length s)) (snd cd) s)"

lemma char_reads_back: "reads_back char_codec"
  by (simp add: reads_back_def char_codec_def)

lemma word_reads_back: "reads_back (word_codec :: 'w::len word codec)"
proof -
  have "CHR '','' \<notin> set (show_nat n)" for n
    by (rule digits_no [OF show_nat_digits]) (simp add: digit_value_def)
  then have "takeWhile (\<lambda>ch. ch \<noteq> CHR '','') (show_nat n @ CHR '','' # s) = show_nat n"
    "dropWhile (\<lambda>ch. ch \<noteq> CHR '','') (show_nat n @ CHR '','' # s) = CHR '','' # s" for n s
    by (auto simp: takeWhile_append takeWhile_eq_all_conv dropWhile_append)
  moreover have "unat w < 2 ^ LENGTH('w)" for w :: "'w word" by (rule unsigned_less)
  ultimately show ?thesis
    by (simp add: reads_back_def word_codec_def parse_digits_show)
qed

lemma list_reads_back: "reads_back cd \<Longrightarrow> reads_back (list_codec cd)"
proof -
  assume cd: "reads_back cd"
  have "read_many n (snd cd) (concat (map (\<lambda>x. CHR ''['' # fst cd x) xs) @ CHR '']'' # s) = Some (xs, s)"
    if "length xs < n" for n xs s
    using that cd
  proof (induction xs arbitrary: n)
    case Nil
    then show ?case by (cases n) auto
  next
    case (Cons x xs)
    then show ?case by (cases n) (auto simp: reads_back_def)
  qed
  note many = this
  have "length xs \<le> length (concat (map (\<lambda>x. CHR ''['' # fst cd x) xs))" for xs
    by (induction xs) auto
  then have "length xs < Suc (Suc (length (concat (map (\<lambda>x. CHR ''['' # fst cd x) xs)) + length s))"
    for xs and s :: string
    by (meson le_imp_less_Suc less_SucI trans_le_add1)
  from many [OF this] show ?thesis
    by (simp add: reads_back_def list_codec_def del: read_many.simps)
qed

definition string_codec :: "string codec" where
  "string_codec = list_codec char_codec"

lemma string_reads_back: "reads_back string_codec"
  unfolding string_codec_def by (intro list_reads_back char_reads_back)

section \<open>Values\<close>

fun value_print :: "jvalue \<Rightarrow> string" where
  "value_print JNull = ''n''"
| "value_print (JBool b) = (if b then ''t'' else ''f'')"
| "value_print (JInt i) = (if i < 0 then CHR ''-'' else CHR ''+'') # fst word_codec (word_of_int \<bar>i\<bar> :: u64)"
| "value_print (JFloat s) = ''n''"
| "value_print (JString s) = CHR ''s'' # fst string_codec s"
| "value_print (JArray vs) = CHR ''a'' # concat (map (\<lambda>v. CHR ''['' # value_print v) vs) @ '']''"
| "value_print (JObject kvs) = CHR ''{'' #
     concat (map (\<lambda>kv. CHR ''['' # (fst string_codec (fst kv) @ value_print (snd kv))) kvs) @ '']''"

primrec value_parse :: "nat \<Rightarrow> string \<Rightarrow> (jvalue \<times> string) option" where
  "value_parse 0 s = None"
| "value_parse (Suc n) s =
     (case s of
        [] \<Rightarrow> None
      | ch # s \<Rightarrow>
          if ch = CHR ''n'' then Some (JNull, s)
          else if ch = CHR ''t'' then Some (JBool True, s)
          else if ch = CHR ''f'' then Some (JBool False, s)
          else if ch = CHR ''+'' then map_option (\<lambda>(w :: u64, s). (JInt (uint w), s)) (snd word_codec s)
          else if ch = CHR ''-'' then map_option (\<lambda>(w :: u64, s). (JInt (- uint w), s)) (snd word_codec s)
          else if ch = CHR ''s'' then map_option (\<lambda>(x, s). (JString x, s)) (snd string_codec s)
          else if ch = CHR ''a''
          then map_option (\<lambda>(vs, s). (JArray vs, s)) (read_many (Suc (length s)) (value_parse n) s)
          else if ch = CHR ''{''
          then map_option (\<lambda>(kvs, s). (JObject kvs, s))
            (read_many (Suc (length s))
              (\<lambda>s. Option.bind (snd string_codec s) (\<lambda>(k, s).
                map_option (\<lambda>(v, s). ((k, v), s)) (value_parse n s))) s)
          else None)"

lemma read_many_items:
  assumes "\<And>x s. x \<in> set xs \<Longrightarrow> rd (pr x @ s) = Some (x, s)" "length xs < n"
  shows "read_many n rd (concat (map (\<lambda>x. CHR ''['' # pr x) xs) @ CHR '']'' # s) = Some (xs, s)"
  using assms
proof (induction xs arbitrary: n)
  case Nil
  then show ?case by (cases n) auto
next
  case (Cons x xs)
  then show ?case by (cases n) auto
qed

lemma items_length:
  "length xs \<le> length (concat (map (\<lambda>x. CHR ''['' # pr x) xs))"
  "x \<in> set xs \<Longrightarrow> length (pr x) < length (concat (map (\<lambda>x. CHR ''['' # pr x) xs))"
  by (induction xs) auto

lemma read_many_enough:
  assumes "\<And>x s. x \<in> set xs \<Longrightarrow> rd (pr x @ s) = Some (x, s)"
  shows "read_many (Suc (length (concat (map (\<lambda>x. CHR ''['' # pr x) xs) @ CHR '']'' # s))) rd
      (concat (map (\<lambda>x. CHR ''['' # pr x) xs) @ CHR '']'' # s) = Some (xs, s)"
  by (intro read_many_items assms le_imp_less_Suc order_trans [OF items_length(1) [of xs pr]]) simp_all

lemma value_reads_back:
  "writable v \<Longrightarrow> length (value_print v) \<le> n \<Longrightarrow> value_parse n (value_print v @ s) = Some (v, s)"
proof (induction v arbitrary: n s)
  case (JInt i)
  obtain m where n: "n = Suc m" using JInt.prems(2) by (cases n) simp_all
  have "\<bar>i\<bar> < 2 ^ 64" using JInt.prems(1) by auto
  then have u: "uint (word_of_int \<bar>i\<bar> :: u64) = \<bar>i\<bar>" by (simp add: uint_word_of_int)
  have "i < 0 \<Longrightarrow> uint (- word_of_int i :: u64) = - i" "\<not> i < 0 \<Longrightarrow> uint (word_of_int i :: u64) = i"
    using u by (auto simp: abs_if split: if_splits)
  moreover
  have "snd word_codec (fst word_codec (w :: u64) @ s) = Some (w, s)" for w
    using word_reads_back unfolding reads_back_def by blast
  ultimately show ?case by (simp add: n)
next
  case (JString x)
  then show ?case using string_reads_back by (cases n) (simp_all add: reads_back_def)
next
  case (JArray vs)
  obtain m where n: "n = Suc m" using JArray.prems(2) by (cases n) simp_all
  have rd: "value_parse m (value_print v @ s) = Some (v, s)" if "v \<in> set vs" for v s
    using that JArray.prems items_length(2) [OF that, of value_print]
    by (intro JArray.IH) (auto simp: n)
  show ?case using read_many_enough [OF rd, of vs] by (simp add: n del: read_many.simps)
next
  case (JObject kvs)
  obtain m where n: "n = Suc m" using JObject.prems(2) by (cases n) simp_all
  define pr where "pr = (\<lambda>kv. fst string_codec (fst kv) @ value_print (snd kv))"
  define rd where "rd = (\<lambda>s. Option.bind (snd string_codec s) (\<lambda>(k, s).
      map_option (\<lambda>(v, s). ((k, v), s)) (value_parse m s)))"
  have str: "snd string_codec (fst string_codec k @ s) = Some (k, s)" for k s
    using string_reads_back unfolding reads_back_def by blast
  have "rd (pr kv @ s) = Some (kv, s)" if kv: "kv \<in> set kvs" for kv s
  proof -
    have "snd kv \<in> Basic_BNFs.snds kv" by (cases kv) simp
    moreover have "length (value_print (snd kv)) \<le> m"
      using JObject.prems(2) items_length(2) [OF kv, of pr] by (simp add: n pr_def)
    moreover have "writable (snd kv)" using JObject.prems(1) kv by simp
    ultimately have "value_parse m (value_print (snd kv) @ s) = Some (snd kv, s)"
      using JObject.IH [OF kv] by blast
    then show ?thesis by (simp add: rd_def pr_def str)
  qed
  from read_many_enough [OF this, of kvs] show ?case by (simp add: n pr_def rd_def del: read_many.simps)
next
  case JNull
  then show ?case by (cases n) simp_all
next
  case (JBool b)
  then show ?case by (cases n; cases b) simp_all
qed simp

definition sample_text :: json_text where
  "sample_text = \<lparr>jt_print = value_print,
     jt_parse = (\<lambda>s. case value_parse (length s) s of Some (v, []) \<Rightarrow> Inr v | _ \<Rightarrow> Inl ''bad'')\<rparr>"

lemma sample_text_ok: "json_text_ok sample_text"
  using value_reads_back [of _ _ "[]"] by (simp add: json_text_ok_def sample_text_def)

text \<open>The sample's serializer: the program's, on that text.\<close>

definition sample_texts :: texts where
  "sample_texts = \<lparr>tx_hex_error = ''bad hex'', tx_char_debug = (\<lambda>s. s)\<rparr>"

definition sample_json :: json where
  "sample_json = serde_json sample_crates sample_texts (\<lambda>_. ''bad'') sample_text"

lemma sample_json_ok: "json_ok sample_json"
  unfolding sample_json_def by (intro serde_json_ok sample_text_ok sample_crates_parts)

end
