(* ===== verification/Noir_Circuit.thy ===== *)
theory Noir_Circuit
  imports Commitments
begin

unbundle bit_operations_syntax

text \<open>
  The Noir circuits (\<open>circuits/shared\<close>, \<open>circuits/requester\<close>, \<open>circuits/provider\<close>): the
  preimage builders with their loops over a 264-byte buffer, and the two \<open>main\<close> functions
  as the conjunction of their assertions. The layout lemmas show the circuits rebuild the
  bytes of \<open>commitments.rs\<close>. A Noir array \<open>[T; n]\<close> is a list of length \<open>n\<close>; Noir's
  \<open>std::hash::blake2s\<close> is the parameter \<open>blake\<close>.
\<close>

section \<open>The shared library\<close>

definition noir_domain_requester :: bytes where
  "noir_domain_requester =
     [0x76, 0x65, 0x72, 0x74, 0x65, 0x78, 0x2d, 0x76, 0x65, 0x69, 0x6c, 0x2f, 0x76, 0x31,
      0x2f, 0x63, 0x6f, 0x6d, 0x6d, 0x69, 0x74, 0x2d, 0x72, 0x65, 0x71, 0x75, 0x65, 0x73,
      0x74, 0x65, 0x72]"

definition noir_domain_provider :: bytes where
  "noir_domain_provider =
     [0x76, 0x65, 0x72, 0x74, 0x65, 0x78, 0x2d, 0x76, 0x65, 0x69, 0x6c, 0x2f, 0x76, 0x31,
      0x2f, 0x63, 0x6f, 0x6d, 0x6d, 0x69, 0x74, 0x2d, 0x70, 0x72, 0x6f, 0x76, 0x69, 0x64,
      0x65, 0x72]"

definition noir_schema_version :: u8 where
  "noir_schema_version = 1"

definition noir_max_capability_bytes :: u32 where
  "noir_max_capability_bytes = 32"

definition noir_max_capability_claims :: u32 where
  "noir_max_capability_claims = 4"

lemmas noir_consts =
  noir_schema_version_def noir_max_capability_bytes_def noir_max_capability_claims_def

definition noir_write_u64_be :: "bytes \<Rightarrow> nat \<Rightarrow> u64 \<Rightarrow> bytes" where
  "noir_write_u64_be buf pos value =
     buf[pos + 0 := ucast (drop_bit 56 value AND 0xff),
         pos + 1 := ucast (drop_bit 48 value AND 0xff),
         pos + 2 := ucast (drop_bit 40 value AND 0xff),
         pos + 3 := ucast (drop_bit 32 value AND 0xff),
         pos + 4 := ucast (drop_bit 24 value AND 0xff),
         pos + 5 := ucast (drop_bit 16 value AND 0xff),
         pos + 6 := ucast (drop_bit 8 value AND 0xff),
         pos + 7 := ucast (value AND 0xff)]"

definition noir_write_u32_be :: "bytes \<Rightarrow> nat \<Rightarrow> u32 \<Rightarrow> bytes" where
  "noir_write_u32_be buf pos value =
     buf[pos + 0 := ucast (drop_bit 24 value AND 0xff),
         pos + 1 := ucast (drop_bit 16 value AND 0xff),
         pos + 2 := ucast (drop_bit 8 value AND 0xff),
         pos + 3 := ucast (value AND 0xff)]"

text \<open>\<open>for i in 0..n { buf[off + i] = f(i) }\<close>.\<close>

definition noir_for :: "nat \<Rightarrow> nat \<Rightarrow> (nat \<Rightarrow> u8) \<Rightarrow> bytes \<Rightarrow> bytes" where
  "noir_for off n f buf = fold (\<lambda>i b. b[off + i := f i]) [0..<n] buf"

definition noir_requester_preimage ::
  "u64 \<Rightarrow> bytes \<Rightarrow> bytes \<Rightarrow> u32 \<Rightarrow> u64 \<Rightarrow> bytes \<Rightarrow> bytes" where
  "noir_requester_preimage round node_id cap_bytes capability_len budget_cents nonce =
     (let big = replicate 264 0;
          big = noir_write_u32_be big 0 31;
          big = noir_for 4 31 (\<lambda>i. noir_domain_requester ! i) big;
          big = big[35 := noir_schema_version];
          big = noir_write_u64_be big 36 round;
          big = noir_for 44 32 (\<lambda>i. node_id ! i) big;
          big = big[76 := 0];
          big = noir_write_u32_be big 77 capability_len;
          big = noir_for 81 32 (\<lambda>i. cap_bytes ! i) big;
          big = noir_write_u64_be big 113 budget_cents;
          big = noir_for 121 32 (\<lambda>i. nonce ! i) big
      in noir_for 0 153 (\<lambda>i. big ! i) (replicate 153 0))"

text \<open>One turn of the loop over the four claim slots.\<close>

definition noir_write_slot :: "bytes list \<Rightarrow> u32 list \<Rightarrow> u32 \<Rightarrow> nat \<Rightarrow> bytes \<Rightarrow> bytes" where
  "noir_write_slot claim_bytes claim_lens n_claims slot_idx big =
     (let slot_start = 80 + slot_idx * 36;
          active = word_of_nat slot_idx < n_claims;
          len = (if active then claim_lens ! slot_idx else 0);
          big = noir_write_u32_be big slot_start len
      in noir_for (slot_start + 4) 32
           (\<lambda>i. if active then claim_bytes ! slot_idx ! i else 0) big)"

definition noir_provider_preimage ::
  "u64 \<Rightarrow> bytes \<Rightarrow> bytes list \<Rightarrow> u32 list \<Rightarrow> u32 \<Rightarrow> u64 \<Rightarrow> bytes \<Rightarrow> bytes" where
  "noir_provider_preimage round node_id claim_bytes claim_lens n_claims reservation_cents nonce =
     (let big = replicate 264 0;
          big = noir_write_u32_be big 0 30;
          big = noir_for 4 30 (\<lambda>i. noir_domain_provider ! i) big;
          big = big[34 := noir_schema_version];
          big = noir_write_u64_be big 35 round;
          big = noir_for 43 32 (\<lambda>i. node_id ! i) big;
          big = big[75 := 1];
          big = noir_write_u32_be big 76 n_claims;
          big = fold (noir_write_slot claim_bytes claim_lens n_claims) [0..<4] big;
          big = noir_write_u64_be big 224 reservation_cents;
          big = noir_for 232 32 (\<lambda>i. nonce ! i) big
      in big)"

section \<open>The circuits\<close>

definition hash_matches :: "bytes \<Rightarrow> bytes \<Rightarrow> bool" where
  "hash_matches actual commitment_hash \<longleftrightarrow>
     list_all (\<lambda>i. actual ! i = commitment_hash ! i) [0..<32]"

definition requester_main ::
  "(bytes \<Rightarrow> bytes) \<Rightarrow> u64 \<Rightarrow> bytes \<Rightarrow> bytes \<Rightarrow> bytes \<Rightarrow> u32 \<Rightarrow> u64 \<Rightarrow> u64 \<Rightarrow> bytes \<Rightarrow> bool" where
  "requester_main blake round node_id commitment_hash cap_bytes capability_len threshold
     budget_cents nonce \<longleftrightarrow>
     capability_len > 0 \<and> capability_len \<le> noir_max_capability_bytes \<and>
     budget_cents \<ge> threshold \<and>
     hash_matches
       (blake (noir_requester_preimage round node_id cap_bytes capability_len
                 budget_cents nonce))
       commitment_hash"

definition slot_shape :: "u32 list \<Rightarrow> u32 \<Rightarrow> nat \<Rightarrow> bool" where
  "slot_shape claim_lens n_claims i \<longleftrightarrow>
     (let len = claim_lens ! i
      in if word_of_nat i < n_claims then len > 0 \<and> len \<le> noir_max_capability_bytes
         else len = 0)"

definition provider_main ::
  "(bytes \<Rightarrow> bytes) \<Rightarrow> u64 \<Rightarrow> bytes \<Rightarrow> bytes \<Rightarrow> bytes list \<Rightarrow> u32 list \<Rightarrow> u32 \<Rightarrow> u64 \<Rightarrow> u64 \<Rightarrow> bytes \<Rightarrow>
     bool" where
  "provider_main blake round node_id commitment_hash claim_bytes claim_lens n_claims threshold
     reservation_cents nonce \<longleftrightarrow>
     n_claims > 0 \<and> n_claims \<le> noir_max_capability_claims \<and>
     list_all (slot_shape claim_lens n_claims) [0..<4] \<and>
     reservation_cents \<le> threshold \<and>
     hash_matches
       (blake (noir_provider_preimage round node_id claim_bytes claim_lens n_claims
                 reservation_cents nonce))
       commitment_hash"

lemma hash_matches_eq:
  "length a = 32 \<Longrightarrow> length b = 32 \<Longrightarrow> hash_matches a b \<longleftrightarrow> a = b"
  by (auto simp: hash_matches_def list_all_iff list_eq_iff_nth_eq)

section \<open>The buffer writes\<close>

lemma noir_for_splice:
  "off + n \<le> length buf \<Longrightarrow> noir_for off n f buf = take off buf @ map f [0..<n] @ drop (off + n) buf"
proof (induction n)
  case (Suc n)
  then have "noir_for off (Suc n) f buf =
      (take off buf @ map f [0..<n] @ drop (off + n) buf)[off + n := f n]"
    by (simp add: noir_for_def)
  also have "drop (off + n) buf = buf ! (off + n) # drop (Suc (off + n)) buf"
    using Suc.prems by (intro Cons_nth_drop_Suc [symmetric]) simp
  finally show ?case using Suc.prems by (simp add: list_update_append)
qed (simp add: noir_for_def)

lemma noir_for_copy:
  assumes "length src = n" "off + n \<le> length buf"
  shows "noir_for off n (\<lambda>i. src ! i) buf = copy_at off src buf"
proof -
  have "map (\<lambda>i. src ! i) [0..<n] = src" using assms(1) by (auto intro: nth_equalityI)
  with assms show ?thesis by (simp add: noir_for_splice copy_at_def)
qed

lemma low_byte:
  fixes w :: "'a :: len word"
  assumes "8 \<le> LENGTH('a)"
  shows "ucast (drop_bit n w AND mask 8) = (word_of_nat (unat w div 2 ^ n mod 256) :: u8)"
proof -
  have "unat (drop_bit n w AND mask 8) = unat w div 2 ^ n mod 256"
    unfolding take_bit_eq_mask [symmetric] unsigned_take_bit_eq unsigned_drop_bit_eq
    by (simp add: drop_bit_eq_div [where ?'a = nat] take_bit_eq_mod [where ?'a = nat])
  then show ?thesis by (metis of_nat_unat)
qed

text \<open>The byte of \<open>x\<close> at bit \<open>k\<close>.\<close>

definition byte_at :: "nat \<Rightarrow> nat \<Rightarrow> u8" where
  "byte_at x k = word_of_nat (x div 2 ^ k mod 256)"

lemma low_byte_u64:
  "ucast (drop_bit n (v :: u64) AND 0xff) = byte_at (unat v) n"
  "ucast ((v :: u64) AND 0xff) = byte_at (unat v) 0"
  using low_byte [where w = v and n = n] low_byte [where w = v and n = 0]
  by (simp_all add: mask_eq_exp_minus_1 byte_at_def)

lemma low_byte_u32:
  "ucast (drop_bit n (v :: u32) AND 0xff) = byte_at (unat v) n"
  "ucast ((v :: u32) AND 0xff) = byte_at (unat v) 0"
  using low_byte [where w = v and n = n] low_byte [where w = v and n = 0]
  by (simp_all add: mask_eq_exp_minus_1 byte_at_def)

lemma be_enc_map: "be_enc n x = map (\<lambda>i. byte_at x (8 * (n - Suc i))) [0..<n]"
proof (induction n arbitrary: x)
  case (Suc n)
  have "byte_at (x div 256) (8 * (n - Suc i)) = byte_at x (8 * (n - i))" if "i < n" for i
  proof -
    have "8 * (n - i) = 8 + 8 * (n - Suc i)" using that by simp
    then show ?thesis by (simp add: byte_at_def power_add div_mult2_eq)
  qed
  then show ?case by (simp add: Suc.IH byte_at_def [of x 0])
qed simp

lemma upt_4_8: "[0..<4] = [0, 1, 2, 3]" "[0..<8] = [0, 1, 2, 3, 4, 5, 6, 7]"
  by code_simp+

lemma u64_write_for: "noir_write_u64_be buf pos v = noir_for pos 8 (\<lambda>i. u64_be v ! i) buf"
  unfolding noir_write_u64_be_def noir_for_def u64_be_def be_enc_map low_byte_u64(1) upt_4_8
  by (simp add: low_byte_u64(2))

lemma u32_write_for: "noir_write_u32_be buf pos v = noir_for pos 4 (\<lambda>i. u32_be v ! i) buf"
  unfolding noir_write_u32_be_def noir_for_def u32_be_def be_enc_map low_byte_u32(1) upt_4_8
  by (simp add: low_byte_u32(2))

lemma noir_write_u64: "pos + 8 \<le> length buf \<Longrightarrow> noir_write_u64_be buf pos v = copy_at pos (u64_be v) buf"
  by (simp add: u64_write_for noir_for_copy)

lemma noir_write_u32: "pos + 4 \<le> length buf \<Longrightarrow> noir_write_u32_be buf pos v = copy_at pos (u32_be v) buf"
  by (simp add: u32_write_for noir_for_copy)

lemma noir_put: "pos < length buf \<Longrightarrow> buf[pos := b] = copy_at pos [b] buf"
  by (simp add: copy_at_def upd_conv_take_nth_drop)

lemma noir_domains:
  "noir_domain_requester = str_bytes commit_domain_requester"
  "noir_domain_provider = str_bytes commit_domain_provider"
  by (simp_all add: noir_domain_requester_def noir_domain_provider_def commit_domain_requester_def
      commit_domain_provider_def str_bytes_def)

section \<open>The layout they write\<close>

definition noir_requester_layout ::
  "u64 \<Rightarrow> bytes \<Rightarrow> bytes \<Rightarrow> u32 \<Rightarrow> u64 \<Rightarrow> bytes \<Rightarrow> bytes" where
  "noir_requester_layout round node_id cap_bytes capability_len budget nonce =
     u32_be 31 @ str_bytes commit_domain_requester @ [commit_schema_version] @ u64_be round @
     node_id @ [0] @ u32_be capability_len @ cap_bytes @ u64_be budget @ nonce"

lemma length_copy_at: "off + length bs \<le> length buf \<Longrightarrow> length (copy_at off bs buf) = length buf"
  by (simp add: copy_at_def)

lemma noir_requester_preimage_layout:
  assumes "length node_id = 32" "length cap_bytes = 32" "length nonce = 32"
  shows "noir_requester_preimage round node_id cap_bytes capability_len budget nonce =
    noir_requester_layout round node_id cap_bytes capability_len budget nonce"
proof -
  let ?out = "noir_requester_layout round node_id cap_bytes capability_len budget nonce"
  have "copy_at 121 nonce (copy_at 113 (u64_be budget) (copy_at 81 cap_bytes
      (copy_at 77 (u32_be capability_len) (copy_at 76 [0] (copy_at 44 node_id
      (copy_at 36 (u64_be round) (copy_at 35 [noir_schema_version]
      (copy_at 4 noir_domain_requester (copy_at 0 (u32_be 31) ([] @ replicate 264 0)))))))))) =
      ?out @ replicate 111 0"
    using assms unfolding noir_domains
    by (simp add: copy_at_zeros noir_requester_layout_def noir_consts commit_consts
        del: append_assoc append_Nil append.simps)
  then have "noir_requester_preimage round node_id cap_bytes capability_len budget nonce =
      map (\<lambda>i. (?out @ replicate 111 0) ! i) [0..<153]"
    using assms
    by (simp add: noir_requester_preimage_def Let_def noir_write_u32 noir_write_u64 noir_put
        noir_for_copy length_copy_at noir_domains) (simp add: noir_for_splice)
  moreover have "length ?out = 153" using assms by (simp add: noir_requester_layout_def)
  ultimately show ?thesis by (simp add: list_eq_iff_nth_eq nth_append)
qed

text \<open>One slot; an inactive one is all zeros.\<close>

definition noir_slot :: "bytes list \<Rightarrow> u32 list \<Rightarrow> u32 \<Rightarrow> nat \<Rightarrow> bytes" where
  "noir_slot claim_bytes claim_lens n_claims i =
     (if word_of_nat i < n_claims then u32_be (claim_lens ! i) @ claim_bytes ! i
      else replicate 36 0)"

definition noir_provider_layout ::
  "u64 \<Rightarrow> bytes \<Rightarrow> bytes list \<Rightarrow> u32 list \<Rightarrow> u32 \<Rightarrow> u64 \<Rightarrow> bytes \<Rightarrow> bytes" where
  "noir_provider_layout round node_id claim_bytes claim_lens n_claims reservation nonce =
     u32_be 30 @ str_bytes commit_domain_provider @ [commit_schema_version] @ u64_be round @
     node_id @ [1] @ u32_be n_claims @
     concat (map (noir_slot claim_bytes claim_lens n_claims) [0..<4]) @ u64_be reservation @ nonce"

definition slot_array :: "bytes list \<Rightarrow> bool" where
  "slot_array claim_bytes \<longleftrightarrow> length claim_bytes = 4 \<and> (\<forall>b \<in> set claim_bytes. length b = 32)"

lemma slot_array_nth: "slot_array cb \<Longrightarrow> i < 4 \<Longrightarrow> length (cb ! i) = 32"
  by (simp add: slot_array_def)

lemma length_noir_slot: "slot_array cb \<Longrightarrow> i < 4 \<Longrightarrow> length (noir_slot cb cl n i) = 36"
  by (simp add: noir_slot_def slot_array_nth)

lemma length_noir_slots:
  "slot_array cb \<Longrightarrow> k \<le> 4 \<Longrightarrow> length (concat (map (noir_slot cb cl n) [0..<k])) = 36 * k"
  by (induction k) (simp_all add: length_noir_slot)

lemma u32_be_0: "u32_be 0 = replicate 4 0"
  by (intro nth_equalityI) (auto simp: u32_be_def be_enc_map byte_at_def)

lemma noir_write_slot_layout:
  assumes "slot_array cb" "i < 4" "length pre = 80 + 36 * i" "36 \<le> k"
  shows "noir_write_slot cb cl n i (pre @ replicate k 0) = (pre @ noir_slot cb cl n i) @ replicate (k - 36) 0"
proof -
  let ?active = "word_of_nat i < n"
  let ?len = "u32_be (if ?active then cl ! i else 0)"
  let ?bytes = "if ?active then cb ! i else replicate 32 0"
  have "length ?bytes = 32" using assms(1,2) by (simp add: slot_array_nth)
  have "noir_write_slot cb cl n i (pre @ replicate k 0) =
      copy_at (80 + 36 * i + 4) ?bytes (copy_at (80 + 36 * i) ?len (pre @ replicate k 0))"
  proof -
    have "(\<lambda>j. if ?active then cb ! i ! j else 0) j = ?bytes ! j" if "j < 32" for j
      using that by simp
    then have "noir_for off 32 (\<lambda>j. if ?active then cb ! i ! j else 0) buf =
        noir_for off 32 (\<lambda>j. ?bytes ! j) buf" for off buf
      unfolding noir_for_def by (intro fold_cong) auto
    then show ?thesis
      using assms \<open>length ?bytes = 32\<close>
      by (simp add: noir_write_slot_def Let_def noir_write_u32 noir_for_copy length_copy_at
          mult.commute [of i] del: if_split)
  qed
  also have "\<dots> = (pre @ ?len @ ?bytes) @ replicate (k - 36) 0"
    using assms \<open>length ?bytes = 32\<close> copy_at_zeros [of pre "80 + 36 * i" ?len k]
      copy_at_zeros [of "pre @ ?len" "80 + 36 * i + 4" ?bytes "k - 4"]
    by (simp del: if_split)
  also have "?len @ ?bytes = noir_slot cb cl n i"
    by (simp add: noir_slot_def u32_be_0 flip: replicate_add)
  finally show ?thesis by simp
qed

lemma noir_write_slots:
  assumes "slot_array cb" "length pre = 80" "k \<le> 4"
  shows "fold (noir_write_slot cb cl n) [0..<k] (pre @ replicate 184 0) =
    (pre @ concat (map (noir_slot cb cl n) [0..<k])) @ replicate (184 - 36 * k) 0"
  using assms(3)
proof (induction k)
  case (Suc k)
  let ?pre = "pre @ concat (map (noir_slot cb cl n) [0..<k])"
  have "fold (noir_write_slot cb cl n) [0..<Suc k] (pre @ replicate 184 0) =
      noir_write_slot cb cl n k (?pre @ replicate (184 - 36 * k) 0)"
    using Suc by simp
  also have "\<dots> = (?pre @ noir_slot cb cl n k) @ replicate (184 - 36 * k - 36) 0"
    using Suc.prems assms length_noir_slots [OF assms(1), of k]
    by (intro noir_write_slot_layout) auto
  finally show ?case by simp
qed simp

lemma noir_provider_preimage_layout:
  assumes "length node_id = 32" "slot_array cb" "length nonce = 32"
  shows "noir_provider_preimage round node_id cb cl n reservation nonce =
    noir_provider_layout round node_id cb cl n reservation nonce"
proof -
  let ?head = "(((((([] @ u32_be 30) @ str_bytes commit_domain_provider) @
      [commit_schema_version]) @ u64_be round) @ node_id) @ [1]) @ u32_be n"
  let ?slots = "concat (map (noir_slot cb cl n) [0..<4])"
  have slots: "length ?slots = 144" using length_noir_slots [OF assms(2), of 4] by simp
  have head: "copy_at 76 (u32_be n) (copy_at 75 [1] (copy_at 43 node_id
      (copy_at 35 (u64_be round) (copy_at 34 [noir_schema_version]
      (copy_at 4 (str_bytes commit_domain_provider) (copy_at 0 (u32_be 30) ([] @ replicate 264 0))))))) =
      ?head @ replicate 184 0"
    using assms
    by (simp add: copy_at_zeros noir_consts commit_consts del: append_assoc append_Nil append.simps)
  have mid: "fold (noir_write_slot cb cl n) [0..<4] (?head @ replicate 184 0) =
      (?head @ ?slots) @ replicate 40 0"
    using noir_write_slots [OF assms(2), of ?head 4] assms(1) by simp
  have "copy_at 232 nonce (copy_at 224 (u64_be reservation) ((?head @ ?slots) @ replicate 40 0)) =
      (((?head @ ?slots) @ u64_be reservation) @ nonce) @ replicate 0 0"
    using assms slots by (simp add: copy_at_zeros del: append_assoc append_Nil append.simps)
  with head mid show ?thesis
    using assms slots
    by (simp add: noir_provider_preimage_def noir_provider_layout_def Let_def noir_write_u32
        noir_write_u64 noir_put noir_for_copy length_copy_at noir_domains del: upt_Suc)
qed

end
