(* ===== verification/Noir_Bridge.thy ===== *)
theory Noir_Bridge
  imports Noir_Circuit
begin

text \<open>
  The Rust bridge to the circuits (\<open>vertex-veil-noir\<close>): the public inputs computed from a
  private intent, the flattening of public inputs and witness into the ACIR witness map, and
  the execution of a circuit. The \<open>noir_rs\<close> crate is not in the repository: its field
  elements, its executor and its witness serializer are the record \<open>noir_rs\<close>; \<open>acvm_ok\<close>
  states what the bridge relies on, that executing the compiled circuit succeeds exactly when
  the assertions of its \<open>main\<close> hold for the inputs laid out in ABI order.
\<close>

datatype abi_fault = JsonFault string | AbiMismatch string "string list"

datatype noir_bridge_error =
  BridgeIo string
| BridgeParse abi_fault
| EmptyBytecode
| BridgeCommitment commitment_error
| ExecuteFailed string
| BridgeCapabilityTooLong nat nat
| BridgeTooManyClaims nat nat

text \<open>\<open>'j\<close> is \<open>serde_json::Value\<close>.\<close>

record 'j abi_parameter =
  abi_name :: string
  abi_visibility :: string
  abi_ty :: 'j

record 'j circuit_artifact =
  ca_noir_version :: string
  ca_hash :: string
  ca_bytecode :: string
  ca_parameters :: "'j abi_parameter list"

record ('f, 'w) noir_rs =
  nr_field :: "nat \<Rightarrow> 'f"                            \<comment> \<open>\<open>FieldElement::from(u128)\<close>\<close>
  nr_execute :: "string \<Rightarrow> (u32 \<rightharpoonup> 'f) \<Rightarrow> string + 'w"
  nr_serialize :: "'w \<Rightarrow> string + bytes"

definition circuit_from_path ::
  "(string \<Rightarrow> string + string) \<Rightarrow> (string \<Rightarrow> string + 'j circuit_artifact) \<Rightarrow> string \<Rightarrow>
     noir_bridge_error + 'j circuit_artifact" where
  "circuit_from_path read parse path =
     (case read path of
        Inl e \<Rightarrow> Inl (BridgeIo e)
      | Inr text \<Rightarrow>
          (case parse text of
             Inl e \<Rightarrow> Inl (BridgeParse (JsonFault e))
           | Inr art \<Rightarrow> if ca_bytecode art = [] then Inl EmptyBytecode else Inr art))"

definition parameter_names :: "'j circuit_artifact \<Rightarrow> string list" where
  "parameter_names art = map abi_name (ca_parameters art)"

definition execute_circuit ::
  "('f, 'w) noir_rs \<Rightarrow> string \<Rightarrow> (u32 \<rightharpoonup> 'f) \<Rightarrow> noir_bridge_error + unit" where
  "execute_circuit nr bytecode initial_witness =
     (case nr_execute nr bytecode initial_witness of
        Inl e \<Rightarrow> Inl (ExecuteFailed e)
      | Inr solved \<Rightarrow>
          (case nr_serialize nr solved of Inl e \<Rightarrow> Inl (ExecuteFailed e) | Inr _ \<Rightarrow> Inr ()))"

definition witness_map_from_fields :: "'f list \<Rightarrow> u32 \<rightharpoonup> 'f" where
  "witness_map_from_fields values =
     fold (\<lambda>(i, v) m. m(word_of_nat i \<mapsto> v)) (enumerate 0 values) Map.empty"

definition field_from_u8 :: "('f, 'w) noir_rs \<Rightarrow> u8 \<Rightarrow> 'f" where
  "field_from_u8 nr b = nr_field nr (unat b)"

definition field_from_u32 :: "('f, 'w) noir_rs \<Rightarrow> u32 \<Rightarrow> 'f" where
  "field_from_u32 nr v = nr_field nr (unat v)"

definition field_from_u64 :: "('f, 'w) noir_rs \<Rightarrow> u64 \<Rightarrow> 'f" where
  "field_from_u64 nr v = nr_field nr (unat v)"

section \<open>The requester bridge\<close>

record requester_public_inputs =
  rq_round :: round_id
  rq_node_id :: bytes
  rq_commitment_hash :: bytes
  rq_cap_bytes :: bytes
  rq_capability_len :: u32
  rq_threshold :: u64

record requester_witness =
  rw_budget_cents :: u64
  rw_nonce :: bytes

definition requester_param_names :: "string list" where
  "requester_param_names =
     [''round'', ''node_id'', ''commitment_hash'', ''required_capability'', ''capability_len'',
      ''threshold'', ''budget_cents'', ''nonce'']"

definition requester_circuit_load ::
  "'j circuit_artifact \<Rightarrow> noir_bridge_error + 'j circuit_artifact" where
  "requester_circuit_load artifact =
     (let names = parameter_names artifact
      in if names \<noteq> requester_param_names
         then Inl (BridgeParse (AbiMismatch ''requester'' names)) else Inr artifact)"

definition requester_public_inputs_from_intent ::
  "crates \<Rightarrow> private_requester_intent \<Rightarrow> bytes \<Rightarrow> round_id \<Rightarrow> u64 \<Rightarrow>
     noir_bridge_error + requester_public_inputs \<times> bytes" where
  "requester_public_inputs_from_intent c intent nonce round threshold =
     (let cap_bytes = tag_bytes (pri_required_capability intent)
      in if length cap_bytes > max_capability_bytes
         then Inl (BridgeCapabilityTooLong (length cap_bytes) max_capability_bytes)
         else
           let padded = copy_at 0 cap_bytes (replicate 32 0)
           in case build_requester_preimage intent nonce round of
                Inl e \<Rightarrow> Inl (BridgeCommitment e)
              | Inr preimage \<Rightarrow>
                  let commit = hash_preimage c preimage
                  in Inr (\<lparr>rq_round = round, rq_node_id = nid_bytes (pri_node_id intent),
                           rq_commitment_hash = commit, rq_cap_bytes = padded,
                           rq_capability_len = word_of_nat (length cap_bytes),
                           rq_threshold = threshold\<rparr>, commit))"

definition requester_witness_map ::
  "('f, 'w) noir_rs \<Rightarrow> requester_public_inputs \<Rightarrow> requester_witness \<Rightarrow> u32 \<rightharpoonup> 'f" where
  "requester_witness_map nr pub witness =
     (let fields = [field_from_u64 nr (rq_round pub)];
          fields = fields @ map (field_from_u8 nr) (rq_node_id pub);
          fields = fields @ map (field_from_u8 nr) (rq_commitment_hash pub);
          fields = fields @ map (field_from_u8 nr) (rq_cap_bytes pub);
          fields = fields @ [field_from_u32 nr (rq_capability_len pub)];
          fields = fields @ [field_from_u64 nr (rq_threshold pub)];
          fields = fields @ [field_from_u64 nr (rw_budget_cents witness)];
          fields = fields @ map (field_from_u8 nr) (rw_nonce witness)
      in witness_map_from_fields fields)"

definition requester_execute ::
  "('f, 'w) noir_rs \<Rightarrow> 'j circuit_artifact \<Rightarrow> requester_public_inputs \<Rightarrow> requester_witness \<Rightarrow>
     noir_bridge_error + unit" where
  "requester_execute nr artifact pub witness =
     execute_circuit nr (ca_bytecode artifact) (requester_witness_map nr pub witness)"

section \<open>The provider bridge\<close>

record provider_public_inputs =
  pv_round :: round_id
  pv_node_id :: bytes
  pv_commitment_hash :: bytes
  pv_claim_bytes :: "bytes list"
  pv_claim_lens :: "u32 list"
  pv_n_claims :: u32
  pv_threshold :: u64

record provider_witness =
  pw_reservation_cents :: u64
  pw_nonce :: bytes

definition provider_param_names :: "string list" where
  "provider_param_names =
     [''round'', ''node_id'', ''commitment_hash'', ''claim_bytes'', ''claim_lens'', ''n_claims'',
      ''threshold'', ''reservation_cents'', ''nonce'']"

definition provider_circuit_load ::
  "'j circuit_artifact \<Rightarrow> noir_bridge_error + 'j circuit_artifact" where
  "provider_circuit_load artifact =
     (let names = parameter_names artifact
      in if names \<noteq> provider_param_names
         then Inl (BridgeParse (AbiMismatch ''provider'' names)) else Inr artifact)"

text \<open>The loop over the claims, filling the fixed slots.\<close>

fun fill_claims ::
  "nat \<Rightarrow> capability_tag list \<Rightarrow> bytes list \<Rightarrow> u32 list \<Rightarrow>
     noir_bridge_error + bytes list \<times> u32 list" where
  "fill_claims i [] claim_bytes claim_lens = Inr (claim_bytes, claim_lens)"
| "fill_claims i (claim # claims) claim_bytes claim_lens =
     (let bs = tag_bytes claim
      in if length bs > max_capability_bytes
         then Inl (BridgeCapabilityTooLong (length bs) max_capability_bytes)
         else fill_claims (Suc i) claims
                (claim_bytes[i := copy_at 0 bs (claim_bytes ! i)])
                (claim_lens[i := word_of_nat (length bs)]))"

definition provider_public_inputs_from_intent ::
  "crates \<Rightarrow> private_provider_intent \<Rightarrow> bytes \<Rightarrow> round_id \<Rightarrow> u64 \<Rightarrow>
     noir_bridge_error + provider_public_inputs \<times> bytes" where
  "provider_public_inputs_from_intent c intent nonce round threshold =
     (let claims = ppi_capability_claims intent
      in if length claims > max_capability_claims
         then Inl (BridgeTooManyClaims (length claims) max_capability_claims)
         else and_then (fill_claims 0 claims (replicate 4 (replicate 32 0)) (replicate 4 0))
           (\<lambda>(claim_bytes, claim_lens).
              case build_provider_preimage intent nonce round of
                Inl e \<Rightarrow> Inl (BridgeCommitment e)
              | Inr preimage \<Rightarrow>
                  let commit = hash_preimage c preimage
                  in Inr (\<lparr>pv_round = round, pv_node_id = nid_bytes (ppi_node_id intent),
                           pv_commitment_hash = commit, pv_claim_bytes = claim_bytes,
                           pv_claim_lens = claim_lens,
                           pv_n_claims = word_of_nat (length claims),
                           pv_threshold = threshold\<rparr>, commit)))"

definition provider_witness_map ::
  "('f, 'w) noir_rs \<Rightarrow> provider_public_inputs \<Rightarrow> provider_witness \<Rightarrow> u32 \<rightharpoonup> 'f" where
  "provider_witness_map nr pub witness =
     (let fields = [field_from_u64 nr (pv_round pub)];
          fields = fields @ map (field_from_u8 nr) (pv_node_id pub);
          fields = fields @ map (field_from_u8 nr) (pv_commitment_hash pub);
          fields = fields @ concat (map (map (field_from_u8 nr)) (pv_claim_bytes pub));
          fields = fields @ map (field_from_u32 nr) (pv_claim_lens pub);
          fields = fields @ [field_from_u32 nr (pv_n_claims pub)];
          fields = fields @ [field_from_u64 nr (pv_threshold pub)];
          fields = fields @ [field_from_u64 nr (pw_reservation_cents witness)];
          fields = fields @ map (field_from_u8 nr) (pw_nonce witness)
      in witness_map_from_fields fields)"

definition provider_execute ::
  "('f, 'w) noir_rs \<Rightarrow> 'j circuit_artifact \<Rightarrow> provider_public_inputs \<Rightarrow> provider_witness \<Rightarrow>
     noir_bridge_error + unit" where
  "provider_execute nr artifact pub witness =
     execute_circuit nr (ca_bytecode artifact) (provider_witness_map nr pub witness)"

section \<open>The ABI of the circuits\<close>

text \<open>
  Noir flattens the parameters of \<open>main\<close> in declaration order, arrays element by element,
  every integer one field element; \<open>un\<close> reads an element back as a number.
\<close>

definition abi_word :: "('f \<Rightarrow> nat) \<Rightarrow> (u32 \<rightharpoonup> 'f) \<Rightarrow> nat \<Rightarrow> 'a :: len word" where
  "abi_word un m i = word_of_nat (un (the (m (word_of_nat i))))"

definition abi_array :: "('f \<Rightarrow> nat) \<Rightarrow> (u32 \<rightharpoonup> 'f) \<Rightarrow> nat \<Rightarrow> nat \<Rightarrow> 'a :: len word list" where
  "abi_array un m i n = map (\<lambda>j. abi_word un m (i + j)) [0..<n]"

definition requester_abi_main :: "(bytes \<Rightarrow> bytes) \<Rightarrow> ('f \<Rightarrow> nat) \<Rightarrow> (u32 \<rightharpoonup> 'f) \<Rightarrow> bool" where
  "requester_abi_main blake un m \<longleftrightarrow>
     requester_main blake (abi_word un m 0) (abi_array un m 1 32) (abi_array un m 33 32)
       (abi_array un m 65 32) (abi_word un m 97) (abi_word un m 98) (abi_word un m 99)
       (abi_array un m 100 32)"

definition provider_abi_main :: "(bytes \<Rightarrow> bytes) \<Rightarrow> ('f \<Rightarrow> nat) \<Rightarrow> (u32 \<rightharpoonup> 'f) \<Rightarrow> bool" where
  "provider_abi_main blake un m \<longleftrightarrow>
     provider_main blake (abi_word un m 0) (abi_array un m 1 32) (abi_array un m 33 32)
       (map (\<lambda>s. abi_array un m (65 + 32 * s) 32) [0..<4]) (abi_array un m 193 4)
       (abi_word un m 197) (abi_word un m 198) (abi_word un m 199) (abi_array un m 200 32)"

text \<open>What is assumed of \<open>noir_rs\<close> and of the compiled circuit \<open>bytecode\<close>.\<close>

definition field_ok :: "('f, 'w) noir_rs \<Rightarrow> ('f \<Rightarrow> nat) \<Rightarrow> bool" where
  "field_ok nr un \<longleftrightarrow> (\<forall>n < 2 ^ 128. un (nr_field nr n) = n)"

definition acvm_ok ::
  "('f, 'w) noir_rs \<Rightarrow> string \<Rightarrow> nat \<Rightarrow> ((u32 \<rightharpoonup> 'f) \<Rightarrow> bool) \<Rightarrow> bool" where
  "acvm_ok nr bytecode inputs main \<longleftrightarrow>
     (\<forall>m. dom m = word_of_nat ` {0..<inputs} \<longrightarrow> is_ok (execute_circuit nr bytecode m) = main m)"

section \<open>The witness map is the ABI encoding of its inputs\<close>

lemma witness_map_snoc:
  "witness_map_from_fields (xs @ [x]) = (witness_map_from_fields xs)(word_of_nat (length xs) \<mapsto> x)"
  by (simp add: witness_map_from_fields_def enumerate_append_eq)

lemma small_index: "i < 2 ^ 32 \<Longrightarrow> unat (word_of_nat i :: u32) = i"
  by (simp only: unat_of_nat) (simp add: take_bit_nat_eq_self)

lemma small_index_inject:
  "i < 2 ^ 32 \<Longrightarrow> j < 2 ^ 32 \<Longrightarrow> (word_of_nat i :: u32) = word_of_nat j \<longleftrightarrow> i = j"
  by (metis small_index)

lemma small_index_less:
  "i < 2 ^ 32 \<Longrightarrow> j < 2 ^ 32 \<Longrightarrow> (word_of_nat i :: u32) < word_of_nat j \<longleftrightarrow> i < j"
  by (simp add: word_less_nat_alt small_index)

lemma witness_map_nth:
  "length xs \<le> 2 ^ 32 \<Longrightarrow> i < length xs \<Longrightarrow>
     witness_map_from_fields xs (word_of_nat i) = Some (xs ! i)"
proof (induction xs rule: rev_induct)
  case (snoc x xs)
  then show ?case by (cases "i = length xs") (simp_all add: witness_map_snoc small_index_inject nth_append)
qed simp

lemma witness_map_dom: "dom (witness_map_from_fields xs) = word_of_nat ` {0..<length xs}"
  by (induction xs rule: rev_induct)
    (simp_all only: witness_map_snoc dom_fun_upd length_append_singleton atLeast0_lessThan_Suc
      image_insert option.simps if_False, simp add: witness_map_from_fields_def)

lemma field_read:
  fixes w :: "'b :: len word"
  assumes "field_ok nr un" "LENGTH('b) \<le> 128"
  shows "un (nr_field nr (unat w)) = unat w"
proof -
  have "unat w < 2 ^ LENGTH('b)" by (rule unsigned_less)
  also have "(2 :: nat) ^ LENGTH('b) \<le> 2 ^ 128" using assms(2) by (intro power_increasing) simp_all
  finally show ?thesis using assms(1) by (simp add: field_ok_def)
qed

lemma abi_word_fields:
  assumes "field_ok nr un" "length fs \<le> 2 ^ 32" "i < length fs"
  shows "fs ! i = field_from_u64 nr a \<Longrightarrow> abi_word un (witness_map_from_fields fs) i = a"
    "fs ! i = field_from_u32 nr b \<Longrightarrow> abi_word un (witness_map_from_fields fs) i = b"
    "fs ! i = field_from_u8 nr d \<Longrightarrow> abi_word un (witness_map_from_fields fs) i = d"
  using assms(2,3)
  by (simp_all add: abi_word_def witness_map_nth field_from_u64_def field_from_u32_def
      field_from_u8_def field_read [OF assms(1)])

lemma abi_array_fields:
  assumes "field_ok nr un" "length fs \<le> 2 ^ 32" "i + length bs \<le> length fs"
    and "\<And>j. j < length bs \<Longrightarrow> fs ! (i + j) = field_from_u8 nr (bs ! j)"
  shows "length bs = n \<Longrightarrow> abi_array un (witness_map_from_fields fs) i n = bs"
  using assms(3,4)
  by (intro nth_equalityI) (auto simp: abi_array_def intro!: abi_word_fields [OF assms(1,2)])

lemma abi_array32_fields:
  assumes "field_ok nr un" "length fs \<le> 2 ^ 32" "i + length ls \<le> length fs"
    and "\<And>j. j < length ls \<Longrightarrow> fs ! (i + j) = field_from_u32 nr (ls ! j)"
  shows "length ls = n \<Longrightarrow> abi_array un (witness_map_from_fields fs) i n = ls"
  using assms(3,4)
  by (intro nth_equalityI) (auto simp: abi_array_def intro!: abi_word_fields [OF assms(1,2)])

text \<open>The fixed array sizes of the Rust structs.\<close>

definition requester_shape :: "requester_public_inputs \<Rightarrow> requester_witness \<Rightarrow> bool" where
  "requester_shape pub w \<longleftrightarrow> length (rq_node_id pub) = 32 \<and> length (rq_commitment_hash pub) = 32 \<and>
     length (rq_cap_bytes pub) = 32 \<and> length (rw_nonce w) = 32"

lemma requester_witness_abi:
  assumes f: "field_ok nr un" and shape: "requester_shape pub w"
  shows "requester_abi_main blake un (requester_witness_map nr pub w) =
    requester_main blake (rq_round pub) (rq_node_id pub) (rq_commitment_hash pub) (rq_cap_bytes pub)
      (rq_capability_len pub) (rq_threshold pub) (rw_budget_cents w) (rw_nonce w)"
    "dom (requester_witness_map nr pub w) = word_of_nat ` {0..<132}"
proof -
  let ?fs = "field_from_u64 nr (rq_round pub) # map (field_from_u8 nr) (rq_node_id pub) @
    map (field_from_u8 nr) (rq_commitment_hash pub) @ map (field_from_u8 nr) (rq_cap_bytes pub) @
    field_from_u32 nr (rq_capability_len pub) # field_from_u64 nr (rq_threshold pub) #
    field_from_u64 nr (rw_budget_cents w) # map (field_from_u8 nr) (rw_nonce w)"
  have map: "requester_witness_map nr pub w = witness_map_from_fields ?fs"
    by (simp add: requester_witness_map_def)
  have len: "length ?fs = 132" using shape by (simp add: requester_shape_def)
  have small: "length ?fs \<le> 2 ^ 32" unfolding len by simp
  note word = abi_word_fields [OF f small] and array = abi_array_fields [OF f small]
  have "abi_word un (witness_map_from_fields ?fs) 0 = rq_round pub" by (rule word(1)) (simp_all add: len)
  moreover have "abi_array un (witness_map_from_fields ?fs) 1 32 = rq_node_id pub"
    by (rule array; use shape len in \<open>simp add: requester_shape_def nth_append nth_Cons'\<close>)
  moreover have "abi_array un (witness_map_from_fields ?fs) 33 32 = rq_commitment_hash pub"
    by (rule array; use shape len in \<open>simp add: requester_shape_def nth_append nth_Cons'\<close>)
  moreover have "abi_array un (witness_map_from_fields ?fs) 65 32 = rq_cap_bytes pub"
    by (rule array; use shape len in \<open>simp add: requester_shape_def nth_append nth_Cons'\<close>)
  moreover have "abi_word un (witness_map_from_fields ?fs) 97 = rq_capability_len pub"
    by (rule word(2); use shape len in \<open>simp add: requester_shape_def nth_append nth_Cons'\<close>)
  moreover have "abi_word un (witness_map_from_fields ?fs) 98 = rq_threshold pub"
    by (rule word(1); use shape len in \<open>simp add: requester_shape_def nth_append nth_Cons'\<close>)
  moreover have "abi_word un (witness_map_from_fields ?fs) 99 = rw_budget_cents w"
    by (rule word(1); use shape len in \<open>simp add: requester_shape_def nth_append nth_Cons'\<close>)
  moreover have "abi_array un (witness_map_from_fields ?fs) 100 32 = rw_nonce w"
    by (rule array; use shape len in \<open>simp add: requester_shape_def nth_append nth_Cons'\<close>)
  ultimately show "requester_abi_main blake un (requester_witness_map nr pub w) =
    requester_main blake (rq_round pub) (rq_node_id pub) (rq_commitment_hash pub) (rq_cap_bytes pub)
      (rq_capability_len pub) (rq_threshold pub) (rw_budget_cents w) (rw_nonce w)"
    by (simp only: map requester_abi_main_def)
  show "dom (requester_witness_map nr pub w) = word_of_nat ` {0..<132}"
    by (simp only: map witness_map_dom len)
qed

lemma length_concat_rows: "\<forall>b \<in> set xs. length b = n \<Longrightarrow> length (concat xs) = length xs * n"
  by (induction xs) simp_all

text \<open>The flattened two-dimensional array: four rows of 32 elements.\<close>

lemma nth_concat4:
  assumes "length xss = 4" "\<forall>xs \<in> set xss. length xs = 32" "s < 4" "j < 32"
  shows "concat xss ! (32 * s + j) = xss ! s ! j"
proof -
  obtain a b c d where xss: "xss = [a, b, c, d]" using assms(1)
    by (auto simp: length_Suc_conv numeral_eq_Suc)
  have "s = 0 \<or> s = 1 \<or> s = 2 \<or> s = 3" using assms(3) by linarith
  with assms(2,4) show ?thesis by (auto simp: xss nth_append)
qed

definition provider_shape :: "provider_public_inputs \<Rightarrow> provider_witness \<Rightarrow> bool" where
  "provider_shape pub w \<longleftrightarrow> length (pv_node_id pub) = 32 \<and> length (pv_commitment_hash pub) = 32 \<and>
     slot_array (pv_claim_bytes pub) \<and> length (pv_claim_lens pub) = 4 \<and> length (pw_nonce w) = 32"

lemma provider_witness_abi:
  assumes f: "field_ok nr un" and shape: "provider_shape pub w"
  shows "provider_abi_main blake un (provider_witness_map nr pub w) =
    provider_main blake (pv_round pub) (pv_node_id pub) (pv_commitment_hash pub) (pv_claim_bytes pub)
      (pv_claim_lens pub) (pv_n_claims pub) (pv_threshold pub) (pw_reservation_cents w) (pw_nonce w)"
    "dom (provider_witness_map nr pub w) = word_of_nat ` {0..<232}"
proof -
  let ?cb = "concat (pv_claim_bytes pub)"
  let ?fs = "field_from_u64 nr (pv_round pub) # map (field_from_u8 nr) (pv_node_id pub) @
    map (field_from_u8 nr) (pv_commitment_hash pub) @ map (field_from_u8 nr) ?cb @
    map (field_from_u32 nr) (pv_claim_lens pub) @ field_from_u32 nr (pv_n_claims pub) #
    field_from_u64 nr (pv_threshold pub) # field_from_u64 nr (pw_reservation_cents w) #
    map (field_from_u8 nr) (pw_nonce w)"
  have map: "provider_witness_map nr pub w = witness_map_from_fields ?fs"
    by (simp add: provider_witness_map_def map_concat)
  have rows: "length (pv_claim_bytes pub) = 4" "\<forall>b \<in> set (pv_claim_bytes pub). length b = 32"
    using shape by (simp_all add: provider_shape_def slot_array_def)
  then have cb: "length ?cb = 128"
    using length_concat_rows [of "pv_claim_bytes pub" 32] by simp
  have len: "length ?fs = 232" using shape cb by (simp add: provider_shape_def)
  have small: "length ?fs \<le> 2 ^ 32" unfolding len by simp
  note word = abi_word_fields [OF f small] and array = abi_array_fields [OF f small]
    and array32 = abi_array32_fields [OF f small]
  have "abi_word un (witness_map_from_fields ?fs) 0 = pv_round pub" by (rule word(1)) (simp_all add: len)
  moreover have "abi_array un (witness_map_from_fields ?fs) 1 32 = pv_node_id pub"
    by (rule array; use shape len cb in \<open>simp add: provider_shape_def nth_append nth_Cons'\<close>)
  moreover have "abi_array un (witness_map_from_fields ?fs) 33 32 = pv_commitment_hash pub"
    by (rule array; use shape len cb in \<open>simp add: provider_shape_def nth_append nth_Cons'\<close>)
  moreover have "map (\<lambda>s. abi_array un (witness_map_from_fields ?fs) (65 + 32 * s) 32) [0..<4] =
      pv_claim_bytes pub"
  proof (rule nth_equalityI)
    fix s assume "s < length (map (\<lambda>s. abi_array un (witness_map_from_fields ?fs) (65 + 32 * s) 32) [0..<4])"
    then have s: "s < 4" by simp
    have "abi_array un (witness_map_from_fields ?fs) (65 + 32 * s) 32 = pv_claim_bytes pub ! s"
    proof (rule array)
      show row: "length (pv_claim_bytes pub ! s) = 32" using rows s by simp
      show "65 + 32 * s + length (pv_claim_bytes pub ! s) \<le> length ?fs"
        using s by (simp only: row len)
      fix j assume "j < length (pv_claim_bytes pub ! s)"
      then have j: "j < 32" by (simp only: row)
      have lt: "32 * s + j < 128" using s j by linarith
      have "?fs ! (65 + 32 * s + j) = map (field_from_u8 nr) ?cb ! (32 * s + j)"
        using shape cb lt by (simp add: provider_shape_def nth_append)
      then show "?fs ! (65 + 32 * s + j) = field_from_u8 nr (pv_claim_bytes pub ! s ! j)"
        using cb lt by (simp add: nth_concat4 [OF rows s j])
    qed
    with s show "map (\<lambda>s. abi_array un (witness_map_from_fields ?fs) (65 + 32 * s) 32) [0..<4] ! s =
      pv_claim_bytes pub ! s" by simp
  qed (simp add: rows)
  moreover have "abi_array un (witness_map_from_fields ?fs) 193 4 = pv_claim_lens pub"
    by (rule array32; use shape len cb in \<open>simp add: provider_shape_def nth_append nth_Cons'\<close>)
  moreover have "abi_word un (witness_map_from_fields ?fs) 197 = pv_n_claims pub"
    by (rule word(2); use shape len cb in \<open>simp add: provider_shape_def nth_append nth_Cons'\<close>)
  moreover have "abi_word un (witness_map_from_fields ?fs) 198 = pv_threshold pub"
    by (rule word(1); use shape len cb in \<open>simp add: provider_shape_def nth_append nth_Cons'\<close>)
  moreover have "abi_word un (witness_map_from_fields ?fs) 199 = pw_reservation_cents w"
    by (rule word(1); use shape len cb in \<open>simp add: provider_shape_def nth_append nth_Cons'\<close>)
  moreover have "abi_array un (witness_map_from_fields ?fs) 200 32 = pw_nonce w"
    by (rule array; use shape len cb in \<open>simp add: provider_shape_def nth_append nth_Cons'\<close>)
  ultimately show "provider_abi_main blake un (provider_witness_map nr pub w) =
    provider_main blake (pv_round pub) (pv_node_id pub) (pv_commitment_hash pub) (pv_claim_bytes pub)
      (pv_claim_lens pub) (pv_n_claims pub) (pv_threshold pub) (pw_reservation_cents w) (pw_nonce w)"
    by (simp only: map provider_abi_main_def)
  show "dom (provider_witness_map nr pub w) = word_of_nat ` {0..<232}"
    by (simp only: map witness_map_dom len)
qed

end
