(* ===== verification/Noir_Parity.thy ===== *)
theory Noir_Parity
  imports Noir_Bridge
begin

text \<open>
  The bridge and the circuits agree: the circuit rebuilds exactly the preimage
  \<open>commitments.rs\<close> hashed, so an honest witness is accepted if and only if the predicate
  holds, and any accepted witness is the committed one unless the hash collides on the two
  preimages.
\<close>

section \<open>The requester\<close>

definition padded_tag :: "capability_tag \<Rightarrow> bytes" where
  "padded_tag t = tag_bytes t @ replicate (32 - length (tag_bytes t)) 0"

definition tag_len :: "capability_tag \<Rightarrow> u32" where
  "tag_len t = word_of_nat (length (tag_bytes t))"

lemma padded_tag_copy: "copy_at 0 (tag_bytes t) (replicate 32 0) = padded_tag t"
  by (simp add: copy_at_def padded_tag_def)

lemma length_padded_tag: "length (tag_bytes t) \<le> 32 \<Longrightarrow> length (padded_tag t) = 32"
  by (simp add: padded_tag_def)

lemma cap_slot_padded: "cap_slot (tag_bytes t) = u32_be (tag_len t) @ padded_tag t"
  by (simp add: cap_slot_def padded_tag_def tag_len_def)

lemma tag_len_bounds:
  assumes "tag_bytes t \<noteq> []" "length (tag_bytes t) \<le> 32"
  shows "0 < tag_len t" "tag_len t \<le> 32"
proof -
  have "unat (tag_len t) = length (tag_bytes t)"
    using assms(2) unfolding tag_len_def by (intro small_index) simp
  with assms show "0 < tag_len t" "tag_len t \<le> 32"
    by (simp_all add: word_less_nat_alt word_le_nat_alt)
qed

text \<open>An honest intent: what the constructors of \<open>private_intent.rs\<close> let through.\<close>

definition requester_honest :: "private_requester_intent \<Rightarrow> bytes \<Rightarrow> bool" where
  "requester_honest intent nonce \<longleftrightarrow> node_wf (pri_node_id intent) \<and> length nonce = 32 \<and>
     tag_bytes (pri_required_capability intent) \<noteq> [] \<and>
     length (tag_bytes (pri_required_capability intent)) \<le> 32"

definition requester_committed :: "private_requester_intent \<Rightarrow> bytes \<Rightarrow> requester_witness" where
  "requester_committed intent nonce =
     \<lparr>rw_budget_cents = expose (pri_budget_cents intent), rw_nonce = nonce\<rparr>"

text \<open>The preimage the circuit hashes for these public inputs and this witness.\<close>

definition requester_circuit_preimage ::
  "requester_public_inputs \<Rightarrow> requester_witness \<Rightarrow> bytes" where
  "requester_circuit_preimage pub w =
     noir_requester_preimage (rq_round pub) (rq_node_id pub) (rq_cap_bytes pub)
       (rq_capability_len pub) (rw_budget_cents w) (rw_nonce w)"

lemma requester_inputs_honest:
  assumes "requester_honest intent nonce"
    and "requester_public_inputs_from_intent c intent nonce round threshold = Inr (pub, commit)"
  shows "pub = \<lparr>rq_round = round, rq_node_id = nid_bytes (pri_node_id intent),
      rq_commitment_hash = commit, rq_cap_bytes = padded_tag (pri_required_capability intent),
      rq_capability_len = tag_len (pri_required_capability intent), rq_threshold = threshold\<rparr>"
    "build_requester_preimage intent nonce round =
      Inr (requester_circuit_preimage pub (requester_committed intent nonce))"
    "commit = blake2s c (requester_circuit_preimage pub (requester_committed intent nonce))"
proof -
  note hon = assms(1) [unfolded requester_honest_def]
  have layout: "build_requester_preimage intent nonce round =
      Inr (requester_layout round (pri_node_id intent) (pri_required_capability intent)
        (expose (pri_budget_cents intent)) nonce)"
    using hon by (intro build_requester_layout) auto
  show pub: "pub = \<lparr>rq_round = round, rq_node_id = nid_bytes (pri_node_id intent),
      rq_commitment_hash = commit, rq_cap_bytes = padded_tag (pri_required_capability intent),
      rq_capability_len = tag_len (pri_required_capability intent), rq_threshold = threshold\<rparr>"
    using assms(2) hon
    by (auto simp: requester_public_inputs_from_intent_def layout Let_def padded_tag_copy
        tag_len_def split: if_splits)
  have pre: "requester_circuit_preimage pub (requester_committed intent nonce) =
      requester_layout round (pri_node_id intent) (pri_required_capability intent)
        (expose (pri_budget_cents intent)) nonce"
    using hon by (simp add: requester_circuit_preimage_def requester_committed_def pub node_wf_def
        noir_requester_preimage_layout length_padded_tag noir_requester_layout_def
        requester_layout_def cap_slot_padded)
  show "build_requester_preimage intent nonce round =
      Inr (requester_circuit_preimage pub (requester_committed intent nonce))"
    by (simp only: layout pre)
  show "commit = blake2s c (requester_circuit_preimage pub (requester_committed intent nonce))"
    using assms(2) unfolding pre
    by (auto simp: requester_public_inputs_from_intent_def layout Let_def hash_preimage_def
        split: if_splits)
qed

text \<open>What is assumed of the executor for the requester's compiled circuit.\<close>

definition requester_backend ::
  "crates \<Rightarrow> ('f, 'w) noir_rs \<Rightarrow> ('f \<Rightarrow> nat) \<Rightarrow> 'j circuit_artifact \<Rightarrow> bool" where
  "requester_backend c nr un art \<longleftrightarrow> blake_ok c \<and> field_ok nr un \<and>
     acvm_ok nr (ca_bytecode art) 132 (requester_abi_main (blake2s c) un)"

lemma requester_execute_iff:
  assumes backend: "requester_backend c nr un art" and hon: "requester_honest intent nonce"
    and inputs: "requester_public_inputs_from_intent c intent nonce round threshold = Inr (pub, commit)"
    and nonce': "length (rw_nonce w) = 32"
  shows "is_ok (requester_execute nr art pub w) \<longleftrightarrow>
    threshold \<le> rw_budget_cents w \<and>
    blake2s c (requester_circuit_preimage pub w) =
      blake2s c (requester_circuit_preimage pub (requester_committed intent nonce))"
proof -
  note pub = requester_inputs_honest [OF hon inputs]
  note h = hon [unfolded requester_honest_def]
  have hash: "length (blake2s c m) = 32" for m
    using backend by (simp add: requester_backend_def blake_ok_def)
  have len: "length commit = 32" unfolding pub(3) by (rule hash)
  have shape: "requester_shape pub w"
    using h nonce' len by (subst pub(1)) (simp add: requester_shape_def node_wf_def length_padded_tag)
  have f: "field_ok nr un" using backend by (simp add: requester_backend_def)
  have "is_ok (requester_execute nr art pub w) = requester_abi_main (blake2s c) un (requester_witness_map nr pub w)"
    using backend requester_witness_abi(2) [OF f shape]
    by (simp add: requester_backend_def acvm_ok_def requester_execute_def)
  also have "\<dots> \<longleftrightarrow> threshold \<le> rw_budget_cents w \<and>
      hash_matches (blake2s c (requester_circuit_preimage pub w)) commit"
    unfolding requester_witness_abi(1) [OF f shape] requester_circuit_preimage_def
    using h tag_len_bounds [of "pri_required_capability intent"] by (subst (1 2 3 4 5 6) pub(1)) (simp add: requester_main_def noir_consts)
  finally show ?thesis by (simp add: hash_matches_eq hash len flip: pub(3))
qed

lemma requester_layout_witness:
  assumes "requester_shape pub w" "requester_shape pub w'"
  shows "requester_circuit_preimage pub w = requester_circuit_preimage pub w' \<longleftrightarrow> w = w'"
  using assms
  by (auto simp: requester_circuit_preimage_def requester_shape_def noir_requester_preimage_layout
      noir_requester_layout_def u64c.enc_append_inject)

section \<open>The provider\<close>

text \<open>The fixed slots the loop fills.\<close>

lemma fill_claims_slots:
  assumes "\<forall>t \<in> set cs. length (tag_bytes t) \<le> 32" "length cs \<le> k" "length bs = i" "length ls = i"
  shows "fill_claims i cs (bs @ replicate k (replicate 32 0)) (ls @ replicate k 0) =
    Inr (bs @ map padded_tag cs @ replicate (k - length cs) (replicate 32 0),
         ls @ map tag_len cs @ replicate (k - length cs) 0)"
  using assms
proof (induction cs arbitrary: i bs ls k)
  case (Cons t cs)
  then obtain j where k: "k = Suc j" by (cases k) auto
  have "(bs @ replicate k (replicate 32 0))[i := copy_at 0 (tag_bytes t) ((bs @ replicate k (replicate 32 0)) ! i)] =
      (bs @ [padded_tag t]) @ replicate j (replicate 32 0)"
    "(ls @ replicate k 0)[i := tag_len t] = (ls @ [tag_len t]) @ replicate j 0"
    using Cons.prems(3,4) by (simp_all add: k nth_append list_update_append padded_tag_copy)
  with Cons.IH [where bs = "bs @ [padded_tag t]" and ls = "ls @ [tag_len t]" and i = "Suc i" and k = j]
  show ?case using Cons.prems by (simp add: k commit_consts tag_len_def [symmetric] Let_def)
qed simp

definition padded_claims :: "capability_tag list \<Rightarrow> bytes list" where
  "padded_claims cs = map padded_tag cs @ replicate (4 - length cs) (replicate 32 0)"

definition claim_lengths :: "capability_tag list \<Rightarrow> u32 list" where
  "claim_lengths cs = map tag_len cs @ replicate (4 - length cs) 0"

lemma fill_claims_padded:
  assumes "\<forall>t \<in> set cs. length (tag_bytes t) \<le> 32" "length cs \<le> 4"
  shows "fill_claims 0 cs (replicate 4 (replicate 32 0)) (replicate 4 0) =
    Inr (padded_claims cs, claim_lengths cs)"
  using fill_claims_slots [OF assms, of "[]" 0 "[]"]
  by (simp add: padded_claims_def claim_lengths_def)

definition provider_honest :: "private_provider_intent \<Rightarrow> bytes \<Rightarrow> bool" where
  "provider_honest intent nonce \<longleftrightarrow> node_wf (ppi_node_id intent) \<and> length nonce = 32 \<and>
     ppi_capability_claims intent \<noteq> [] \<and> length (ppi_capability_claims intent) \<le> 4 \<and>
     (\<forall>t \<in> set (ppi_capability_claims intent). tag_bytes t \<noteq> [] \<and> length (tag_bytes t) \<le> 32)"

definition provider_committed :: "private_provider_intent \<Rightarrow> bytes \<Rightarrow> provider_witness" where
  "provider_committed intent nonce =
     \<lparr>pw_reservation_cents = expose (ppi_reservation_cents intent), pw_nonce = nonce\<rparr>"

definition provider_circuit_preimage ::
  "provider_public_inputs \<Rightarrow> provider_witness \<Rightarrow> bytes" where
  "provider_circuit_preimage pub w =
     noir_provider_preimage (pv_round pub) (pv_node_id pub) (pv_claim_bytes pub) (pv_claim_lens pub)
       (pv_n_claims pub) (pw_reservation_cents w) (pw_nonce w)"

lemma slot_array_padded:
  "length cs \<le> 4 \<Longrightarrow> \<forall>t \<in> set cs. length (tag_bytes t) \<le> 32 \<Longrightarrow> slot_array (padded_claims cs)"
  by (auto simp: slot_array_def padded_claims_def length_padded_tag)

lemma active_slot:
  "i < 4 \<Longrightarrow> length cs \<le> 4 \<Longrightarrow> (word_of_nat i :: u32) < word_of_nat (length cs) \<longleftrightarrow> i < length cs"
  by (rule small_index_less) simp_all

lemma noir_slots_padded:
  assumes "length cs \<le> 4"
  shows "concat (map (noir_slot (padded_claims cs) (claim_lengths cs) (word_of_nat (length cs))) [0..<4]) =
    concat (map (\<lambda>t. cap_slot (tag_bytes t)) cs) @ replicate (36 * (4 - length cs)) 0"
proof -
  let ?slot = "noir_slot (padded_claims cs) (claim_lengths cs) (word_of_nat (length cs))"
  have "[0..<4] = [0..<length cs] @ [length cs..<4]"
    using assms upt_add_eq_append [of 0 "length cs" "4 - length cs"] by simp
  moreover have "map ?slot [0..<length cs] = map (\<lambda>t. cap_slot (tag_bytes t)) cs"
    using assms by (intro nth_equalityI)
      (simp_all add: noir_slot_def active_slot padded_claims_def claim_lengths_def nth_append cap_slot_padded)
  moreover have "map ?slot [length cs..<4] = replicate (4 - length cs) (replicate 36 0)"
  proof -
    have "map ?slot [length cs..<4] = map (\<lambda>_. replicate 36 0) [length cs..<4]"
      using assms by (intro map_cong refl) (simp add: noir_slot_def active_slot)
    then show ?thesis by (simp add: map_replicate_const)
  qed
  moreover have "concat (replicate k (replicate 36 (0 :: u8))) = replicate (36 * k) 0" for k
    by (induction k) (simp_all add: replicate_add)
  ultimately show ?thesis by (simp only: map_append concat_append)
qed

lemma provider_inputs_honest:
  assumes "provider_honest intent nonce"
    and "provider_public_inputs_from_intent c intent nonce round threshold = Inr (pub, commit)"
  shows "pub = \<lparr>pv_round = round, pv_node_id = nid_bytes (ppi_node_id intent),
      pv_commitment_hash = commit, pv_claim_bytes = padded_claims (ppi_capability_claims intent),
      pv_claim_lens = claim_lengths (ppi_capability_claims intent),
      pv_n_claims = word_of_nat (length (ppi_capability_claims intent)), pv_threshold = threshold\<rparr>"
    "build_provider_preimage intent nonce round =
      Inr (provider_circuit_preimage pub (provider_committed intent nonce))"
    "commit = blake2s c (provider_circuit_preimage pub (provider_committed intent nonce))"
proof -
  note hon = assms(1) [unfolded provider_honest_def]
  let ?cs = "ppi_capability_claims intent"
  let ?out = "provider_layout round (ppi_node_id intent) ?cs (expose (ppi_reservation_cents intent)) nonce"
  have layout: "build_provider_preimage intent nonce round = Inr ?out"
    using hon by (intro build_provider_layout) auto
  have fill: "fill_claims 0 ?cs (replicate 4 (replicate 32 0)) (replicate 4 0) =
      Inr (padded_claims ?cs, claim_lengths ?cs)"
    using hon by (intro fill_claims_padded) auto
  show pub: "pub = \<lparr>pv_round = round, pv_node_id = nid_bytes (ppi_node_id intent),
      pv_commitment_hash = commit, pv_claim_bytes = padded_claims ?cs,
      pv_claim_lens = claim_lengths ?cs, pv_n_claims = word_of_nat (length ?cs),
      pv_threshold = threshold\<rparr>"
    using assms(2) hon
    by (auto simp: provider_public_inputs_from_intent_def layout fill Let_def split: if_splits)
  have pre: "provider_circuit_preimage pub (provider_committed intent nonce) = ?out"
    using hon by (simp add: provider_circuit_preimage_def provider_committed_def pub node_wf_def
        noir_provider_preimage_layout slot_array_padded noir_provider_layout_def provider_layout_def
        noir_slots_padded)
  show "build_provider_preimage intent nonce round =
      Inr (provider_circuit_preimage pub (provider_committed intent nonce))"
    by (simp only: layout pre)
  show "commit = blake2s c (provider_circuit_preimage pub (provider_committed intent nonce))"
    using assms(2) hon unfolding pre
    by (auto simp: provider_public_inputs_from_intent_def layout fill Let_def hash_preimage_def
        split: if_splits)
qed

definition provider_backend ::
  "crates \<Rightarrow> ('f, 'w) noir_rs \<Rightarrow> ('f \<Rightarrow> nat) \<Rightarrow> 'j circuit_artifact \<Rightarrow> bool" where
  "provider_backend c nr un art \<longleftrightarrow> blake_ok c \<and> field_ok nr un \<and>
     acvm_ok nr (ca_bytecode art) 232 (provider_abi_main (blake2s c) un)"

lemma claim_slots_shape:
  assumes "length cs \<le> 4" "\<forall>t \<in> set cs. tag_bytes t \<noteq> [] \<and> length (tag_bytes t) \<le> 32"
  shows "list_all (slot_shape (claim_lengths cs) (word_of_nat (length cs))) [0..<4]"
  using assms
  by (auto simp: list_all_iff slot_shape_def Let_def active_slot claim_lengths_def nth_append
      noir_consts tag_len_bounds)

lemma provider_execute_iff:
  assumes backend: "provider_backend c nr un art" and hon: "provider_honest intent nonce"
    and inputs: "provider_public_inputs_from_intent c intent nonce round threshold = Inr (pub, commit)"
    and nonce': "length (pw_nonce w) = 32"
  shows "is_ok (provider_execute nr art pub w) \<longleftrightarrow>
    pw_reservation_cents w \<le> threshold \<and>
    blake2s c (provider_circuit_preimage pub w) =
      blake2s c (provider_circuit_preimage pub (provider_committed intent nonce))"
proof -
  note pub = provider_inputs_honest [OF hon inputs]
  note h = hon [unfolded provider_honest_def]
  let ?cs = "ppi_capability_claims intent"
  have hash: "length (blake2s c m) = 32" for m
    using backend by (simp add: provider_backend_def blake_ok_def)
  have len: "length commit = 32" unfolding pub(3) by (rule hash)
  have shape: "provider_shape pub w"
    using h nonce' len slot_array_padded [of ?cs]
    by (subst pub(1)) (simp add: provider_shape_def node_wf_def claim_lengths_def)
  have f: "field_ok nr un" using backend by (simp add: provider_backend_def)
  have "0 < length ?cs" "length ?cs \<le> 4" using h by auto
  then have count: "(0 :: u32) < word_of_nat (length ?cs)" "(word_of_nat (length ?cs) :: u32) \<le> 4"
    by (simp_all add: word_less_nat_alt word_le_nat_alt small_index)
  have fields: "pv_n_claims pub = word_of_nat (length ?cs)" "pv_claim_lens pub = claim_lengths ?cs"
    "pv_commitment_hash pub = commit" "pv_threshold pub = threshold"
    by (subst pub(1), simp)+
  have slots: "list_all (slot_shape (claim_lengths ?cs) (word_of_nat (length ?cs))) [0..<4]"
    using h by (intro claim_slots_shape) auto
  have "is_ok (provider_execute nr art pub w) = provider_abi_main (blake2s c) un (provider_witness_map nr pub w)"
    using backend provider_witness_abi(2) [OF f shape]
    by (simp add: provider_backend_def acvm_ok_def provider_execute_def)
  also have "\<dots> \<longleftrightarrow> pw_reservation_cents w \<le> threshold \<and>
      hash_matches (blake2s c (provider_circuit_preimage pub w)) commit"
    unfolding provider_witness_abi(1) [OF f shape] provider_circuit_preimage_def provider_main_def
      noir_consts fields
    using count slots by blast
  finally show ?thesis by (simp add: hash_matches_eq hash len flip: pub(3))
qed

lemma provider_layout_witness:
  assumes "provider_shape pub w" "provider_shape pub w'"
  shows "provider_circuit_preimage pub w = provider_circuit_preimage pub w' \<longleftrightarrow> w = w'"
  using assms
  by (auto simp: provider_circuit_preimage_def provider_shape_def noir_provider_preimage_layout
      noir_provider_layout_def u64c.enc_append_inject)

end
