(* ===== verification/Noir_Soundness.thy ===== *)
theory Noir_Soundness
  imports Noir_Parity
begin

text \<open>
  What executing a circuit establishes: the witness is the committed one, or it collides with it
  under Blake2s, and the private threshold holds. What it leaves open: the bytes of unused claim
  slots.
\<close>

lemma requester_witness_unique:
  assumes hon: "requester_honest intent nonce" and b: "blake_ok c"
    and inputs: "requester_public_inputs_from_intent c intent nonce round threshold = Inr (pub, commit)"
    and nonce': "length (rw_nonce w) = 32"
  shows "requester_circuit_preimage pub w = requester_circuit_preimage pub (requester_committed intent nonce)
    \<longleftrightarrow> w = requester_committed intent nonce"
proof -
  have len: "length commit = 32" unfolding requester_inputs_honest(3) [OF hon inputs]
    using b by (simp add: blake_ok_def)
  note h = hon [unfolded requester_honest_def]
  have shape: "requester_shape pub v" if "length (rw_nonce v) = 32" for v
    using h that len by (subst requester_inputs_honest(1) [OF hon inputs])
      (simp add: requester_shape_def node_wf_def length_padded_tag)
  show ?thesis
    using h by (intro requester_layout_witness shape nonce') (simp add: requester_committed_def)
qed

lemma provider_witness_unique:
  assumes hon: "provider_honest intent nonce" and b: "blake_ok c"
    and inputs: "provider_public_inputs_from_intent c intent nonce round threshold = Inr (pub, commit)"
    and nonce': "length (pw_nonce w) = 32"
  shows "provider_circuit_preimage pub w = provider_circuit_preimage pub (provider_committed intent nonce)
    \<longleftrightarrow> w = provider_committed intent nonce"
proof -
  have len: "length commit = 32" unfolding provider_inputs_honest(3) [OF hon inputs]
    using b by (simp add: blake_ok_def)
  note h = hon [unfolded provider_honest_def]
  have shape: "provider_shape pub v" if "length (pw_nonce v) = 32" for v
    using h that len slot_array_padded [of "ppi_capability_claims intent"]
    by (subst provider_inputs_honest(1) [OF hon inputs])
      (simp add: provider_shape_def node_wf_def claim_lengths_def)
  show ?thesis
    using h by (intro provider_layout_witness shape nonce') (simp add: provider_committed_def)
qed

lemma requester_circuit_accepts:
  assumes "requester_backend c nr un art" and hon: "requester_honest intent nonce"
    and inputs: "requester_public_inputs_from_intent c intent nonce round threshold = Inr (pub, commit)"
    and nonce': "length (rw_nonce w) = 32"
  shows "is_ok (requester_execute nr art pub w) \<longleftrightarrow> threshold \<le> rw_budget_cents w \<and>
    (w = requester_committed intent nonce \<or>
     requester_circuit_preimage pub w \<noteq> requester_circuit_preimage pub (requester_committed intent nonce) \<and>
     blake2s c (requester_circuit_preimage pub w) =
       blake2s c (requester_circuit_preimage pub (requester_committed intent nonce)))"
proof -
  have "blake_ok c" using assms(1) by (simp add: requester_backend_def)
  from requester_execute_iff [OF assms] requester_witness_unique [OF hon this inputs nonce']
  show ?thesis by metis
qed

lemma provider_circuit_accepts:
  assumes "provider_backend c nr un art" and hon: "provider_honest intent nonce"
    and inputs: "provider_public_inputs_from_intent c intent nonce round threshold = Inr (pub, commit)"
    and nonce': "length (pw_nonce w) = 32"
  shows "is_ok (provider_execute nr art pub w) \<longleftrightarrow> pw_reservation_cents w \<le> threshold \<and>
    (w = provider_committed intent nonce \<or>
     provider_circuit_preimage pub w \<noteq> provider_circuit_preimage pub (provider_committed intent nonce) \<and>
     blake2s c (provider_circuit_preimage pub w) =
       blake2s c (provider_circuit_preimage pub (provider_committed intent nonce)))"
proof -
  have "blake_ok c" using assms(1) by (simp add: provider_backend_def)
  from provider_execute_iff [OF assms] provider_witness_unique [OF hon this inputs nonce']
  show ?thesis by metis
qed

text \<open>The provider circuit does not look at the bytes of a slot beyond the claim count.\<close>

lemma unused_slot_free:
  assumes "n \<le> word_of_nat i"
  shows "provider_main blake round node commit (bss[i := bs]) lens n threshold reservation nonce =
    provider_main blake round node commit bss lens n threshold reservation nonce"
proof -
  have "noir_write_slot (bss[i := bs]) lens n j big = noir_write_slot bss lens n j big" for j big
    using assms by (cases "j = i") (simp_all add: noir_write_slot_def Let_def leD)
  then have "noir_write_slot (bss[i := bs]) lens n = noir_write_slot bss lens n" by (intro ext)
  then show ?thesis by (simp add: provider_main_def noir_provider_preimage_def)
qed

end
