(* ===== verification/Cli.thy ===== *)
theory Cli
  imports Orchestrator
begin

text \<open>
  The command line of \<open>vertex-veil-agents\<close> (\<open>lib.rs\<close>) and its dispatch (\<open>main.rs\<close>): the
  subcommands with the defaults of their options, and the exit code each ends with. Parsing the
  argument vector is clap's; its result, an option per flag, is where the model starts.
\<close>

section \<open>The subcommands\<close>

datatype command =
  CmdDemo demo_args
| CmdVerify string
| CmdNode node_args
| CmdDemoBft orch_args

definition demo_command ::
  "string \<Rightarrow> string option \<Rightarrow> string option \<Rightarrow> string \<Rightarrow> u64 option \<Rightarrow> string option \<Rightarrow> bool \<Rightarrow> command" where
  "demo_command topology private_intents scenario artifacts max_rounds run_id force =
     CmdDemo \<lparr>da_topology = topology, da_private_intents = private_intents, da_scenario = scenario,
       da_artifacts = artifacts, da_max_rounds = case_option 4 id max_rounds,
       da_run_id = case_option ''veil-demo'' id run_id, da_force = force\<rparr>"

definition demo_bft_command ::
  "string option \<Rightarrow> string option \<Rightarrow> string option \<Rightarrow> string option \<Rightarrow> 16 word option \<Rightarrow> u64 option \<Rightarrow>
     u64 option \<Rightarrow> string option \<Rightarrow> u64 option \<Rightarrow> string option \<Rightarrow> u64 option \<Rightarrow> command" where
  "demo_bft_command topology private_intents scenario artifacts base_port fail_at_round
       rejoin_after_ms fail_target max_rounds run_id poll_timeout_ms =
     CmdDemoBft \<lparr>oa_topology = case_option ''fixtures/topology-4node.toml'' id topology,
       oa_private_intents = case_option ''fixtures/topology-4node.private.toml'' id private_intents,
       oa_scenario = scenario, oa_artifacts = case_option ''artifacts/bft'' id artifacts,
       oa_base_port = case_option 9000 id base_port, oa_fail_at_round = fail_at_round,
       oa_rejoin_after_ms = rejoin_after_ms, oa_fail_target = fail_target,
       oa_max_rounds = case_option 4 id max_rounds, oa_run_id = case_option ''veil-bft'' id run_id,
       oa_poll_timeout_ms = case_option 500 id poll_timeout_ms, oa_binary = None\<rparr>"

definition node_command ::
  "string \<Rightarrow> string list \<Rightarrow> string \<Rightarrow> string option \<Rightarrow> string \<Rightarrow> string \<Rightarrow> string option \<Rightarrow> string \<Rightarrow>
     u64 option \<Rightarrow> string option \<Rightarrow> bool \<Rightarrow> bool \<Rightarrow> u64 option \<Rightarrow> u64 option \<Rightarrow> string option \<Rightarrow>
     string option \<Rightarrow> command" where
  "node_command bind peers node_id node_alias topology private_intents scenario artifacts max_rounds
       run_id rejoin persist persist_sleep_ms poll_timeout_ms secret_env secret_str =
     CmdNode \<lparr>na_bind = bind, na_peers = peers, na_node_id = node_id, na_node_alias = node_alias,
       na_topology = topology, na_private_intents = private_intents, na_scenario = scenario,
       na_artifacts = artifacts, na_max_rounds = case_option 4 id max_rounds,
       na_run_id = case_option ''veil-bft'' id run_id, na_rejoin = rejoin, na_persist = persist,
       na_persist_sleep_ms = case_option 1000 id persist_sleep_ms,
       na_poll_timeout_ms = case_option 500 id poll_timeout_ms,
       na_secret_env = secret_env, na_secret_str = secret_str\<rparr>"

section \<open>Exit codes\<close>

text \<open>
  A process ends with a code, dies of a panic, or stays up. An error of a command is printed by
  \<open>main\<close>, which then returns 1.
\<close>

datatype exit_status = Exit nat | Panicked string | Running

fun fault_exit :: "'e command_fault \<Rightarrow> exit_status" where
  "fault_exit (CmdErr _) = Exit 1"
| "fault_exit (CmdPanic s) = Panicked s"
| "fault_exit CmdHangs = Running"

definition run_exit :: "bool \<Rightarrow> bool \<Rightarrow> exit_status" where
  "run_exit valid finalized = (if \<not> valid then Exit 1 else if \<not> finalized then Exit 2 else Exit 0)"

definition orch_exit :: "orch_result \<Rightarrow> exit_status" where
  "orch_exit r =
     (if \<not> or_overall_ok r then Exit 1
      else if or_children_finalized r = 0 \<and> or_children_aborted r > 0 then Exit 2
      else Exit 0)"

definition dispatch_demo :: "crates \<Rightarrow> json \<Rightarrow> toml \<Rightarrow> demo_args \<Rightarrow> fs \<Rightarrow> exit_status \<times> fs" where
  "dispatch_demo c j tm args h =
     (case demo c j tm args h of
        (Inl e, h) \<Rightarrow> (fault_exit e, h)
      | (Inr result, h) \<Rightarrow> (run_exit (vr_valid (dr_report result)) (dr_finalized result), h))"

definition dispatch_verify :: "crates \<Rightarrow> json \<Rightarrow> toml \<Rightarrow> string \<Rightarrow> fs \<Rightarrow> exit_status \<times> fs" where
  "dispatch_verify c j tm artifacts h =
     (case verify c j tm artifacts h of
        (Inl e, h) \<Rightarrow> (fault_exit e, h)
      | (Inr report, h) \<Rightarrow> (if \<not> vr_valid report then Exit 1 else Exit 0, h))"

definition dispatch_node ::
  "crates \<Rightarrow> json \<Rightarrow> toml \<Rightarrow> (coordination_message \<Rightarrow> bytes option) \<Rightarrow> (string \<rightharpoonup> string) \<Rightarrow>
     (vertex_config \<Rightarrow> string + vertex_transport) \<Rightarrow> nat \<Rightarrow> nat \<Rightarrow> node_args \<Rightarrow> fs \<Rightarrow> exit_status \<times> fs" where
  "dispatch_node c j tm to_vec env start boot turns args h =
     (case run_node c j tm to_vec env start boot turns args h of
        (None, h) \<Rightarrow> (Running, h)
      | (Some (Inl e), h) \<Rightarrow> (fault_exit e, h)
      | (Some (Inr result), h) \<Rightarrow> (run_exit (vr_valid (nr_report result)) (nr_finalized result), h))"

definition dispatch_demo_bft ::
  "crates \<Rightarrow> toml \<Rightarrow> (nat \<Rightarrow> string \<times> string) \<Rightarrow> (string \<Rightarrow> jvalue option) \<Rightarrow> (string \<Rightarrow> string option) \<Rightarrow>
     nat \<Rightarrow> orch_turn list \<Rightarrow> fs \<Rightarrow> orch_args \<Rightarrow> fs \<Rightarrow> exit_status" where
  "dispatch_demo_bft c tm keys parse spawns now turns h' args h =
     (case run_orchestrator c tm keys parse spawns now turns h' args h of
        None \<Rightarrow> Running
      | Some (Inl (OrchErr _)) \<Rightarrow> Exit 1
      | Some (Inl (OrchPanic s)) \<Rightarrow> Panicked s
      | Some (Inr r) \<Rightarrow> orch_exit r)"

section \<open>What an exit code says\<close>

lemma verify_log_valid: "vr_valid (verify_log c t l) \<longleftrightarrow> verify_reasons c t l = []"
  by (simp add: verify_log_def Let_def)

text \<open>Once it has its inputs, the demo fails at most with an error value.\<close>

definition plain_errors :: "('e command_fault, 'a) io \<Rightarrow> bool" where
  "plain_errors m \<longleftrightarrow> (\<forall>h e h'. m h = (Inl e, h') \<longrightarrow> (\<exists>x. e = CmdErr x))"

named_theorems plain_intros

lemma plain_then [plain_intros]:
  "plain_errors m \<Longrightarrow> (\<And>x. plain_errors (f x)) \<Longrightarrow> plain_errors (io_then m f)"
  unfolding plain_errors_def io_then_def by (fastforce split: prod.splits sum.splits)

lemma plain_leaves [plain_intros]:
  "plain_errors (io_return x)" "plain_errors (art m)" "plain_errors (read_source p)"
  "plain_errors (io_map_err CmdErr m')" "plain_errors (io_map_err (\<lambda>s. CmdErr (k s)) m'')"
  "plain_errors (io_get (\<lambda>h. Inr (g h)))"
  by (auto simp: plain_errors_def io_return_def art_def io_map_err_def io_get_def read_source_def
      map_sum_def split: prod.splits sum.splits)

lemma plain_demo_write: "plain_errors (demo_write c j args t out w)"
  unfolding demo_write_def Let_def
  by (intro plain_intros; cases "da_scenario args"; simp add: plain_intros)

lemma demo_load_agents:
  assumes "demo_load c tm args h = Inr (t, agents, sc)"
  obtains rb where "load_bundle c t rb = Inr agents"
proof -
  have "\<exists>p. private_load (read_text h) (toml_bundle tm) c p t = Inr agents"
    using assms by (auto simp: demo_load_def Let_def split: sum.split_asm pi_fault.split_asm)
  then show thesis
    using that by (auto simp: private_load_def private_from_toml_str_def split: if_splits sum.splits)
qed

lemma demo_load_wf:
  assumes "hex_ok c" "demo_load c tm args h = Inr (t, agents, sc)"
  shows "topology_wf c t"
proof -
  from assms(2) obtain s where "topology_from_toml_str (toml_topology tm) parse_redact c s = Inr t"
    by (rule demo_load_topology)
  then show ?thesis
    using topology_from_raw_wf [OF assms(1)] by (auto simp: topology_from_toml_str_def split: sum.splits)
qed

text \<open>A demo over inputs that load, within the commitment layout and with the seeds its topology
  asks for: it does not panic, it returns, and its verifier has nothing to say.\<close>

lemma demo_run_accepted:
  assumes ok: "crates_ok c" and load: "demo_load c tm args h = Inr (t, agents, sc)"
    and cm: "committable t" and pair: "keys_paired t agents"
  shows "(\<exists>e. demo_run c args t agents sc = Inl (CmdErr e)) \<or>
    (\<exists>out. demo_run c args t agents sc = Inr out \<and> verify_reasons c t (ro_log out) = [])"
proof -
  have h: "hex_ok c" using ok by (simp add: crates_ok_def)
  note wf = demo_load_wf [OF h load]
  from load obtain rb where "load_bundle c t rb = Inr agents" by (rule demo_load_agents)
  note ag = loaded_agents_ok [OF h wf cm this pair]
  show ?thesis
  proof (cases "runtime_new c t bus_new agents sc (da_max_rounds args)")
    case (Inr rt)
    obtain out where "run c bus_ops (da_run_id args) (with_run_salt (rt_run_salt rt) rt) = Some (Inr out)"
      using bus_run_total [OF ok wf ag Inr] by blast
    with bus_run_valid [OF ok wf ag Inr this] Inr show ?thesis
      by (simp add: demo_run_def with_run_salt_def)
  qed (simp add: demo_run_def)
qed

lemma demo_open_plain:
  assumes "length (fs_nodes h) < 2 ^ 64 - 1" "demo_open args h = (Inl e, h')"
  shows "\<exists>x. e = CmdErr x"
proof (cases "da_force args")
  case True
  have "plain_errors (demo_open args)"
    using True unfolding demo_open_def by (simp, intro plain_intros)
  with assms(2) show ?thesis unfolding plain_errors_def by blast
next
  case False
  obtain r where "open_versioned (da_artifacts args) h = Some r"
    using open_versioned_returns [OF assms(1)] by blast
  with False assms(2) have "art (\<lambda>_. r) h = (Inl e, h')" by (simp add: demo_open_def)
  then show ?thesis using plain_leaves(2) unfolding plain_errors_def by blast
qed

lemma demo_exit:
  assumes ok: "crates_ok c" and load: "demo_load c tm args h = Inr (t, agents, sc)"
    and cm: "committable t" and pair: "keys_paired t agents" and size: "length (fs_nodes h) < 2 ^ 64 - 1"
  shows "(\<exists>e h'. demo c j tm args h = (Inl (CmdErr e), h')) \<and> fst (dispatch_demo c j tm args h) = Exit 1 \<or>
    (\<exists>r h'. demo c j tm args h = (Inr r, h') \<and> vr_valid (dr_report r) \<and>
       fst (dispatch_demo c j tm args h) = (if dr_finalized r then Exit 0 else Exit 2))"
proof (cases "demo_run c args t agents sc")
  case (Inl e)
  then show ?thesis
    using demo_run_accepted [OF ok load cm pair]
    by (auto simp: demo_def io_then_def io_get_def load dispatch_demo_def)
next
  case (Inr out)
  have valid: "vr_valid (verify_log c t (ro_log out))"
    unfolding verify_log_valid using demo_run_accepted [OF ok load cm pair] Inr by simp
  note steps = demo_def io_then_def io_get_def io_return_def load Inr dispatch_demo_def
  obtain o1 h1 where op: "demo_open args h = (o1, h1)" by force
  show ?thesis
  proof (cases o1)
    case (Inl e)
    with demo_open_plain [OF size] op show ?thesis by (fastforce simp: steps)
  next
    case (Inr wp)
    obtain w p where wp: "wp = (w, p)" by force
    obtain r2 h2 where wr: "demo_write c j args t out w h1 = (r2, h2)" by force
    show ?thesis
    proof (cases r2)
      case (Inl e)
      with plain_demo_write wr op Inr wp show ?thesis
        unfolding plain_errors_def by (fastforce simp: steps)
    next
      case (Inr rep)
      then have "rep = verify_log c t (ro_log out)"
        using wr unfolding demo_write_def Let_def by (auto simp: io_return_def)
      with wr op Inr wp \<open>o1 = Inr wp\<close> valid show ?thesis by (auto simp: steps run_exit_def)
    qed
  qed
qed

text \<open>A bundle whose demo did not fail verifies.\<close>

lemma demo_then_verify:
  assumes "json_ok j" "hex_ok c" "fs_wf h" "\<not> prefix (fs_key h (da_artifacts args)) (fs_key h (da_topology args))"
    and d: "dispatch_demo c j tm args h = (Exit n, h')" "n \<noteq> 1"
  shows "fst (dispatch_verify c j tm (da_artifacts args) h') = Exit 0"
proof -
  obtain r where r: "demo c j tm args h = (Inr r, h')" "vr_valid (dr_report r)"
  proof (cases "demo c j tm args h")
    case (Pair r h1)
    show thesis
    proof (cases r)
      case (Inl e)
      with d Pair show thesis by (cases e) (auto simp: dispatch_demo_def)
    next
      case (Inr x)
      with d Pair that show thesis by (auto simp: dispatch_demo_def run_exit_def split: if_splits)
    qed
  qed
  from demo_verify_same [OF assms(1-4) r(1)] r(2) show ?thesis by (auto simp: dispatch_verify_def)
qed

end
