(* ===== verification/Demo_Success.thy ===== *)
theory Demo_Success
  imports Cli
begin

text \<open>
  When a command succeeds: writing a bundle needs no more than a directory whose seven names can
  be written and source files that can still be read.
\<close>

text \<open>An io step that succeeds from \<open>h\<close>, re-establishing \<open>Q\<close>.\<close>

definition succeeds :: "(fs \<Rightarrow> bool) \<Rightarrow> ('e, 'a) io \<Rightarrow> fs \<Rightarrow> bool" where
  "succeeds Q m h \<longleftrightarrow> (\<exists>x h'. m h = (Inr x, h') \<and> Q h')"

named_theorems success_intros

lemma succeeds_then [success_intros]:
  "succeeds Q m h \<Longrightarrow> (\<And>x h'. Q h' \<Longrightarrow> succeeds Q (k x) h') \<Longrightarrow> succeeds Q (io_then m k) h"
  by (fastforce simp: succeeds_def)

lemma succeeds_leaves [success_intros]:
  "Q h \<Longrightarrow> succeeds Q (io_return x) h"
  "Q h \<Longrightarrow> succeeds Q (io_get (\<lambda>h. Inr (g h))) h"
  "succeeds Q m h \<Longrightarrow> succeeds Q (io_map_err f m) h"
  by (simp_all add: succeeds_def)

text \<open>A directory whose bundle names can be written, and the texts of the two sources.\<close>

definition bundle_ready :: "string \<Rightarrow> (string \<times> string) list \<Rightarrow> fs \<Rightarrow> bool" where
  "bundle_ready d sources h \<longleftrightarrow> d \<noteq> [] \<and> fs_lookup h (fs_key h d) = Some FDir \<and>
     (\<forall>n \<in> set OWNED_FILES. fs_lookup h (fs_key h d @ [n]) \<noteq> Some FDir \<and>
        fs_key h d @ [n] \<notin> set (fs_denied h)) \<and>
     (\<forall>(p, s) \<in> set sources. fs_read_to_string h p = Inr s \<and> \<not> prefix (fs_key h d) (fs_key h p))"

lemma owned_plain: "n \<in> set OWNED_FILES \<Longrightarrow> plain_name n"
  by (auto simp: OWNED_FILES_def)

lemma ready_put:
  assumes "bundle_ready d sources h" "n \<in> set OWNED_FILES"
  shows "bundle_ready d sources (fs_put (fs_key h d @ [n]) (FFile s) h)"
proof -
  have "fs_read_to_string (fs_put (fs_key h d @ [n]) (FFile s) h) p = fs_read_to_string h p"
    if "\<not> prefix (fs_key h d) (fs_key h p)" "\<exists>x. fs_read_to_string h p = Inr x" for p
    using that
    by (auto simp: fs_read_to_string_def lookup_put split: if_splits option.splits fnode.splits)
  with assms show ?thesis by (fastforce simp: bundle_ready_def lookup_put)
qed

lemma ready_write:
  assumes "bundle_ready d sources h" "n \<in> set OWNED_FILES"
  shows "succeeds (bundle_ready d sources) (fs_write (path_join d n) s) h"
proof -
  have "fs_write (path_join d n) s h = (Inr (), fs_put (fs_key h d @ [n]) (FFile s) h)"
    using assms owned_plain [OF assms(2)] by (simp add: fs_write_Inr bundle_ready_def)
  with ready_put [OF assms] show ?thesis by (auto simp: succeeds_def)
qed

lemma ready_read:
  "bundle_ready d sources h \<Longrightarrow> (p, s) \<in> set sources \<Longrightarrow>
     succeeds (bundle_ready d sources) (read_source p) h"
  by (auto simp: succeeds_def read_source_def io_get_def bundle_ready_def)

lemma ready_steps:
  assumes "json_writes j" "aw_dir w = d" "bundle_ready d sources h"
  shows "succeeds (bundle_ready d sources) (write_verifier_report j w report) h"
    "succeeds (bundle_ready d sources) (write_run_status j w status) h"
    "succeeds (bundle_ready d sources) (write_receipt_copy j w receipt) h"
    "succeeds (bundle_ready d sources) (write_bundle_readme w body) h"
    "\<not> fs_exists h (path_join d ''coordination_log.json'') \<Longrightarrow>
       succeeds (bundle_ready d sources) (write_coordination_log j w log) h"
proof -
  let ?Q = "bundle_ready d sources"
  have wr: "succeeds ?Q (io_then (write_file (path_join d n) s) (\<lambda>_. io_return out)) h"
    if "n \<in> set OWNED_FILES" for n s and out :: 'x
    unfolding write_file_def by (intro success_intros ready_write [OF assms(3) that])
  have names: "''verifier_report.json'' \<in> set OWNED_FILES" "''run_status.json'' \<in> set OWNED_FILES"
    "''completion_receipt.json'' \<in> set OWNED_FILES" "''bundle_README.md'' \<in> set OWNED_FILES"
    "''coordination_log.json'' \<in> set OWNED_FILES"
    by (simp_all add: OWNED_FILES_def)
  obtain a b l where texts: "json_report j report = Inr a" "json_status j status = Inr b" "json_log j log = Inr l"
    using assms(1) unfolding json_writes_def is_ok_iff by metis
  have receipts: "\<exists>s. json_receipt j r = Inr s" for r
    using assms(1) by (auto simp: json_writes_def is_ok_iff)
  show "succeeds ?Q (write_verifier_report j w report) h" "succeeds ?Q (write_run_status j w status) h"
    "succeeds ?Q (write_bundle_readme w body) h"
    by (simp_all add: write_verifier_report_def write_run_status_def write_bundle_readme_def Let_def
        texts assms(2) wr names)
  show "succeeds ?Q (write_receipt_copy j w receipt) h"
  proof (cases receipt)
    case None
    then show ?thesis using assms(3) by (simp add: write_receipt_copy_def success_intros)
  next
    case (Some r)
    obtain s where "json_receipt j r = Inr s" using receipts by blast
    then show ?thesis by (simp add: write_receipt_copy_def Let_def Some assms(2) wr names)
  qed
  show "succeeds ?Q (write_coordination_log j w log) h"
    if "\<not> fs_exists h (path_join d ''coordination_log.json'')"
    using that ready_write [OF assms(3) names(5), of l]
    by (simp add: succeeds_def write_coordination_log_def Let_def assms(2) texts(3))
qed

definition demo_sources :: "demo_args \<Rightarrow> string \<Rightarrow> string \<Rightarrow> (string \<times> string) list" where
  "demo_sources args topo scn =
     (da_topology args, topo) # (case da_scenario args of None \<Rightarrow> [] | Some p \<Rightarrow> [(p, scn)])"

lemma demo_write_succeeds:
  assumes j: "json_writes j" and w: "aw_dir w = d" and ready: "bundle_ready d (demo_sources args topo scn) h"
    and fresh: "\<not> fs_exists h (path_join d ''coordination_log.json'')"
  shows "\<exists>report h'. demo_write c j args t out w h = (Inr report, h')"
proof -
  let ?Q = "bundle_ready d (demo_sources args topo scn)"
  have copies: "succeeds ?Q (persist_text_copy d n s) h" if "?Q h" "n \<in> set OWNED_FILES" for n s h
    using ready_write [OF that] by (simp add: persist_text_copy_def success_intros)
  have reads: "succeeds ?Q (read_source (da_topology args)) h"
    "da_scenario args = Some p \<Longrightarrow> succeeds ?Q (read_source p) h" if "?Q h" for p h
    using ready_read [OF that, of "da_topology args" topo] ready_read [OF that, of p scn]
    by (auto simp: demo_sources_def)
  have names: "''topology.toml'' \<in> set OWNED_FILES" "''scenario.toml'' \<in> set OWNED_FILES"
    by (simp_all add: OWNED_FILES_def)
  have "succeeds ?Q (demo_write c j args t out w) h"
    unfolding demo_write_def Let_def art_def w
    by (intro success_intros)
      (cases "da_scenario args"; simp add: names fresh ready reads copies success_intros ready_steps [OF j w])+
  then show ?thesis by (auto simp: succeeds_def)
qed

end
