(* ===== verification/Samples_Agents.thy ===== *)
theory Samples_Agents
  imports Samples Sample_Json Noir_Soundness Demo_Success
begin

text \<open>
  The deployment of \<open>Samples\<close> as files on a disk, with an artifact directory that already holds
  an older bundle and a file of the user's: the commands' properties are instantiated on it.
  Nothing general is proved from it.
\<close>

section \<open>The disk\<close>

definition sample_toml :: toml where
  "sample_toml =
     \<lparr>toml_topology = (\<lambda>s. if s = ''T'' then Inr (topology_to_raw sample_crates (demo_topology sample_crates))
        else Inl ''bad''),
      toml_bundle = (\<lambda>s. if s = ''B'' then Inr demo_bundle else Inl ''bad''),
      toml_scenario = (\<lambda>s. if s = ''S'' then Inr demo_scenario else Inl ''bad'')\<rparr>"

definition sample_fs :: fs where
  "sample_fs =
     \<lparr>fs_nodes =
        [([''c''], FDir), ([''c'', ''t.toml''], FFile ''T''), ([''c'', ''t.private.toml''], FFile ''B''),
         ([''c'', ''s.toml''], FFile ''S''),
         ([''o''], FDir), ([''o'', ''notes''], FFile ''N''), ([''o'', ''coordination_log.json''], FFile ''L'')],
      fs_cwd = [], fs_denied = []\<rparr>"

definition sample_args :: "bool \<Rightarrow> demo_args" where
  "sample_args force =
     \<lparr>da_topology = ''c/t.toml'', da_private_intents = None, da_scenario = Some ''c/s.toml'',
      da_artifacts = ''o'', da_max_rounds = 4, da_run_id = ''demo'', da_force = force\<rparr>"

lemma sample_fs_wf: "fs_wf sample_fs"
  by (auto simp: fs_wf_def sample_fs_def fs_lookup_def)

lemma sample_paths:
  "default_private_path ''c/t.toml'' = ''c/t.private.toml''"
  "path_components ''c/t.toml'' = [Normal ''c'', Normal ''t.toml'']"
  "path_components ''c/s.toml'' = [Normal ''c'', Normal ''s.toml'']"
  "path_components ''c/t.private.toml'' = [Normal ''c'', Normal ''t.private.toml'']"
  "path_components ''o'' = [Normal ''o'']"
  by code_simp+

lemma sample_reads:
  "fs_read_to_string sample_fs ''c/t.toml'' = Inr ''T''"
  "fs_read_to_string sample_fs ''c/s.toml'' = Inr ''S''"
  "fs_read_to_string sample_fs ''c/t.private.toml'' = Inr ''B''"
  by (simp_all add: fs_read_to_string_def fs_key_def resolve_def sample_paths fs_lookup_def sample_fs_def)

lemma sample_no_parent:
  "\<not> has_parent_dir ''c/t.toml''" "\<not> has_parent_dir ''c/s.toml''" "\<not> has_parent_dir ''c/t.private.toml''"
  by (simp_all add: has_parent_dir_components sample_paths)

lemma sample_demo_load:
  "demo_load sample_crates sample_toml (sample_args force) sample_fs =
     Inr (demo_topology sample_crates, demo_agents, demo_scenario)"
  by (simp add: demo_load_def sample_args_def topology_load_def validate_path_safe_def read_text_def
      sample_reads sample_no_parent topology_from_toml_str_def sample_toml_def demo_topology_loads
      sample_paths private_load_def private_from_toml_str_def demo_bundle_loads scenario_load_def
      scenario_from_toml_str_def demo_scenario_def Let_def)

lemma sample_demo_run:
  obtains out where "demo_run sample_crates (sample_args force) (demo_topology sample_crates) demo_agents
    demo_scenario = Inr out"
proof -
  obtain out where "run sample_crates bus_ops ''demo''
      (with_run_salt (rt_run_salt (demo_runtime demo_scenario)) (demo_runtime demo_scenario)) = Some (Inr out)"
    using bus_run_total [OF sample_crates_ok demo_topology_wf [OF sample_crates_parts(3)]
      demo_agents_ok demo_runtime_new] by blast
  then have "demo_run sample_crates (sample_args force) (demo_topology sample_crates) demo_agents
    demo_scenario = Inr out"
    by (simp add: demo_run_def sample_args_def demo_runtime_new with_run_salt_def)
  then show thesis by (rule that)
qed

section \<open>The artifact directory\<close>

text \<open>What opening the directory leaves, with and without \<open>--force\<close>.\<close>

definition opened_fs :: "bool \<Rightarrow> fs" where
  "opened_fs force =
     sample_fs\<lparr>fs_nodes :=
       [([''c''], FDir), ([''c'', ''t.toml''], FFile ''T''), ([''c'', ''t.private.toml''], FFile ''B''),
        ([''c'', ''s.toml''], FFile ''S'')] @
       (if force then [([''o''], FDir), ([''o'', ''notes''], FFile ''N'')]
        else [([''o.prev-1''], FDir), ([''o.prev-1'', ''notes''], FFile ''N''),
              ([''o.prev-1'', ''coordination_log.json''], FFile ''L''), ([''o''], FDir)])\<rparr>"

lemma sample_dir: "fs_key h ''o'' = fs_cwd h @ [''o'']"
  by (simp add: fs_key_def resolve_def sample_paths)

lemma trim_plain:
  assumes "s \<noteq> []" "list_all (\<lambda>w. hd w \<noteq> hd s \<and> last w \<noteq> last s) white_space"
  shows "trim s = s"
proof -
  have "hd (rev w) = last w" if "w \<in> set white_space" for w
    using that by (auto simp: white_space_def hd_rev)
  then have "strip_one white_space s = None" "strip_one (map rev white_space) (rev s) = None"
    using assms by (auto intro!: strip_one_None simp: list_all_iff hd_rev)
  then show ?thesis
    by (simp add: trim_def strip_all.simps [of white_space] strip_all.simps [of "map rev white_space"])
qed

lemma sample_trim: "trim ''o'' = ''o''" "trim ''n1'' = ''n1''"
  by (rule trim_plain; simp add: white_space_def char_of_eq_iff)+

lemma sample_valid: "validate_output_path ''o'' = Inr ()"
  by (simp add: validate_output_path_def sample_paths sample_trim)

lemma sample_open_forced:
  "demo_open (sample_args True) sample_fs = (Inr (\<lparr>aw_dir = ''o''\<rparr>, None), opened_fs True)"
  by (simp add: demo_open_def sample_args_def art_def io_map_err_def io_then_def writer_new_def io_get_def
      sample_valid fs_exists_def fs_is_dir_def sample_dir force_clean_owned_files_def OWNED_FILES_def
      fs_remove_file_def fs_lookup_def fs_del_def sample_fs_def opened_fs_def io_return_def Let_def
      fs_key_join plain_name_def)

lemma sample_prev: "prev_name ''o'' 1 = ''o.prev-1''" "path_parent ''o'' = Some []" "path_file_name ''o'' = Some ''o''"
  "path_components ''o.prev-1'' = [Normal ''o.prev-1'']"
  by code_simp+

lemma sample_open_rotates:
  "demo_open (sample_args False) sample_fs =
     (Inr (\<lparr>aw_dir = ''o''\<rparr>, Some ''o.prev-1''), opened_fs False)"
  by (simp add: demo_open_def sample_args_def art_def io_map_err_def io_then_def open_versioned_def
      sample_valid fs_exists_def fs_is_dir_def sample_dir rotate_existing_def fs_read_dir_def fs_children_def
      sample_prev free_target.simps path_join_def fs_key_def resolve_def sample_paths rotate_into_def
      fs_rename_def fs_create_dir_all_def ancestors_def fs_move_def move_key_def fs_put_def
      fs_del_def fs_lookup_def sample_fs_def opened_fs_def io_return_def Let_def plain_name_def)

lemma sample_keys:
  "fs_key h ''c/t.toml'' = fs_cwd h @ [''c'', ''t.toml'']" "fs_key h ''c/s.toml'' = fs_cwd h @ [''c'', ''s.toml'']"
  by (simp_all add: fs_key_def resolve_def sample_paths)

lemma sample_ready: "bundle_ready ''o'' (demo_sources (sample_args force) ''T'' ''S'') (opened_fs force)"
  by (cases force) (simp_all add: bundle_ready_def demo_sources_def sample_args_def sample_dir sample_keys
      opened_fs_def sample_fs_def fs_lookup_def fs_read_to_string_def OWNED_FILES_def)

lemma sample_demo_returns:
  "\<exists>r h'. demo sample_crates sample_json sample_toml (sample_args force) sample_fs = (Inr r, h')"
proof -
  obtain out where out: "demo_run sample_crates (sample_args force) (demo_topology sample_crates) demo_agents
      demo_scenario = Inr out"
    by (rule sample_demo_run)
  have fresh: "\<not> fs_exists (opened_fs force) (path_join ''o'' ''coordination_log.json'')"
    by (cases force) (simp_all add: fs_exists_def sample_dir opened_fs_def sample_fs_def fs_lookup_def)
  obtain report h' where "demo_write sample_crates sample_json (sample_args force)
      (demo_topology sample_crates) out \<lparr>aw_dir = ''o''\<rparr> (opened_fs force) = (Inr report, h')"
    using demo_write_succeeds [OF json_ok_writes [OF sample_json_ok] _ sample_ready fresh] by force
  with out show ?thesis
    by (cases force) (auto simp: demo_def io_then_def io_get_def io_return_def sample_demo_load
        sample_open_forced sample_open_rotates)
qed

lemma sample_apart: "\<not> prefix (fs_key sample_fs (da_artifacts (sample_args force)))
    (fs_key sample_fs (da_topology (sample_args force)))"
  by (simp add: sample_args_def sample_dir sample_keys sample_fs_def)

section \<open>A circuit backend\<close>

text \<open>An executor that decides the assertions of \<open>main\<close>; field elements are numbers.\<close>

definition sample_noir :: "(nat, unit) noir_rs" where
  "sample_noir =
     \<lparr>nr_field = id,
      nr_execute = (\<lambda>bytecode m.
        if (if bytecode = ''R'' then requester_abi_main sample_blake id m else provider_abi_main sample_blake id m)
        then Inr () else Inl ''Failed constraint''),
      nr_serialize = (\<lambda>_. Inr [])\<rparr>"

definition sample_artifact :: "string \<Rightarrow> unit circuit_artifact" where
  "sample_artifact code =
     \<lparr>ca_noir_version = ''1.0.0'', ca_hash = ''0'', ca_bytecode = code, ca_parameters = []\<rparr>"

lemma sample_backends:
  "requester_backend sample_crates sample_noir id (sample_artifact ''R'')"
  "provider_backend sample_crates sample_noir id (sample_artifact ''P'')"
proof -
  have b: "blake_ok sample_crates" "blake2s sample_crates = sample_blake"
    by (rule sample_crates_parts) (simp add: sample_crates_def)
  show "requester_backend sample_crates sample_noir id (sample_artifact ''R'')"
    "provider_backend sample_crates sample_noir id (sample_artifact ''P'')"
    by (simp_all add: requester_backend_def provider_backend_def b field_ok_def acvm_ok_def
        execute_circuit_def sample_noir_def sample_artifact_def)
qed

lemma demo_honest: "requester_honest demo_requester (replicate 32 7)" "provider_honest demo_signer (replicate 32 7)"
  by (simp_all add: requester_honest_def provider_honest_def demo_requester_def demo_signer_def
      requester_intent_new_def provider_intent_new_def provider_with_signing_def tag_bytes_def)

lemma demo_public_inputs:
  "\<exists>pub commit. requester_public_inputs_from_intent c demo_requester (replicate 32 7) 3 500 = Inr (pub, commit)"
  "\<exists>pub commit. provider_public_inputs_from_intent c demo_signer (replicate 32 7) 3 500 = Inr (pub, commit)"
  using demo_preimages
  by (auto simp: requester_public_inputs_from_intent_def provider_public_inputs_from_intent_def Let_def
      demo_requester_def demo_signer_def requester_intent_new_def provider_intent_new_def
      provider_with_signing_def tag_bytes_def commit_consts)

section \<open>A node\<close>

text \<open>A node over a transport on which nothing ever arrives.\<close>

definition idle_transport :: vertex_transport where
  "idle_transport = \<lparr>vt_sent = [], vt_accepts = 1, vt_polls = [], vt_pending = [], vt_closed = False\<rparr>"

definition sample_node_args :: node_args where
  "sample_node_args =
     \<lparr>na_bind = ''127.0.0.1:9000'', na_peers = [''pk@127.0.0.1:9001''],
      na_node_id = to_hex sample_crates (demo_id 0x11), na_node_alias = Some ''n1'',
      na_topology = ''c/t.toml'', na_private_intents = ''c/t.private.toml'', na_scenario = None,
      na_artifacts = ''o'', na_max_rounds = 0, na_run_id = ''r'', na_rejoin = False, na_persist = False,
      na_persist_sleep_ms = 1000, na_poll_timeout_ms = 500, na_secret_env = Some ''S'',
      na_secret_str = None\<rparr>"

definition sample_node_run :: "(node_error command_fault + node_result) option \<times> fs" where
  "sample_node_run = run_node sample_crates sample_json sample_toml (\<lambda>_. None) [''S'' \<mapsto> ''key'']
     (\<lambda>_. Inr idle_transport) 0 1 sample_node_args sample_fs"

lemma sample_node_setup:
  "node_setup sample_crates sample_toml [''S'' \<mapsto> ''key''] sample_node_args sample_fs =
     Inr (demo_topology sample_crates, ''n1'', [(demo_id 0x11, agent_requester demo_requester)], scenario_empty,
       \<lparr>vc_bind = ''127.0.0.1:9000'', vc_secret_hex = ''key'', vc_peers = [(''pk'', ''127.0.0.1:9001'')],
        vc_rejoin = False, vc_poll_timeout_ms = 500\<rparr>)"
proof -
  have "List.find (\<lambda>n. nc_id n = demo_id 0x11) (topo_nodes (demo_topology sample_crates)) \<noteq> None"
    by (simp add: demo_topology_def)
  then show ?thesis
    by (simp add: node_setup_def sample_node_args_def topology_load_def validate_path_safe_def read_text_def
      sample_reads sample_no_parent topology_from_toml_str_def sample_toml_def demo_topology_loads
      private_load_def private_from_toml_str_def demo_bundle_loads demo_node_ids node_alias_of_def
      demo_agents_def bt_get_def ok_or_def resolve_secret_def parse_peer_def Let_def)
qed

lemma sample_node_session:
  "\<exists>out. node_run sample_crates (\<lambda>_. None) 0 (demo_topology sample_crates)
     [(demo_id 0x11, agent_requester demo_requester)] scenario_empty ''r'' idle_transport =
       Inr (out, idle_transport)"
proof -
  obtain rt where rt: "runtime_new sample_crates (demo_topology sample_crates) idle_transport
      [(demo_id 0x11, agent_requester demo_requester)] scenario_empty 0 = Inr rt"
    "rt_max_rounds rt = 0" "rt_transport rt = idle_transport"
    by (auto simp: runtime_new_Inr demo_topology_def demo_node_def bt_keys_def)
  then show ?thesis
    by (simp add: node_run_def run_with_transport_def go_def close_run_def observe_def Let_def)
qed

lemma sample_persist:
  "\<exists>r h'. persist_node_bundle sample_crates sample_json ''o/n1'' t topo None al out sample_fs = (Inr r, h')"
proof -
  let ?h = "fs_put [''o'', ''n1''] FDir sample_fs"
  let ?Q = "bundle_ready ''o/n1'' []"
  have dir: "fs_key h ''o/n1'' = fs_cwd h @ [''o'', ''n1'']" for h
    using fs_key_join [of "''n1''" h "''o''"] by (simp add: plain_name_def path_join_def sample_dir)
  have valid: "validate_output_path ''o/n1'' = Inr ()"
    by (simp add: validate_output_path_def path_components_def segment_def map_filter_simps sample_trim)
  have new: "writer_new ''o/n1'' sample_fs = (Inr \<lparr>aw_dir = ''o/n1''\<rparr>, ?h)"
    by (simp add: writer_new_def valid io_then_def io_get_def io_map_err_def io_return_def fs_exists_def dir
        fs_create_dir_all_def ancestors_def fs_lookup_def sample_fs_def fs_put_def)
  have ready: "?Q ?h"
    by (simp add: bundle_ready_def dir lookup_put OWNED_FILES_def) (simp add: sample_fs_def fs_lookup_def)
  have fresh: "\<not> fs_exists ?h (path_join ''o/n1'' n)" if "n \<in> set OWNED_FILES" for n
    using that by (auto simp: fs_exists_def dir lookup_put owned_plain) (auto simp: sample_fs_def fs_lookup_def)
  have clean: "clean_owned_files ''o/n1'' ?h = (Inr (), ?h)"
    using fresh by (simp add: clean_owned_files_def force_clean_owned_files_def io_map_err_def OWNED_FILES_def)
  have names: "''topology.toml'' \<in> set OWNED_FILES" "''coordination_log.json'' \<in> set OWNED_FILES"
    by (simp_all add: OWNED_FILES_def)
  have wr: "succeeds ?Q (node_write (path_join ''o/n1'' ''topology.toml'') s) h" if "?Q h" for s h
    unfolding node_write_def by (intro success_intros ready_write [OF that names(1)])
  let ?w = "\<lparr>aw_dir = ''o/n1''\<rparr>"
  have "succeeds ?Q (\<lambda>h. io_then (node_art (write_coordination_log sample_json ?w (ro_log out))) (\<lambda>_.
     io_then (node_write (path_join ''o/n1'' ''topology.toml'') topo) (\<lambda>_.
     io_then (io_return ()) (\<lambda>_.
     io_then (node_art (write_verifier_report sample_json ?w (verify_log sample_crates t (ro_log out)))) (\<lambda>_.
     io_then (node_art (write_receipt_copy sample_json ?w (pick_final_receipt (ro_log out)))) (\<lambda>_.
     io_then (io_get (\<lambda>h. Inr (bundle_manifest h ''o/n1''))) (\<lambda>bundle_files.
     io_then (node_art (write_run_status sample_json ?w (run_status_of out bundle_files))) (\<lambda>_.
     io_then (node_art (write_bundle_readme ?w (render_node_readme (run_status_of out bundle_files) al))) (\<lambda>_.
     io_return (verify_log sample_crates t (ro_log out))))))))))h) ?h"
    unfolding node_art_def
    by (intro success_intros) (simp_all add: ready fresh names wr success_intros ready_steps [OF json_ok_writes [OF sample_json_ok]])
  then show ?thesis
    by (auto simp: persist_node_bundle_def succeeds_def io_then_def [of "node_art (writer_new _)"]
      io_then_def [of "clean_owned_files _"] node_art_def io_map_err_def new clean Let_def)
qed

definition sample_job :: node_job where
  "sample_job = \<lparr>nj_topology = demo_topology sample_crates, nj_topology_text = ''T'',
     nj_scenario = scenario_empty, nj_scenario_text = None, nj_alias = ''n1'',
     nj_agents = [(demo_id 0x11, agent_requester demo_requester)]\<rparr>"

lemma sample_session:
  "\<exists>res tr' h'. node_session sample_crates sample_json (\<lambda>_. None) sample_node_args sample_job 0
     idle_transport sample_fs = (Inr (res, tr'), h')"
proof -
  obtain out where out: "node_run sample_crates (\<lambda>_. None) 0 (demo_topology sample_crates)
     [(demo_id 0x11, agent_requester demo_requester)] scenario_empty ''r'' idle_transport =
       Inr (out, idle_transport)"
    using sample_node_session by blast
  obtain r h' where "persist_node_bundle sample_crates sample_json ''o/n1'' (demo_topology sample_crates)
      ''T'' None ''n1'' out sample_fs = (Inr r, h')"
    using sample_persist by blast
  moreover have "path_join ''o'' ''n1'' = ''o/n1''" by code_simp
  ultimately show ?thesis
    using out by (simp add: node_session_def io_then_def io_get_def io_return_def session_run_id_def
        sample_node_args_def sample_job_def Let_def)
qed

lemma sample_node_returns: "\<exists>res. fst sample_node_run = Some (Inr res)"
proof -
  have "read_text sample_fs ''c/t.toml'' = Inr ''T''" by (simp add: read_text_def sample_reads)
  moreover have "na_topology sample_node_args = ''c/t.toml''" "na_scenario sample_node_args = None"
    "\<not> na_persist sample_node_args" by (simp_all add: sample_node_args_def)
  ultimately show ?thesis
    using sample_session sample_node_setup
    by (auto simp: sample_node_run_def run_node_def bootstrap_wait_def sample_job_def Let_def)
qed

text \<open>What the TOML parser says of a budget that is not an integer.\<close>

definition sample_parse_lines :: "string list" where
  "sample_parse_lines = [''TOML parse error at line 5, column 16'', ''5 | budget_cents = 12.5'',
     ''invalid type: floating point `12.5`, expected u64'']"

definition sample_parse_error :: string where
  "sample_parse_error = join_with [CHR 0x0A] sample_parse_lines"

lemma sample_parse_redacted:
  "str_lines sample_parse_error = sample_parse_lines"
  "trim (sample_parse_lines ! 2) = sample_parse_lines ! 2"
  "parse_redact sample_parse_error = sample_parse_lines ! 0 @ '' '' @ sample_parse_lines ! 2"
  "double_quote \<notin> set (parse_redact sample_parse_error)" "single_quote \<notin> set (parse_redact sample_parse_error)"
proof -
  show lines: "str_lines sample_parse_error = sample_parse_lines" by code_simp
  show "trim (sample_parse_lines ! 2) = sample_parse_lines ! 2"
    by (rule trim_plain; simp add: sample_parse_lines_def white_space_def char_of_eq_iff)
  moreover have "trim (sample_parse_lines ! 0) = sample_parse_lines ! 0"
    by (rule trim_plain; simp add: sample_parse_lines_def white_space_def char_of_eq_iff)
  ultimately show red: "parse_redact sample_parse_error = sample_parse_lines ! 0 @ '' '' @ sample_parse_lines ! 2"
    unfolding parse_redact_def lines by (simp add: sample_parse_lines_def)
  show "double_quote \<notin> set (parse_redact sample_parse_error)"
    "single_quote \<notin> set (parse_redact sample_parse_error)"
    unfolding red by (simp_all add: sample_parse_lines_def double_quote_def single_quote_def char_of_eq_iff)
qed

text \<open>Two workers of one cluster, the second still behind, each with its own heartbeats.\<close>

definition worker_events :: "nat \<Rightarrow> worker_event list" where
  "worker_events n = take n
     [HeartbeatTick None, EngineReceived (Inr (Some (EngineEvent [HEARTBEAT_MARKER, [1]]))),
      EngineReceived (Inr (Some SyncPoint)), OutboundCommand (Some [2]) None,
      EngineReceived (Inr (Some (EngineEvent [[2], [3]])))]"

definition sample_wire :: "bytes \<Rightarrow> coordination_message option" where
  "sample_wire raw = (if raw = [1] then Some \<lparr>msg_origin = demo_id 0x11, msg_payload = PCommitment demo_commitment\<rparr>
     else if raw = [2] then Some \<lparr>msg_origin = demo_id 0x22, msg_payload = PCommitment (demo_claim 0x22)\<rparr>
     else None)"

section \<open>An orchestrated cluster\<close>

lemma sample_hex_plain: "CHR ''['' \<notin> set (to_hex sample_crates n)"
proof -
  have "list_all lower_hex (to_hex sample_crates n)"
    by (simp add: to_hex_def sample_crates_def sample_encode_lower)
  moreover have "\<not> lower_hex (CHR ''['')" by (simp add: lower_hex_def)
  ultimately show ?thesis by (auto simp: list_all_iff)
qed

lemma sample_fs_small: "length (fs_nodes sample_fs) < 2 ^ 64 - 1"
  by (simp add: sample_fs_def)

lemma sample_demo_exit:
  "\<exists>n h'. dispatch_demo sample_crates sample_json sample_toml (sample_args force) sample_fs = (Exit n, h') \<and> n \<noteq> 1"
proof -
  obtain r h' where r: "demo sample_crates sample_json sample_toml (sample_args force) sample_fs = (Inr r, h')"
    using sample_demo_returns by blast
  have "vr_valid (dr_report r)"
    using demo_exit [OF sample_crates_ok sample_demo_load [where force = force] demo_committable demo_keys_paired sample_fs_small,
        where j = sample_json] r by auto
  then show ?thesis by (simp add: dispatch_demo_def r run_exit_def)
qed

end
