(* ===== verification/Agreement.thy ===== *)
theory Agreement
  imports Bus_Run
begin

text \<open>
  What a run decides. The nodes of a deployment run the same \<open>CoordinationRuntime\<close> on
  different agents, scenarios and transports; the part of their state they have to agree on is
  the round machine and the log without its rejections (each node logs rejections of its own).
  \<open>replica\<close> is that part, and \<open>replica_outcome\<close> the abstract specification of a run: a
  deterministic state machine fed with the messages each phase of each round delivers. The
  runtime over any transport refines it, so nodes with the same deliveries decide the same.
\<close>

datatype phase = CommitPhase | ProposalPhase | ProofPhase | ReceiptPhase

type_synonym deliveries = "phase \<Rightarrow> coordination_message list"

record replica =
  rp_machine :: round_machine
  rp_log :: coordination_log

definition decisions :: "coordination_log \<Rightarrow> coordination_log" where
  "decisions l = l\<lparr>log_rejections := []\<rparr>"

definition replica_of :: "'t runtime \<Rightarrow> replica" where
  "replica_of rt = \<lparr>rp_machine = rt_round_machine rt, rp_log = decisions (rt_log rt)\<rparr>"

section \<open>The abstract machine\<close>

definition deliver ::
  "crates \<Rightarrow> round_id \<Rightarrow> phase \<Rightarrow> coordination_message \<Rightarrow> replica \<Rightarrow> replica" where
  "deliver c r ph msg rp =
     (case (ph, msg_payload msg) of
        (CommitPhase, PCommitment rec) \<Rightarrow>
          if msg_origin msg = cr_node_id rec \<and> is_ok (fst (accept_commitment rec (rp_machine rp)))
          then \<lparr>rp_machine = snd (accept_commitment rec (rp_machine rp)),
                rp_log = snd (append_commitment rec (rp_log rp))\<rparr>
          else rp
      | (ProposalPhase, PProposal p) \<Rightarrow>
          if msg_origin msg = pr_proposer p \<and> is_ok (fst (accept_proposal c p (rp_machine rp)))
          then \<lparr>rp_machine = snd (accept_proposal c p (rp_machine rp)),
                rp_log = append_proposal p (rp_log rp)\<rparr>
          else rp
      | (ProofPhase, PProof q) \<Rightarrow>
          if msg_origin msg = pf_node_id q \<and> pf_round q = r \<and>
             bt_contains (rm_commitments (rp_machine rp)) (pf_node_id q) \<and>
             extract_commitment_hash_hex c (pf_public_inputs_hex q) =
               map_option cr_commitment_hex
                 (bt_get (rm_commitments (rp_machine rp)) (pf_node_id q))
          then rp\<lparr>rp_log := append_proof q (rp_log rp)\<rparr>
          else rp
      | (ReceiptPhase, PReceipt x) \<Rightarrow>
          if msg_origin msg = rc_provider x \<and> rc_round x = r \<and> rc_signature_hex x \<noteq> []
          then rp\<lparr>rp_log := append_receipt x (rp_log rp)\<rparr>
          else rp
      | _ \<Rightarrow> rp)"

definition deliver_all ::
  "crates \<Rightarrow> round_id \<Rightarrow> phase \<Rightarrow> coordination_message list \<Rightarrow> replica \<Rightarrow> replica" where
  "deliver_all c r ph ms rp = foldl (\<lambda>rp m. deliver c r ph m rp) rp ms"

definition requester_heard :: "topology_config \<Rightarrow> replica \<Rightarrow> bool" where
  "requester_heard t rp =
     (case topo_requester t of
        None \<Rightarrow> False
      | Some cfg \<Rightarrow> bt_contains (rm_commitments (rp_machine rp)) (nc_id cfg))"

definition participants_proved :: "round_id \<Rightarrow> proposal_record \<Rightarrow> coordination_log \<Rightarrow> bool" where
  "participants_proved r p l \<longleftrightarrow>
     has_proof r (pr_candidate_requester p) l \<and> has_proof r (pr_candidate_provider p) l"

definition replica_proofs ::
  "crates \<Rightarrow> round_id \<Rightarrow> deliveries \<Rightarrow> proposal_record \<Rightarrow> replica \<Rightarrow> round_outcome \<times> replica" where
  "replica_proofs c r d p rp =
     (let rp = deliver_all c r ProofPhase (d ProofPhase) rp
      in if \<not> participants_proved r p (rp_log rp) then (Fallback, rp)
         else (Finalized, deliver_all c r ReceiptPhase (d ReceiptPhase) rp))"

definition replica_proposal ::
  "crates \<Rightarrow> round_id \<Rightarrow> deliveries \<Rightarrow> replica \<Rightarrow> round_outcome \<times> replica" where
  "replica_proposal c r d rp =
     (let rp = deliver_all c r ProposalPhase (d ProposalPhase) rp
      in case logged_proposal r (rp_log rp) of
           None \<Rightarrow> (Fallback, rp) | Some p \<Rightarrow> replica_proofs c r d p rp)"

definition replica_round ::
  "crates \<Rightarrow> topology_config \<Rightarrow> round_id \<Rightarrow> deliveries \<Rightarrow> replica \<Rightarrow> round_outcome \<times> replica" where
  "replica_round c t r d rp =
     (let rp = deliver_all c r CommitPhase (d CommitPhase) rp
      in if \<not> requester_heard t rp then (Fallback, rp) else replica_proposal c r d rp)"

fun replica_rounds ::
  "crates \<Rightarrow> topology_config \<Rightarrow> deliveries list \<Rightarrow> round_id \<Rightarrow> replica \<Rightarrow>
     (bool \<times> round_id) \<times> replica" where
  "replica_rounds c t [] fr rp = ((False, fr), rp)"
| "replica_rounds c t (d # ds) _ rp =
     (let r = rm_current (rp_machine rp)
      in case replica_round c t r d rp of
           (Finalized, rp) \<Rightarrow> ((True, r), rp)
         | (Fallback, rp) \<Rightarrow>
             replica_rounds c t ds r (rp\<lparr>rp_machine := snd (advance_fallback (rp_machine rp))\<rparr>))"

definition replica_close :: "bool \<Rightarrow> round_id \<Rightarrow> coordination_log \<Rightarrow> coordination_log" where
  "replica_close fin fr l =
     (let l = set_final_round fr fin l
      in if fin then l else set_abort_reason ''max_rounds_exceeded'' l)"

definition replica_outcome ::
  "crates \<Rightarrow> topology_config \<Rightarrow> string \<Rightarrow> deliveries list \<Rightarrow> runtime_outcome" where
  "replica_outcome c t run_id ds =
     (case replica_rounds c t ds 0
             \<lparr>rp_machine = round_machine_new t 0, rp_log = log_new run_id\<rparr> of
        ((fin, fr), rp) \<Rightarrow>
          \<lparr>ro_log = replica_close fin fr (rp_log rp), ro_finalized = fin, ro_final_round = fr\<rparr>)"

section \<open>What a drain delivers\<close>

inductive drains ::
  "('t \<Rightarrow> 'm option \<times> 't) \<Rightarrow> 't \<Rightarrow> 'm list \<Rightarrow> 't \<Rightarrow> bool" for nx where
  empty: "nx t = (None, t') \<Longrightarrow> drains nx t [] t'"
| message: "nx t = (Some m, t') \<Longrightarrow> drains nx t' ms t'' \<Longrightarrow> drains nx t (m # ms) t''"

lemma drains_drain_loop:
  "drains nx t ms t' \<Longrightarrow> drain_loop nx body t s = Some (t', foldl (\<lambda>s m. body m s) s ms)"
  by (induction arbitrary: s rule: drains.induct) (simp_all add: drain_loop.simps)

lemma drain_loop_drains:
  assumes "drain_loop nx body t s = Some (t', s')"
  shows "\<exists>ms. drains nx t ms t'"
proof -
  have "\<exists>ms. drains nx t ms (fst r)" if "drain_loop nx body t s = Some r" for r
  proof (rule drain_loop.raw_induct
      [where P = "\<lambda>n b t s r. n = nx \<longrightarrow> (\<exists>ms. drains nx t ms (fst r))", OF _ that, THEN mp, OF _ refl])
    fix f n b t s r
    assume IH: "\<And>n b t s r. f n b t s = Some r \<Longrightarrow> n = nx \<longrightarrow> (\<exists>ms. drains nx t ms (fst r))"
      and eq: "(case n t of (None, t') \<Rightarrow> Some (t', s)
        | (Some m, t') \<Rightarrow> f n b t' (b m s)) = Some r"
    show "n = nx \<longrightarrow> (\<exists>ms. drains nx t ms (fst r))"
    proof (cases "n t")
      case (Pair mo t')
      show ?thesis
      proof (cases mo)
        case None
        with eq Pair show ?thesis by (auto intro!: exI [of _ "[]"] drains.empty)
      next
        case (Some m)
        with eq Pair IH [of n b t' "b m s" r] show ?thesis by (auto intro: drains.message)
      qed
    qed
  qed
  from this [OF assms] show ?thesis by simp
qed

definition delivered :: "'t transport \<Rightarrow> 't runtime \<Rightarrow> coordination_message list" where
  "delivered ops rt =
     (case drain_loop (tr_next_ordered ops) (\<lambda>m ms. ms @ [m]) (tr_flush ops (rt_transport rt)) [] of
        None \<Rightarrow> []
      | Some (_, ms) \<Rightarrow> ms)"

lemma foldl_snoc: "foldl (\<lambda>ms m. ms @ [m]) acc ms = acc @ ms"
  by (induction ms arbitrary: acc) simp_all

text \<open>A handler that acts on the agreed part as \<open>step\<close> does, drained.\<close>

locale replicated_handler =
  fixes body :: "coordination_message \<Rightarrow> 't runtime \<Rightarrow> 't runtime"
    and step :: "coordination_message \<Rightarrow> replica \<Rightarrow> replica"
  assumes replica_of_body: "replica_of (body m rt) = step m (replica_of rt)"
begin

lemma replica_of_foldl:
  "replica_of (foldl (\<lambda>rt m. body m rt) rt ms) = foldl (\<lambda>rp m. step m rp) (replica_of rt) ms"
  by (induction ms arbitrary: rt) (simp_all add: replica_of_body)

lemma replica_of_drain:
  assumes "rt_drain ops body (rt_flush ops rt) = Some rt'"
  shows "replica_of rt' = foldl (\<lambda>rp m. step m rp) (replica_of rt) (delivered ops rt)"
proof -
  let ?nx = "tr_next_ordered ops" and ?t = "tr_flush ops (rt_transport rt)"
  obtain t' s where d: "drain_loop ?nx body ?t (rt_flush ops rt) = Some (t', s)"
    "rt' = s\<lparr>rt_transport := t'\<rparr>"
    using assms by (auto simp: rt_drain_def rt_flush_def)
  obtain ms where ms: "drains ?nx ?t ms t'" using drain_loop_drains [OF d(1)] by blast
  have "s = foldl (\<lambda>rt m. body m rt) (rt_flush ops rt) ms" 
    using drains_drain_loop [OF ms, of body "rt_flush ops rt"] d(1) by simp
  moreover have "delivered ops rt = ms"
    using drains_drain_loop [OF ms, of "\<lambda>m ms. ms @ [m]" "[]"] by (simp add: delivered_def foldl_snoc)
  ultimately show ?thesis
    using replica_of_foldl [of "rt_flush ops rt" ms] by (simp add: d(2) replica_of_def rt_flush_def)
qed

end

lemma replica_of_frame [simp]:
  "replica_of (rt\<lparr>rt_transport := tr\<rparr>) = replica_of rt"
  "replica_of (rt\<lparr>rt_historical := h\<rparr>) = replica_of rt"
  "replica_of (rt_flush ops rt) = replica_of rt"
  "replica_of (observe ev rt) = replica_of rt"
  "replica_of (reject_msg r n k e rt) = replica_of rt"
  by (simp_all add: replica_of_def rt_flush_def observe_def reject_msg_def decisions_def
      append_rejection_def)

lemma replica_of_sel [simp]:
  "rp_machine (replica_of rt) = rt_round_machine rt"
  "rp_log (replica_of rt) = decisions (rt_log rt)"
  by (simp_all add: replica_of_def)

lemma decisions_sel [simp]:
  "log_commitments (decisions l) = log_commitments l"
  "log_proposals (decisions l) = log_proposals l"
  "log_proofs (decisions l) = log_proofs l"
  "log_receipts (decisions l) = log_receipts l"
  "log_commitment_keys (decisions l) = log_commitment_keys l"
  "log_final_round (decisions l) = log_final_round l"
  "log_finalized (decisions l) = log_finalized l"
  "logged_proposal r (decisions l) = logged_proposal r l"
  "has_proof r i (decisions l) = has_proof r i l"
  by (simp_all add: decisions_def logged_proposal_def has_proof_def)

lemma decisions_append:
  "decisions (append_proposal p l) = append_proposal p (decisions l)"
  "decisions (append_proof q l) = append_proof q (decisions l)"
  "decisions (append_receipt x l) = append_receipt x (decisions l)"
  "decisions (append_rejection j l) = decisions l"
  "append_commitment rec (decisions l) =
     (fst (append_commitment rec l), decisions (snd (append_commitment rec l)))"
  by (simp_all add: decisions_def log_op_defs append_commitment_def Let_def)

lemma handle_commitment_replica:
  "replica_of (handle_commitment r m rt) = deliver c r CommitPhase m (replica_of rt)"
proof (cases "msg_payload m")
  case (PCommitment rec)
  show ?thesis
    by (cases "accept_commitment rec (rt_round_machine rt)";
        cases "append_commitment rec (rt_log rt)")
      (auto simp: handle_commitment_def deliver_def PCommitment decisions_append
        accept_commitment_Inl replica_of_def reject_msg_def observe_def split: sum.split)
qed (simp_all add: handle_commitment_def deliver_def)

lemma handle_proposal_replica:
  "replica_of (handle_proposal c r m rt) = deliver c r ProposalPhase m (replica_of rt)"
proof (cases "msg_payload m")
  case (PProposal p)
  show ?thesis
    by (cases "accept_proposal c p (rt_round_machine rt)")
      (auto simp: handle_proposal_def deliver_def PProposal decisions_append
        accept_proposal_Inl replica_of_def reject_msg_def observe_def split: sum.split)
qed (simp_all add: handle_proposal_def deliver_def)

lemma handle_proof_replica:
  "replica_of (handle_proof c r m rt) = deliver c r ProofPhase m (replica_of rt)"
  by (cases "msg_payload m")
    (auto simp: handle_proof_def deliver_def Let_def bt_contains_def decisions_append
      replica_of_def reject_msg_def observe_def)

lemma handle_receipt_replica:
  "replica_of (handle_receipt r m rt) = deliver c r ReceiptPhase m (replica_of rt)"
  by (cases "msg_payload m")
    (auto simp: handle_receipt_def deliver_def decisions_append
      replica_of_def reject_msg_def observe_def)

interpretation commit_replica: replicated_handler "handle_commitment r" "deliver c r CommitPhase" for c r
  by unfold_locales (rule handle_commitment_replica)

interpretation proposal_replica: replicated_handler "handle_proposal c r" "deliver c r ProposalPhase" for c r
  by unfold_locales (rule handle_proposal_replica)

interpretation proof_replica: replicated_handler "handle_proof c r" "deliver c r ProofPhase" for c r
  by unfold_locales (rule handle_proof_replica)

interpretation receipt_replica: replicated_handler "handle_receipt r" "deliver c r ReceiptPhase" for c r
  by unfold_locales (rule handle_receipt_replica)


section \<open>The broadcasts do not touch the agreed part\<close>

lemma rt_broadcast_replica: "rt_broadcast ops msg rt = Inr rt' \<Longrightarrow> replica_of rt' = replica_of rt"
  by (auto dest: rt_broadcast_Inr)

lemma events_replica:
  assumes "try_fold f evs rt = Inr rt'"
    and "\<And>ev rt rt'. f ev rt = Inr rt' \<Longrightarrow> replica_of rt' = replica_of rt"
  shows "replica_of rt' = replica_of rt"
  using assms(1)
  by (rule try_fold_invariant [where P = "\<lambda>x. replica_of x = replica_of rt"]) (simp_all add: assms(2))

lemma replay_event_replica: "replay_event ops r ev rt = Inr rt' \<Longrightarrow> replica_of rt' = replica_of rt"
  by (auto simp: replay_event_def rt_broadcast_replica split: scenario_event.splits option.splits)

lemma double_commit_event_replica:
  "double_commit_event ops ev rt = Inr rt' \<Longrightarrow> replica_of rt' = replica_of rt"
  by (auto simp: double_commit_event_def rt_broadcast_replica split: scenario_event.splits option.splits)

lemma broadcast_commitment_of_replica:
  assumes "broadcast_commitment_of c ops r node rt = Inr rt'"
  shows "replica_of rt' = replica_of rt"
proof -
  obtain rt1 where 1: "try_fold (replay_event ops r) (events_for_round (rt_scenario rt) node r) rt = Inr rt1"
    using assms by (auto simp: broadcast_commitment_of_def)
  note eq = events_replica [OF 1 replay_event_replica]
  show ?thesis
  proof (cases "has_dropped (rt_scenario rt1) node r")
    case True
    with assms 1 eq show ?thesis by (auto simp: broadcast_commitment_of_def)
  next
    case False
    with assms 1 obtain base rt2 where
      2: "rt_broadcast ops \<lparr>msg_origin = node, msg_payload = PCommitment base\<rparr>
            (rt1\<lparr>rt_historical := bt_insert (node, r) base (rt_historical rt1)\<rparr>) = Inr rt2"
      and 3: "try_fold (double_commit_event ops) (events_for_round (rt_scenario rt2) node r) rt2 = Inr rt'"
      by (auto simp: broadcast_commitment_of_def)
    show ?thesis
      using events_replica [OF 3 double_commit_event_replica] rt_broadcast_replica [OF 2] eq by simp
  qed
qed

lemma broadcast_commitments_replica:
  "broadcast_commitments c ops r rt = Inr rt' \<Longrightarrow> replica_of rt' = replica_of rt"
  unfolding broadcast_commitments_def by (erule events_replica) (rule broadcast_commitment_of_replica)

lemma broadcast_proposal_replica:
  "broadcast_proposal c ops r rt = Inr (b, rt') \<Longrightarrow> replica_of rt' = replica_of rt"
  by (auto simp: broadcast_proposal_def Let_def rt_broadcast_replica simp del: case_sum_map_err
      split: sum.split_asm option.split_asm if_split_asm)

lemma broadcast_proofs_replica:
  "broadcast_proofs c ops r p rt = Inr rt' \<Longrightarrow> replica_of rt' = replica_of rt"
  unfolding broadcast_proofs_def
  by (erule events_replica)
    (auto simp: broadcast_proof_of_def Let_def rt_broadcast_replica split: if_split_asm option.split_asm)

lemma broadcast_receipt_replica:
  "broadcast_receipt c ops r p rt = Inr rt' \<Longrightarrow> replica_of rt' = replica_of rt"
  by (auto simp: broadcast_receipt_def Let_def rt_broadcast_replica split: if_split_asm)

lemmas broadcast_replica =
  broadcast_commitments_replica broadcast_proposal_replica broadcast_proofs_replica
  broadcast_receipt_replica

section \<open>The deliveries of a run\<close>

text \<open>
  The messages each phase of a round hands to its drain, following \<open>run_one_round\<close>. A phase
  the round does not reach delivers nothing.
\<close>

definition receipt_deliveries ::
  "crates \<Rightarrow> 't transport \<Rightarrow> round_id \<Rightarrow> proposal_record \<Rightarrow> 't runtime \<Rightarrow> coordination_message list"
where
  "receipt_deliveries c ops r p rt =
     (case broadcast_receipt c ops r p rt of Inl _ \<Rightarrow> [] | Inr rt \<Rightarrow> delivered ops rt)"

definition proof_deliveries ::
  "crates \<Rightarrow> 't transport \<Rightarrow> round_id \<Rightarrow> proposal_record \<Rightarrow> 't runtime \<Rightarrow> deliveries" where
  "proof_deliveries c ops r p rt =
     (case broadcast_proofs c ops r p rt of
        Inl _ \<Rightarrow> (\<lambda>_. [])
      | Inr rt \<Rightarrow> (\<lambda>_. [])
          (ProofPhase := delivered ops rt,
           ReceiptPhase :=
             (case drain_proofs c ops r (rt_flush ops rt) of
                None \<Rightarrow> []
              | Some rt \<Rightarrow> if participants_proved r p (rt_log rt)
                           then receipt_deliveries c ops r p rt else [])))"

definition proposal_deliveries ::
  "crates \<Rightarrow> 't transport \<Rightarrow> round_id \<Rightarrow> 't runtime \<Rightarrow> deliveries" where
  "proposal_deliveries c ops r rt =
     (case broadcast_proposal c ops r rt of
        Inr (True, rt) \<Rightarrow>
          (case drain_proposal c ops r (rt_flush ops rt) of
             None \<Rightarrow> (\<lambda>_. [])
           | Some rt \<Rightarrow> (case logged_proposal r (rt_log rt) of
                None \<Rightarrow> (\<lambda>_. []) | Some p \<Rightarrow> proof_deliveries c ops r p rt))
          (ProposalPhase := delivered ops rt)
      | _ \<Rightarrow> (\<lambda>_. []))"

definition round_deliveries :: "crates \<Rightarrow> 't transport \<Rightarrow> round_id \<Rightarrow> 't runtime \<Rightarrow> deliveries" where
  "round_deliveries c ops r rt =
     (case broadcast_commitments c ops r rt of
        Inl _ \<Rightarrow> (\<lambda>_. [])
      | Inr rt \<Rightarrow>
          (case drain_commitments ops r (rt_flush ops rt) of
             None \<Rightarrow> (\<lambda>_. [])
           | Some rt \<Rightarrow> if requester_heard (rt_topology rt) (replica_of rt)
                        then proposal_deliveries c ops r rt else (\<lambda>_. []))
          (CommitPhase := delivered ops rt))"

fun rounds_deliveries :: "crates \<Rightarrow> 't transport \<Rightarrow> nat \<Rightarrow> 't runtime \<Rightarrow> deliveries list" where
  "rounds_deliveries c ops 0 rt = []"
| "rounds_deliveries c ops (Suc n) rt =
     (let r = rm_current (rt_round_machine rt)
      in round_deliveries c ops r rt #
         (case run_one_round c ops r rt of
            Some (Inr (Fallback, rt)) \<Rightarrow>
              (case advance_fallback (rt_round_machine rt) of
                 (Inl _, _) \<Rightarrow> []
               | (Inr _, m) \<Rightarrow> rounds_deliveries c ops n
                   (observe (OnRoundCommitted r False) rt\<lparr>rt_round_machine := m\<rparr>))
          | _ \<Rightarrow> []))"

definition run_deliveries :: "crates \<Rightarrow> 't transport \<Rightarrow> string \<Rightarrow> 't runtime \<Rightarrow> deliveries list" where
  "run_deliveries c ops run_id rt =
     rounds_deliveries c ops (unat (rt_max_rounds rt)) (rt\<lparr>rt_log := log_new run_id\<rparr>)"

section \<open>The runtime refines the abstract machine\<close>

lemma drain_replica:
  "drain_commitments ops r (rt_flush ops rt) = Some rt' \<Longrightarrow>
     replica_of rt' = deliver_all c r CommitPhase (delivered ops rt) (replica_of rt)"
  "drain_proposal c ops r (rt_flush ops rt) = Some rt' \<Longrightarrow>
     replica_of rt' = deliver_all c r ProposalPhase (delivered ops rt) (replica_of rt)"
  "drain_proofs c ops r (rt_flush ops rt) = Some rt' \<Longrightarrow>
     replica_of rt' = deliver_all c r ProofPhase (delivered ops rt) (replica_of rt)"
  "drain_receipts ops r (rt_flush ops rt) = Some rt' \<Longrightarrow>
     replica_of rt' = deliver_all c r ReceiptPhase (delivered ops rt) (replica_of rt)"
  unfolding deliver_all_def drain_commitments_def drain_proposal_def drain_proofs_def
    drain_receipts_def
  by (rule commit_replica.replica_of_drain proposal_replica.replica_of_drain
      proof_replica.replica_of_drain receipt_replica.replica_of_drain; assumption)+

lemma replica_log:
  "replica_of rt = rp \<Longrightarrow> logged_proposal r (rt_log rt) = logged_proposal r (rp_log rp)"
  "replica_of rt = rp \<Longrightarrow> participants_proved r p (rt_log rt) = participants_proved r p (rp_log rp)"
  by (auto simp: participants_proved_def)

lemma replica_earlier_phase [simp]:
  "replica_proofs c r (d(CommitPhase := ms)) = replica_proofs c r d"
  "replica_proofs c r (d(ProposalPhase := ms)) = replica_proofs c r d"
  by (simp_all add: fun_eq_iff replica_proofs_def Let_def)

lemma replica_commit_phase [simp]:
  "replica_proposal c r (d(CommitPhase := ms)) = replica_proposal c r d"
  by (simp add: fun_eq_iff replica_proposal_def Let_def cong: option.case_cong)

lemma receipt_phase_refines:
  assumes "receipt_phase c ops r p rt = Some (Inr (res, rt'))"
  shows "res = Finalized"
    "replica_of rt' = deliver_all c r ReceiptPhase (receipt_deliveries c ops r p rt) (replica_of rt)"
  using assms
  by (auto simp: receipt_phase_def go_Inr receipt_deliveries_def drain_replica(4) [of ops r _ rt' c]
      broadcast_receipt_replica)

lemma proof_phase_refines:
  assumes "proof_phase c ops r p rt = Some (Inr (res, rt'))"
  shows "replica_proofs c r (proof_deliveries c ops r p rt) p (replica_of rt) = (res, replica_of rt')"
proof -
  obtain rt1 rt2 where b: "broadcast_proofs c ops r p rt = Inr rt1"
    and d: "drain_proofs c ops r (rt_flush ops rt1) = Some rt2"
    and rest: "(if \<not> participants_proved r p (rt_log rt2) then Some (Inr (Fallback, rt2))
      else receipt_phase c ops r p rt2) = Some (Inr (res, rt'))"
    using assms by (auto simp: proof_phase_def go_Inr participants_proved_def)
  note eq = drain_replica(3) [OF d, symmetric] broadcast_proofs_replica [OF b, symmetric]
  show ?thesis
    using rest receipt_phase_refines [of c ops r p rt2 res rt']
    by (auto simp: replica_proofs_def proof_deliveries_def b d eq Let_def participants_proved_def
        split: if_split_asm)
qed

lemma fresh_proposal:
  assumes "rt_open c t r rt" "rm_proposal (rt_round_machine rt) = None"
  shows "logged_proposal r (rt_log rt) = None"
  using assms by (auto simp: rt_open_def rt_inv_def logged_proposal_def find_None_iff)

lemma proposal_phase_refines:
  assumes "proposal_phase c ops r rt = Some (Inr (res, rt'))"
    and "rt_open c t r rt" "rm_proposal (rt_round_machine rt) = None"
  shows "replica_proposal c r (proposal_deliveries c ops r rt) (replica_of rt) = (res, replica_of rt')"
proof -
  obtain proceed rt1 where b: "broadcast_proposal c ops r rt = Inr (proceed, rt1)"
    using assms(1) by (auto simp: proposal_phase_def go_Inr)
  note eq = broadcast_proposal_replica [OF b, symmetric]
  have "logged_proposal r (rt_log rt1) = None"
    using fresh_proposal [OF assms(2,3)] replica_log(1) [OF eq [symmetric], of r] by simp
  show ?thesis
  proof (cases proceed)
    case False
    with assms(1) b \<open>logged_proposal r (rt_log rt1) = None\<close> show ?thesis
      by (auto simp: proposal_phase_def replica_proposal_def proposal_deliveries_def eq
          deliver_all_def Let_def)
  next
    case True
    with assms(1) b obtain rt2 where d: "drain_proposal c ops r (rt_flush ops rt1) = Some rt2"
      and rest: "(case logged_proposal r (rt_log rt2) of None \<Rightarrow> Some (Inr (Fallback, rt2))
        | Some p \<Rightarrow> proof_phase c ops r p rt2) = Some (Inr (res, rt'))"
      by (auto simp: proposal_phase_def go_Inr)
    note eq = eq drain_replica(2) [OF d, symmetric]
    show ?thesis
    proof (cases "logged_proposal r (rt_log rt2)")
      case None
      with rest True show ?thesis
        by (simp add: replica_proposal_def proposal_deliveries_def b d eq Let_def)
    next
      case (Some p)
      with rest True proof_phase_refines [of c ops r p rt2 res rt'] show ?thesis
        by (simp add: replica_proposal_def proposal_deliveries_def b d eq Let_def)
    qed
  qed
qed

lemma deliver_commit_proposal:
  "rm_proposal (rp_machine (deliver_all c r CommitPhase ms rp)) = rm_proposal (rp_machine rp)"
  unfolding deliver_all_def
proof (induction ms arbitrary: rp)
  case (Cons m ms)
  have "rm_proposal (rp_machine (deliver c r CommitPhase m rp)) = rm_proposal (rp_machine rp)"
    by (auto simp: deliver_def accept_commitment_def split: message_payload.split sum.split)
  with Cons.IH show ?case by simp
qed simp

lemma run_one_round_refines:
  assumes "run_one_round c ops r rt = Some (Inr (res, rt'))"
    and "rt_open c t r rt" "rm_proposal (rt_round_machine rt) = None"
  shows "replica_round c t r (round_deliveries c ops r rt) (replica_of rt) = (res, replica_of rt')"
proof -
  obtain rt1 rt2 where b: "broadcast_commitments c ops r rt = Inr rt1"
    and d: "drain_commitments ops r (rt_flush ops rt1) = Some rt2"
    using assms(1) by (auto simp: run_one_round_def go_Inr)
  note eq = broadcast_commitments_replica [OF b, symmetric] drain_replica(1) [OF d, of c, symmetric]
  have op: "rt_open c t r rt2"
    using commitments_drain.flushed_drain_inv [OF d [unfolded drain_commitments_def]]
      broadcast_commitments_open [OF b assms(2)] by blast
  have "rm_proposal (rp_machine (replica_of rt2)) = None"
    unfolding eq(2) [symmetric] deliver_commit_proposal eq(1) [symmetric] using assms(3) by simp
  then have fresh: "rm_proposal (rt_round_machine rt2) = None" by simp
  have topo: "rt_topology rt2 = t" using op by (simp add: rt_open_def rt_inv_def)
  from assms(1) obtain cfg where cfg: "topo_requester t = Some cfg"
    and rest: "(if \<not> bt_contains (rm_commitments (rt_round_machine rt2)) (nc_id cfg)
      then Some (Inr (Fallback, reject_msg r (nc_id cfg) ''round'' ''requester_missing'' rt2))
      else proposal_phase c ops r rt2) = Some (Inr (res, rt'))"
    by (auto simp: run_one_round_def b d topo split: option.splits)
  show ?thesis
  proof (cases "bt_contains (rm_commitments (rt_round_machine rt2)) (nc_id cfg)")
    case False
    with rest show ?thesis
      by (auto simp: replica_round_def round_deliveries_def b d eq topo requester_heard_def cfg)
  next
    case True
    with rest proposal_phase_refines [of c ops r rt2 res rt' t] op fresh show ?thesis
      by (simp add: replica_round_def round_deliveries_def b d eq topo requester_heard_def cfg)
  qed
qed

lemma run_rounds_refines:
  assumes "run_rounds c ops n fr rt = Some (Inr ((fin, fr'), rt'))"
    and "rt_open c t (rm_current (rt_round_machine rt)) rt" "rm_proposal (rt_round_machine rt) = None"
  shows "replica_rounds c t (rounds_deliveries c ops n rt) fr (replica_of rt) = ((fin, fr'), replica_of rt')"
  using assms
proof (induction n arbitrary: fr rt)
  case (Suc n)
  let ?r = "rm_current (rt_round_machine rt)"
  obtain res rt1 where 1: "run_one_round c ops ?r rt = Some (Inr (res, rt1))"
    using Suc.prems(1) by (auto simp: go_Inr Let_def)
  note round = run_one_round_refines [OF 1 Suc.prems(2,3)]
  show ?case
  proof (cases res)
    case Finalized
    with Suc.prems(1) 1 round show ?thesis by (auto simp: Let_def)
  next
    case Fallback
    let ?rt = "observe (OnRoundCommitted ?r False) rt1"
    obtain m where adv: "advance_fallback (rt_round_machine rt1) = (Inr (), m)"
      and rest: "run_rounds c ops n ?r (?rt\<lparr>rt_round_machine := m\<rparr>) = Some (Inr ((fin, fr'), rt'))"
      using Suc.prems(1) 1 Fallback by (auto simp: Let_def split: prod.split_asm sum.split_asm)
    have "rt_open c t ?r ?rt"
      using run_one_round_post [OF 1 Suc.prems(2)] Fallback by (simp add: round_post_def)
    note op = rt_open_advance [OF this, of "()" m]
    have m: "rm_current m = round_next ?r" "rm_proposal m = None"
      using adv run_one_round_post [OF 1 Suc.prems(2)] Fallback
      by (auto simp: advance_fallback_def advance_to_Inr round_post_def rt_open_def rt_inv_def)
    have eq: "replica_of (?rt\<lparr>rt_round_machine := m\<rparr>) = replica_of rt1\<lparr>rp_machine := m\<rparr>"
      by (simp add: replica_of_def observe_def)
    have "replica_rounds c t (rounds_deliveries c ops n (?rt\<lparr>rt_round_machine := m\<rparr>)) ?r
        (replica_of (?rt\<lparr>rt_round_machine := m\<rparr>)) = ((fin, fr'), replica_of rt')"
      using Suc.IH [OF rest] op adv m by simp
    then show ?thesis using 1 round Fallback adv unfolding eq by (simp add: Let_def)
  qed
qed simp

lemma replica_close_decisions:
  "decisions (rt_log (close_run fin fr rt)) = replica_close fin fr (decisions (rt_log rt))"
  by (simp add: close_run_def replica_close_def Let_def decisions_def log_op_defs observe_def)

lemma run_replica:
  assumes new: "runtime_new c t tr agents sc mr = Inr rt"
    and run: "run c ops run_id (with_run_salt salt rt) = Some (Inr out)"
  shows "out\<lparr>ro_log := decisions (ro_log out)\<rparr> =
    replica_outcome c t run_id (run_deliveries c ops run_id (with_run_salt salt rt))"
proof -
  let ?rt = "with_run_salt salt rt\<lparr>rt_log := log_new run_id\<rparr>"
  obtain fin fr rt' where r: "run_rounds c ops (unat (rt_max_rounds ?rt)) 0 ?rt = Some (Inr ((fin, fr), rt'))"
    and out: "out = \<lparr>ro_log = rt_log (close_run fin fr rt'), ro_finalized = fin, ro_final_round = fr\<rparr>"
    using run by (auto simp: run_def go_Inr)
  have m: "rt_round_machine ?rt = round_machine_new t 0"
    using new by (simp add: runtime_new_Inr with_run_salt_def)
  then have start: "replica_of ?rt = \<lparr>rp_machine = round_machine_new t 0, rp_log = log_new run_id\<rparr>"
    by (simp add: replica_of_def decisions_def log_new_def)
  have "rt_open c t 0 ?rt" using runtime_new_open [OF new] .
  then have "replica_rounds c t (rounds_deliveries c ops (unat (rt_max_rounds ?rt)) ?rt) 0 (replica_of ?rt) =
      ((fin, fr), replica_of rt')"
    by (intro run_rounds_refines [OF r]) (simp_all add: m round_machine_new_def)
  then show ?thesis
    by (simp add: replica_outcome_def run_deliveries_def start out replica_close_decisions)
qed

section \<open>Agreement\<close>

lemma decisions_verified:
  assumes "decisions l = decisions l'"
  shows "verify_proof c l = verify_proof c l'" "verify_final_round c t l = verify_final_round c t l'"
    "log_proofs l = log_proofs l'"
proof -
  have find: "find_commitment (decisions k) = find_commitment k" for k
    by (simp add: fun_eq_iff find_commitment_def)
  have "verify_proof c (decisions k) = verify_proof c k" for k
    by (intro ext) (simp only: verify_proof_def find)
  moreover have "verify_final_round c t (decisions k) = verify_final_round c t k" for k
    by (simp only: verify_final_round_def predicate_holds_for_log_def find decisions_sel)
  ultimately show "verify_proof c l = verify_proof c l'" "verify_final_round c t l = verify_final_round c t l'"
    using assms by metis+
  show "log_proofs l = log_proofs l'" using arg_cong [OF assms, of log_proofs] by simp
qed

text \<open>Two nodes, whatever agents, scenarios, salts, round limits and transports they run on.\<close>

lemma runs_agree:
  assumes "runtime_new c t tr agents sc mr = Inr rt" "runtime_new c t tr' agents' sc' mr' = Inr rt'"
    and "run c ops run_id (with_run_salt salt rt) = Some (Inr out)"
    and "run c ops' run_id (with_run_salt salt' rt') = Some (Inr out')"
    and "run_deliveries c ops run_id (with_run_salt salt rt) = run_deliveries c ops' run_id (with_run_salt salt' rt')"
  shows "decisions (ro_log out) = decisions (ro_log out')" "ro_finalized out = ro_finalized out'"
    "ro_final_round out = ro_final_round out'"
    "vr_reasons (verify_log c t (ro_log out)) = vr_reasons (verify_log c t (ro_log out'))"
proof -
  have eq: "out\<lparr>ro_log := decisions (ro_log out)\<rparr> = out'\<lparr>ro_log := decisions (ro_log out')\<rparr>"
    using run_replica [OF assms(1,3)] run_replica [OF assms(2,4)] assms(5) by simp
  show dec: "decisions (ro_log out) = decisions (ro_log out')" using arg_cong [OF eq, of ro_log] by simp
  show "ro_finalized out = ro_finalized out'" "ro_final_round out = ro_final_round out'"
    using arg_cong [OF eq, of ro_finalized] arg_cong [OF eq, of ro_final_round] by simp_all
  show "vr_reasons (verify_log c t (ro_log out)) = vr_reasons (verify_log c t (ro_log out'))"
    using run_log_post(1,2) [OF assms(1,3)] run_log_post(1,2) [OF assms(2,4)]
      decisions_verified [OF dec]
    by (simp add: run_post_def log_inv_reasons)
qed

end
