(* ===== verification/Confidentiality.thy ===== *)
theory Confidentiality
  imports Agreement
begin

text \<open>
  What a run reveals of its private intents. Two sets of agents look the same from outside
  when they have the same nodes and roles, the same receipt signing keys, and the same
  commitment hash for every 32-byte nonce and round; budgets and reservation prices may differ. Runs of
  such agents are equal, over any transport: messages, log and observer events depend on the
  private values through the commitment hashes alone. The two runtimes are related step by
  step, by the relators of the library's sum, product and option types.
\<close>

section \<open>Agents that look the same\<close>

definition agent_commit ::
  "crates \<Rightarrow> agent_state \<Rightarrow> bytes \<Rightarrow> round_id \<Rightarrow> (commitment_error + bytes) option" where
  "agent_commit c a nonce r =
     (case ag_role a of
        Requester \<Rightarrow> map_option (\<lambda>i. commit_requester c i nonce r) (ag_requester a)
      | Provider \<Rightarrow> map_option (\<lambda>i. commit_provider c i nonce r) (ag_provider a))"

definition receipt_seed :: "agent_state \<Rightarrow> signing_secret_seed option" where
  "receipt_seed a = Option.bind (ag_provider a) (\<lambda>i. map_option expose (ppi_signing_secret_key i))"

definition looks_same :: "crates \<Rightarrow> agent_state \<Rightarrow> agent_state \<Rightarrow> bool" where
  "looks_same c a a' \<longleftrightarrow> ag_role a = ag_role a' \<and> receipt_seed a = receipt_seed a' \<and>
     (\<forall>nonce r. length nonce = 32 \<longrightarrow> agent_commit c a nonce r = agent_commit c a' nonce r)"

definition agents_look_same ::
  "crates \<Rightarrow> (node_id, agent_state) btree_map \<Rightarrow> (node_id, agent_state) btree_map \<Rightarrow> bool" where
  "agents_look_same c = list_all2 (\<lambda>(i, a) (i', a'). i = i' \<and> looks_same c a a')"

lemma agents_look_same_keys: "agents_look_same c ags ags' \<Longrightarrow> bt_keys ags = bt_keys ags'"
  unfolding agents_look_same_def bt_keys_def
  by (induction rule: list_all2_induct) auto

lemma agents_look_same_get:
  "agents_look_same c ags ags' \<Longrightarrow> rel_option (looks_same c) (bt_get ags i) (bt_get ags' i)"
  unfolding agents_look_same_def bt_get_def
  by (induction rule: list_all2_induct) auto

lemma agents_look_same_contains:
  "agents_look_same c ags ags' \<Longrightarrow> bt_contains ags i = bt_contains ags' i"
  using agents_look_same_get [of c ags ags' i] by (auto simp: bt_contains_def elim: option.rel_cases)

section \<open>Relating two runtimes\<close>

definition twins ::
  "crates \<Rightarrow> 't runtime \<Rightarrow> 't runtime \<Rightarrow> bool" where
  "twins c rt rt' \<longleftrightarrow> blake_ok c \<and> agents_look_same c (rt_agents rt) (rt_agents rt') \<and>
     rt' = rt\<lparr>rt_agents := rt_agents rt'\<rparr>"

abbreviation same_result :: "('a \<Rightarrow> 'b \<Rightarrow> bool) \<Rightarrow> 'e + 'a \<Rightarrow> 'e + 'b \<Rightarrow> bool" where
  "same_result R \<equiv> rel_sum (=) R"

lemma same_and_then:
  assumes "same_result R x y" "\<And>a b. R a b \<Longrightarrow> same_result Q (f a) (g b)"
  shows "same_result Q (and_then x f) (and_then y g)"
  using assms by (cases x; cases y) auto

lemma same_try_fold:
  assumes "R s s'" "\<And>x s s'. R s s' \<Longrightarrow> same_result R (f x s) (f x s')"
  shows "same_result R (try_fold f xs s) (try_fold f xs s')"
  using assms(1) by (induction xs arbitrary: s s') (auto intro!: same_and_then assms(2))

lemma same_go:
  assumes "rel_option (same_result R) x y"
    and "\<And>a b. R a b \<Longrightarrow> rel_option (same_result Q) (f a) (g b)"
  shows "rel_option (same_result Q) (go x f) (go y g)"
  using assms(1) by (cases rule: option.rel_cases) (auto simp: assms(2) elim!: rel_sum.cases)

lemma same_drained: "rel_option R x y \<Longrightarrow> rel_option (same_result R) (drained x) (drained y)"
  by (auto elim: option.rel_cases)

lemma drain_loop_fold:
  "drain_loop nx body t s =
     map_option (\<lambda>(t', ms). (t', foldl (\<lambda>s m. body m s) s ms)) (drain_loop nx (\<lambda>m ms. ms @ [m]) t [])"
proof (cases "drain_loop nx (\<lambda>m ms. ms @ [m]) t []")
  case None
  have "drain_loop nx body t s = None"
  proof (rule ccontr)
    assume "drain_loop nx body t s \<noteq> None"
    then obtain t' s' where "drain_loop nx body t s = Some (t', s')" by auto
    from drain_loop_drains [OF this] obtain ms where "drains nx t ms t'" by blast
    from drains_drain_loop [OF this, of "\<lambda>m ms. ms @ [m]" "[]"] None show False by simp
  qed
  with None show ?thesis by simp
next
  case (Some r)
  then obtain t' acc where r: "drain_loop nx (\<lambda>m ms. ms @ [m]) t [] = Some (t', acc)" by (cases r) auto
  from drain_loop_drains [OF this] obtain ms where ms: "drains nx t ms t'" by blast
  from drains_drain_loop [OF ms, of "\<lambda>m ms. ms @ [m]" "[]"] r have "acc = ms" by (simp add: foldl_snoc)
  with r drains_drain_loop [OF ms, of body s] show ?thesis by simp
qed

lemma same_foldl:
  assumes "R s s'" "\<And>m s s'. R s s' \<Longrightarrow> R (body m s) (body' m s')"
  shows "R (foldl (\<lambda>s m. body m s) s ms) (foldl (\<lambda>s m. body' m s) s' ms)"
  using assms(1) by (induction ms arbitrary: s s') (simp_all add: assms(2))

lemma twins_frame:
  assumes "twins c rt rt'"
  shows "twins c (rt\<lparr>rt_transport := tr\<rparr>) (rt'\<lparr>rt_transport := tr\<rparr>)"
    "twins c (rt\<lparr>rt_round_machine := m\<rparr>) (rt'\<lparr>rt_round_machine := m\<rparr>)"
    "twins c (rt\<lparr>rt_log := l\<rparr>) (rt'\<lparr>rt_log := l\<rparr>)"
    "twins c (rt\<lparr>rt_historical := h\<rparr>) (rt'\<lparr>rt_historical := h\<rparr>)"
    "twins c (observe ev rt) (observe ev rt')"
    "twins c (reject_msg r n k e rt) (reject_msg r n k e rt')"
    "twins c (rt_flush ops rt) (rt_flush ops rt')"
  using assms unfolding twins_def observe_def reject_msg_def rt_flush_def
  by (cases rt; cases rt'; simp)+

lemma twins_sel:
  assumes "twins c rt rt'"
  shows "rt_topology rt' = rt_topology rt" "rt_transport rt' = rt_transport rt" "rt_log rt' = rt_log rt"
    "rt_round_machine rt' = rt_round_machine rt" "rt_scenario rt' = rt_scenario rt"
    "rt_invalid_proof_schedule rt' = rt_invalid_proof_schedule rt"
    "rt_historical rt' = rt_historical rt" "rt_max_rounds rt' = rt_max_rounds rt"
    "rt_run_salt rt' = rt_run_salt rt" "rt_events rt' = rt_events rt"
    "bt_keys (rt_agents rt') = bt_keys (rt_agents rt)"
    "bt_contains (rt_agents rt') i = bt_contains (rt_agents rt) i"
  using assms agents_look_same_keys [of c "rt_agents rt" "rt_agents rt'"]
    agents_look_same_contains [of c "rt_agents rt" "rt_agents rt'" i]
  unfolding twins_def by (cases rt; cases rt'; simp)+

lemma same_rt_drain:
  assumes "twins c rt rt'" "\<And>m rt rt'. twins c rt rt' \<Longrightarrow> twins c (body m rt) (body m rt')"
  shows "rel_option (twins c) (rt_drain ops body rt) (rt_drain ops body rt')"
proof -
  have "twins c (foldl (\<lambda>s m. body m s) rt ms) (foldl (\<lambda>s m. body m s) rt' ms)" for ms
    using assms by (rule same_foldl)
  then show ?thesis
    unfolding rt_drain_def drain_loop_fold [of _ body] twins_sel(2) [OF assms(1)]
    by (cases "drain_loop (tr_next_ordered ops) (\<lambda>m ms. ms @ [m]) (rt_transport rt) []")
      (auto intro: twins_frame)
qed

lemma same_broadcast:
  assumes "twins c rt rt'"
  shows "same_result (twins c) (rt_broadcast ops msg rt) (rt_broadcast ops msg rt')"
  using twins_frame(1) [OF assms]
  by (auto simp: rt_broadcast_def twins_sel(2) [OF assms] split: prod.split sum.split)

section \<open>Every step relates them\<close>

lemma twins_try_fold:
  assumes "twins c rt rt'" "\<And>x s s'. twins c s s' \<Longrightarrow> same_result (twins c) (f x s) (f x s')"
  shows "same_result (twins c) (try_fold f xs rt) (try_fold f xs rt')"
  using assms by (rule same_try_fold)

lemma twins_update2:
  "twins c rt rt' \<Longrightarrow> twins c (rt\<lparr>rt_round_machine := m, rt_log := l\<rparr>) (rt'\<lparr>rt_round_machine := m, rt_log := l\<rparr>)"
  by (rule twins_frame(3) [OF twins_frame(2)])

lemmas twins_intros = twins_frame twins_update2

lemma twins_handlers:
  assumes "twins c rt rt'"
  shows "twins c (handle_commitment r m rt) (handle_commitment r m rt')"
    "twins c (handle_proposal d r m rt) (handle_proposal d r m rt')"
    "twins c (handle_proof d r m rt) (handle_proof d r m rt')"
    "twins c (handle_receipt r m rt) (handle_receipt r m rt')"
  unfolding handle_commitment_def handle_proposal_def handle_proof_def handle_receipt_def
    twins_sel [OF assms] Let_def
  by (auto split: message_payload.split prod.split sum.split intro!: twins_intros assms)

lemma same_drains:
  assumes "twins c rt rt'"
  shows "rel_option (twins c) (drain_commitments ops r rt) (drain_commitments ops r rt')"
    "rel_option (twins c) (drain_proposal d ops r rt) (drain_proposal d ops r rt')"
    "rel_option (twins c) (drain_proofs d ops r rt) (drain_proofs d ops r rt')"
    "rel_option (twins c) (drain_receipts ops r rt) (drain_receipts ops r rt')"
  unfolding drain_commitments_def drain_proposal_def drain_proofs_def drain_receipts_def
  by (rule same_rt_drain [OF assms]; erule twins_handlers)+

lemma build_commitment_by_agent:
  "build_commitment c rt node r =
     (case bt_get (rt_agents rt) node of
        None \<Rightarrow> Inl (Fail (MissingPrivateIntent (to_hex c node)))
      | Some a \<Rightarrow>
        (case find_node (rt_topology rt) node of
           None \<Rightarrow> Inl (Panic ''agents validated against topology'')
         | Some cfg \<Rightarrow>
           (case agent_commit c a (derive_test_nonce c node r (rt_run_salt rt)) r of
              None \<Rightarrow> Inl (Fail (MissingPrivateIntent
                ((case ag_role a of Requester \<Rightarrow> ''requester-private for ''
                  | Provider \<Rightarrow> ''provider-private for '') @ to_hex c node)))
            | Some (Inl e) \<Rightarrow> Inl (Fail (CommitmentErr e))
            | Some (Inr commit) \<Rightarrow>
              and_then
                (case ag_role a of
                   Requester \<Rightarrow>
                     (case nc_required_capability cfg of
                        None \<Rightarrow> Inl (Panic ''topology requester has required_capability'')
                      | Some required \<Rightarrow> Inr (PubRequester node r required))
                 | Provider \<Rightarrow> Inr (PubProvider node r (nc_capability_claims cfg)))
                (\<lambda>public. Inr \<lparr>cr_node_id = node, cr_round = r,
                   cr_commitment_hex = hex_encode c commit, cr_public_intent = public\<rparr>))))"
  by (auto simp: build_commitment_def agent_commit_def Let_def
      split: option.split role.split sum.split)

lemma same_build_commitment:
  assumes "twins c rt rt'"
  shows "build_commitment c rt node r = build_commitment c rt' node r"
proof -
  have "rel_option (looks_same c) (bt_get (rt_agents rt) node) (bt_get (rt_agents rt') node)"
    using assms agents_look_same_get by (auto simp: twins_def)
  moreover have "length (derive_test_nonce c node r (rt_run_salt rt)) = 32"
    using assms by (simp add: twins_def derive_test_nonce_def blake_ok_def)
  ultimately show ?thesis
    unfolding build_commitment_by_agent twins_sel [OF assms]
    by (cases rule: option.rel_cases) (auto simp: looks_same_def split: option.split sum.split)
qed

lemma same_broadcast_commitments:
  assumes "twins c rt rt'"
  shows "same_result (twins c) (broadcast_commitments c ops r rt) (broadcast_commitments c ops r rt')"
proof -
  have replay: "same_result (twins c) (replay_event ops r ev rt) (replay_event ops r ev rt')"
    if "twins c rt rt'" for ev rt rt'
    using that by (auto simp: replay_event_def twins_sel [OF that] same_broadcast
        split: scenario_event.split option.split)
  have double: "same_result (twins c) (double_commit_event ops ev rt) (double_commit_event ops ev rt')"
    if "twins c rt rt'" for ev rt rt'
    using that by (auto simp: double_commit_event_def twins_sel [OF that] same_broadcast
        split: scenario_event.split option.split)
  have "same_result (twins c) (broadcast_commitment_of c ops r node rt) (broadcast_commitment_of c ops r node rt')"
    if tw: "twins c rt rt'" for node rt rt'
    unfolding broadcast_commitment_of_def twins_sel(5) [OF tw]
  proof (rule same_and_then [OF twins_try_fold [OF tw replay]])
    fix s s' :: "'a runtime"
    assume st: "twins c s s'"
    note sel = twins_sel [OF st]
    have send: "same_result (twins c)
        (and_then (rt_broadcast ops msg (s\<lparr>rt_historical := h\<rparr>))
          (\<lambda>rt. try_fold (double_commit_event ops) (events_for_round (rt_scenario rt) node r) rt))
        (and_then (rt_broadcast ops msg (s'\<lparr>rt_historical := h\<rparr>))
          (\<lambda>rt. try_fold (double_commit_event ops) (events_for_round (rt_scenario rt) node r) rt))"
      for msg h
    proof (rule same_and_then [OF same_broadcast [OF twins_frame(4) [OF st]]])
      fix u u' :: "'a runtime"
      assume u: "twins c u u'"
      show "same_result (twins c)
          (try_fold (double_commit_event ops) (events_for_round (rt_scenario u) node r) u)
          (try_fold (double_commit_event ops) (events_for_round (rt_scenario u') node r) u')"
        unfolding twins_sel(5) [OF u] by (rule twins_try_fold [OF u double])
    qed
    show "same_result (twins c)
        (if has_dropped (rt_scenario s) node r
         then Inr (reject_msg r node ''commitment'' ''node_dropped'' s)
         else and_then (build_commitment c s node r) (\<lambda>base_record.
           and_then (rt_broadcast ops \<lparr>msg_origin = node, msg_payload = PCommitment base_record\<rparr>
               (s\<lparr>rt_historical := bt_insert (node, r) base_record (rt_historical s)\<rparr>))
             (\<lambda>rt. try_fold (double_commit_event ops) (events_for_round (rt_scenario rt) node r) rt)))
        (if has_dropped (rt_scenario s') node r
         then Inr (reject_msg r node ''commitment'' ''node_dropped'' s')
         else and_then (build_commitment c s' node r) (\<lambda>base_record.
           and_then (rt_broadcast ops \<lparr>msg_origin = node, msg_payload = PCommitment base_record\<rparr>
               (s'\<lparr>rt_historical := bt_insert (node, r) base_record (rt_historical s')\<rparr>))
             (\<lambda>rt. try_fold (double_commit_event ops) (events_for_round (rt_scenario rt) node r) rt)))"
      unfolding sel same_build_commitment [OF st]
      by (cases "build_commitment c s' node r") (simp_all add: send twins_frame(6) [OF st])
  qed
  then show ?thesis
    unfolding broadcast_commitments_def twins_sel(11) [OF assms] by (rule twins_try_fold [OF assms])
qed

lemma same_broadcast_proposal:
  assumes "twins c rt rt'"
  shows "same_result (rel_prod (=) (twins c)) (broadcast_proposal c ops r rt) (broadcast_proposal c ops r rt')"
  unfolding broadcast_proposal_def twins_sel [OF assms] Let_def
  by (auto split: sum.split option.split intro!: twins_intros assms same_and_then [OF same_broadcast [OF assms]])

lemma same_broadcast_proofs:
  assumes "twins c rt rt'"
  shows "same_result (twins c) (broadcast_proofs c ops r p rt) (broadcast_proofs c ops r p rt')"
proof -
  have "same_result (twins c) (broadcast_proof_of c ops r node rt) (broadcast_proof_of c ops r node rt')"
    if "twins c rt rt'" for node rt rt'
    using that unfolding broadcast_proof_of_def twins_sel [OF that] Let_def
    by (auto split: option.split intro!: same_broadcast)
  then show ?thesis
    unfolding broadcast_proofs_def by (rule twins_try_fold [OF assms])
qed

lemma same_broadcast_receipt:
  assumes "twins c rt rt'"
  shows "same_result (twins c) (broadcast_receipt c ops r p rt) (broadcast_receipt c ops r p rt')"
proof -
  have "agent_signing_seed rt node = agent_signing_seed rt' node" for node
  proof -
    have "rel_option (looks_same c) (bt_get (rt_agents rt) node) (bt_get (rt_agents rt') node)"
      using assms agents_look_same_get by (auto simp: twins_def)
    then show ?thesis
      by (cases rule: option.rel_cases) (auto simp: looks_same_def agent_signing_seed_def receipt_seed_def)
  qed
  then show ?thesis
    unfolding broadcast_receipt_def receipt_signature_hex_def twins_sel [OF assms] Let_def
    by (auto intro!: same_broadcast assms)
qed

section \<open>Rounds and runs\<close>

abbreviation same_round ::
  "crates \<Rightarrow> (fault + round_outcome \<times> 't runtime) option \<Rightarrow> (fault + round_outcome \<times> 't runtime) option \<Rightarrow> bool"
where
  "same_round c \<equiv> rel_option (same_result (rel_prod (=) (twins c)))"

lemma same_flushed_drains:
  assumes "twins c rt rt'"
  shows "rel_option (same_result (twins c)) (drained (drain_commitments ops r (rt_flush ops rt)))
      (drained (drain_commitments ops r (rt_flush ops rt')))"
    "rel_option (same_result (twins c)) (drained (drain_proposal d ops r (rt_flush ops rt)))
      (drained (drain_proposal d ops r (rt_flush ops rt')))"
    "rel_option (same_result (twins c)) (drained (drain_proofs d ops r (rt_flush ops rt)))
      (drained (drain_proofs d ops r (rt_flush ops rt')))"
    "rel_option (same_result (twins c)) (drained (drain_receipts ops r (rt_flush ops rt)))
      (drained (drain_receipts ops r (rt_flush ops rt')))"
  by (rule same_drained same_drains twins_frame(7) assms)+

lemma same_receipt_phase:
  assumes "twins c rt rt'"
  shows "same_round c (receipt_phase c ops r p rt) (receipt_phase c ops r p rt')"
  unfolding receipt_phase_def
  by (intro same_go [where R = "twins c"] same_flushed_drains)
    (simp_all add: same_broadcast_receipt assms)

lemma same_proof_phase:
  assumes "twins c rt rt'"
  shows "same_round c (proof_phase c ops r p rt) (proof_phase c ops r p rt')"
  unfolding proof_phase_def
  by (intro same_go [where R = "twins c"] same_flushed_drains)
    (simp_all add: same_broadcast_proofs assms same_receipt_phase twins_sel(3))

lemma same_proposal_phase:
  assumes "twins c rt rt'"
  shows "same_round c (proposal_phase c ops r rt) (proposal_phase c ops r rt')"
  unfolding proposal_phase_def
proof (rule same_go [where R = "rel_prod (=) (twins c)"])
  show "rel_option (same_result (rel_prod (=) (twins c)))
      (Some (broadcast_proposal c ops r rt)) (Some (broadcast_proposal c ops r rt'))"
    by (simp add: same_broadcast_proposal assms)
next
  fix a b :: "bool \<times> 'a runtime"
  assume ab: "rel_prod (=) (twins c) a b"
  obtain go_on u u' where a: "a = (go_on, u)" "b = (go_on, u')" and u: "twins c u u'"
    using ab by (cases a; cases b) auto
  have "same_round c
      (case logged_proposal r (rt_log v) of None \<Rightarrow> Some (Inr (Fallback, v)) | Some p \<Rightarrow> proof_phase c ops r p v)
      (case logged_proposal r (rt_log v') of None \<Rightarrow> Some (Inr (Fallback, v')) | Some p \<Rightarrow> proof_phase c ops r p v')"
    if "twins c v v'" for v v'
    using that same_proof_phase [OF that] by (simp add: twins_sel(3) [OF that] split: option.split)
  then show "same_round c
      (case a of (proceed, rt) \<Rightarrow>
        if \<not> proceed then Some (Inr (Fallback, rt))
        else go (drained (drain_proposal c ops r (rt_flush ops rt))) (\<lambda>rt.
          case logged_proposal r (rt_log rt) of None \<Rightarrow> Some (Inr (Fallback, rt))
          | Some proposal \<Rightarrow> proof_phase c ops r proposal rt))
      (case b of (proceed, rt) \<Rightarrow>
        if \<not> proceed then Some (Inr (Fallback, rt))
        else go (drained (drain_proposal c ops r (rt_flush ops rt))) (\<lambda>rt.
          case logged_proposal r (rt_log rt) of None \<Rightarrow> Some (Inr (Fallback, rt))
          | Some proposal \<Rightarrow> proof_phase c ops r proposal rt))"
    unfolding a by (cases go_on) (simp_all add: u same_go [OF same_flushed_drains(2) [OF u]])
qed

lemma same_run_one_round:
  assumes "twins c rt rt'"
  shows "same_round c (run_one_round c ops r rt) (run_one_round c ops r rt')"
  unfolding run_one_round_def
proof (intro same_go [where R = "twins c"] same_flushed_drains)
  show "rel_option (same_result (twins c))
      (Some (broadcast_commitments c ops r rt)) (Some (broadcast_commitments c ops r rt'))"
    by (simp add: same_broadcast_commitments assms)
qed (auto simp: twins_sel same_proposal_phase split: option.split intro: twins_intros)

lemma same_run_rounds:
  assumes "twins c rt rt'"
  shows "rel_option (same_result (rel_prod (=) (twins c))) (run_rounds c ops n fr rt) (run_rounds c ops n fr rt')"
  using assms
proof (induction n arbitrary: fr rt rt')
  case (Suc n)
  show ?case
    unfolding run_rounds.simps Let_def twins_sel(4) [OF Suc.prems]
  proof (rule same_go [OF same_run_one_round [OF Suc.prems]])
    fix a b :: "round_outcome \<times> 'a runtime"
    assume ab: "rel_prod (=) (twins c) a b"
    obtain res u u' where a: "a = (res, u)" "b = (res, u')" and u: "twins c u u'"
      using ab by (cases a; cases b) auto
    let ?r = "rm_current (rt_round_machine rt)"
    let ?next = "\<lambda>(outcome, rt).
      case outcome of
        Finalized \<Rightarrow> Some (Inr ((True, ?r), observe (OnRoundCommitted ?r (outcome = Finalized)) rt))
      | Fallback \<Rightarrow>
          (case advance_fallback (rt_round_machine (observe (OnRoundCommitted ?r (outcome = Finalized)) rt)) of
             (Inl e, _) \<Rightarrow> Some (Inl (Fail (RoundErr e)))
           | (Inr _, m) \<Rightarrow> run_rounds c ops n ?r
               (observe (OnRoundCommitted ?r (outcome = Finalized)) rt\<lparr>rt_round_machine := m\<rparr>))"
    have obs: "twins c (observe ev u) (observe ev u')" for ev by (rule twins_frame(5) [OF u])
    show "rel_option (same_result (rel_prod (=) (twins c))) (?next a) (?next b)"
      unfolding a
      by (cases res)
        (auto simp: obs twins_sel(4) [OF u] split: prod.split sum.split
          intro!: Suc.IH twins_frame(2) [OF obs])
  qed
qed simp

lemma same_run_with_transport:
  assumes "twins c rt rt'"
  shows "run_with_transport c ops run_id rt = run_with_transport c ops run_id rt'"
proof -
  have close: "rt_log (close_run fin fr u) = rt_log (close_run fin fr u') \<and>
      rt_transport (close_run fin fr u) = rt_transport (close_run fin fr u')"
    if "twins c u u'" for fin fr u u'
    using twins_sel(2,3) [OF that] by (simp add: close_run_def Let_def observe_def)
  have "rel_option (same_result (rel_prod (=) (twins c)))
      (run_rounds c ops (unat (rt_max_rounds rt)) 0 (rt\<lparr>rt_log := log_new run_id\<rparr>))
      (run_rounds c ops (unat (rt_max_rounds rt')) 0 (rt'\<lparr>rt_log := log_new run_id\<rparr>))"
    unfolding twins_sel(8) [OF assms] by (rule same_run_rounds [OF twins_frame(3) [OF assms]])
  then have "rel_option (same_result (=)) (run_with_transport c ops run_id rt)
      (run_with_transport c ops run_id rt')"
    unfolding run_with_transport_def by (rule same_go) (auto simp: close Let_def)
  then show ?thesis by (simp add: sum.rel_eq option.rel_eq)
qed

lemma runtime_new_twins:
  assumes "blake_ok c" "runtime_new c t tr ags sc mr = Inr rt" "runtime_new c t tr ags' sc mr = Inr rt'"
    and "agents_look_same c ags ags'"
  shows "twins c (with_run_salt salt rt) (with_run_salt salt rt')"
  using assms by (auto simp: runtime_new_Inr twins_def with_run_salt_def)

end
