(* ===== verification/Samples_Agreement.thy ===== *)
theory Samples_Agreement
  imports Samples Confidentiality Vertex_Transport
begin

text \<open>
  Two nodes of the sample deployment on Vertex transports of their own that both hear the
  requester's commitment and nothing else; and the sample agents at other prices.
\<close>

definition request :: coordination_message where
  "request = \<lparr>msg_origin = demo_id 0x11, msg_payload = PCommitment demo_commitment\<rparr>"

definition prompt :: "poll list" where
  "prompt = [Arrived request, NothingYet, NothingYet, NothingYet, NothingYet]"

text \<open>The same order, but the request arrives when the commitment phase is over.\<close>

definition late :: "poll list" where
  "late = [NothingYet, NothingYet, Arrived request, NothingYet, NothingYet]"

definition listening :: "poll list \<Rightarrow> vertex_transport" where
  "listening ps = \<lparr>vt_sent = [], vt_accepts = 2, vt_polls = ps, vt_pending = [], vt_closed = False\<rparr>"

definition lone_agent :: "u8 \<Rightarrow> (node_id, agent_state) btree_map" where
  "lone_agent b = filter (\<lambda>(i, a). i = demo_id b) demo_agents"

definition lone_runtime :: "poll list \<Rightarrow> u8 \<Rightarrow> vertex_transport runtime" where
  "lone_runtime ps b =
     \<lparr>rt_topology = demo_topology sample_crates, rt_transport = listening ps,
      rt_log = log_new ''run-pending'', rt_agents = lone_agent b,
      rt_round_machine = round_machine_new (demo_topology sample_crates) 0,
      rt_scenario = scenario_empty, rt_invalid_proof_schedule = {}, rt_historical = [],
      rt_max_rounds = 1, rt_run_salt = replicate 32 0x5a, rt_events = []\<rparr>"

definition json_stub :: "coordination_message \<Rightarrow> bytes option" where
  "json_stub m = Some [0x7b]"

abbreviation heard_ops :: "vertex_transport transport" where
  "heard_ops \<equiv> vertex_ops json_stub"

lemma lone_agent_get:
  assumes "b \<in> {0x11, 0x22, 0x33, 0x44}"
  obtains a where "lone_agent b = [(demo_id b, a)]" "bt_get demo_agents (demo_id b) = Some a"
  using assms by (auto simp: lone_agent_def demo_agents_def bt_get_def)

lemma lone_runtime_new:
  assumes "b \<in> {0x11, 0x22, 0x33, 0x44}"
  shows "runtime_new sample_crates (demo_topology sample_crates) (listening ps) (lone_agent b)
    scenario_empty 1 = Inr (lone_runtime ps b)"
  using assms
  by (auto simp: runtime_new_Inr lone_runtime_def demo_topology_def demo_node_def lone_agent_def
      demo_agents_def bt_keys_def invalid_proof_schedule_def scenario_empty_def map_filter_simps)

section \<open>A quiet Vertex transport\<close>

lemma flush_one:
  "vt_flush \<lparr>vt_sent = s, vt_accepts = n, vt_polls = Arrived m # NothingYet # ps,
      vt_pending = [], vt_closed = False\<rparr> =
   \<lparr>vt_sent = s, vt_accepts = n, vt_polls = ps, vt_pending = [m], vt_closed = False\<rparr>"
  by (subst vt_flush.simps, simp add: recv_into_pending_def recv_timeout_def)
    (subst vt_flush.simps, simp add: recv_into_pending_def recv_timeout_def)

lemma flush_none:
  "vt_flush \<lparr>vt_sent = s, vt_accepts = n, vt_polls = NothingYet # ps,
      vt_pending = [], vt_closed = False\<rparr> =
   \<lparr>vt_sent = s, vt_accepts = n, vt_polls = ps, vt_pending = [], vt_closed = False\<rparr>"
  by (subst vt_flush.simps) (simp add: recv_into_pending_def recv_timeout_def)

lemma drain_none:
  "drain_loop vt_next_ordered body
     \<lparr>vt_sent = s, vt_accepts = n, vt_polls = NothingYet # ps, vt_pending = [], vt_closed = False\<rparr> x =
   Some (\<lparr>vt_sent = s, vt_accepts = n, vt_polls = ps, vt_pending = [], vt_closed = False\<rparr>, x)"
  by (subst drain_loop.simps)
    (simp add: vt_next_ordered_def pop_front_def recv_into_pending_def recv_timeout_def)

lemma drain_one:
  "drain_loop vt_next_ordered body
     \<lparr>vt_sent = s, vt_accepts = n, vt_polls = NothingYet # ps, vt_pending = [m], vt_closed = False\<rparr> x =
   Some (\<lparr>vt_sent = s, vt_accepts = n, vt_polls = ps, vt_pending = [], vt_closed = False\<rparr>, body m x)"
  by (subst drain_loop.simps) (simp add: vt_next_ordered_def pop_front_def drain_none)

lemmas quiet_vertex = flush_one flush_none drain_none drain_one

section \<open>The run of a lone node\<close>

definition lone_start :: "poll list \<Rightarrow> u8 \<Rightarrow> vertex_transport runtime" where
  "lone_start ps b = with_run_salt [] (lone_runtime ps b)\<lparr>rt_log := log_new ''run''\<rparr>"

text \<open>After its broadcast, after the commitment it hears, and at the end of the round.\<close>

definition lone_sent :: "poll list \<Rightarrow> u8 \<Rightarrow> commitment_record \<Rightarrow> vertex_transport runtime" where
  "lone_sent ps b rec = lone_start ps b
     \<lparr>rt_historical := bt_insert (demo_id b, 0) rec [],
      rt_transport := (listening ps)\<lparr>vt_accepts := 1, vt_sent := [[0x7b]]\<rparr>\<rparr>"

definition quiet_rest :: "poll list \<Rightarrow> vertex_transport" where
  "quiet_rest ps = \<lparr>vt_sent = [[0x7b]], vt_accepts = 1, vt_polls = ps, vt_pending = [], vt_closed = False\<rparr>"

definition heard_machine :: round_machine where
  "heard_machine = snd (accept_commitment demo_commitment
     (round_machine_new (demo_topology sample_crates) 0))"

definition heard_log :: coordination_log where
  "heard_log = snd (append_commitment demo_commitment (log_new ''run''))"

definition lone_heard :: "u8 \<Rightarrow> commitment_record \<Rightarrow> vertex_transport runtime" where
  "lone_heard b rec = observe (OnCommitment (demo_id 0x11) 0) (lone_sent prompt b rec
     \<lparr>rt_round_machine := heard_machine,
      rt_log := heard_log, rt_transport := quiet_rest [NothingYet, NothingYet]\<rparr>)"

lemma lone_broadcast:
  assumes "b \<in> {0x11, 0x22, 0x33, 0x44}"
  shows "\<exists>rec. broadcast_commitments sample_crates heard_ops 0 (lone_start ps b) = Inr (lone_sent ps b rec)"
proof -
  obtain a where a: "lone_agent b = [(demo_id b, a)]" "bt_get demo_agents (demo_id b) = Some a"
    using lone_agent_get [OF assms] .
  have ags: "rt_agents (lone_start ps b) = [(demo_id b, a)]"
    by (simp add: lone_start_def with_run_salt_def lone_runtime_def a)
  have "agents_ok sample_crates (demo_topology sample_crates) (rt_agents (lone_start ps b))"
    using demo_agents_ok [of sample_crates] bt_get_mem [OF a(2)] by (auto simp: agents_ok_def ags)
  moreover have "rt_topology (lone_start ps b) = demo_topology sample_crates"
    by (simp add: lone_start_def with_run_salt_def lone_runtime_def)
  moreover have "bt_get (rt_agents (lone_start ps b)) (demo_id b) = Some a" by (simp add: ags bt_get_def)
  ultimately obtain rec where rec: "build_commitment sample_crates (lone_start ps b) (demo_id b) 0 = Inr rec"
    using build_commitment_total [OF sample_crates_ok demo_topology_wf [OF sample_crates_parts(3)]]
    by blast
  have "rt_scenario (lone_start ps b) = scenario_empty" "rt_historical (lone_start ps b) = []"
    "rt_transport (lone_start ps b) = listening ps"
    by (simp_all add: lone_start_def with_run_salt_def lone_runtime_def)
  then show ?thesis
    by (intro exI [of _ rec])
      (simp add: broadcast_commitments_def broadcast_commitment_of_def bt_keys_def ags rec
        rt_broadcast_def vertex_ops_def vt_broadcast_def json_stub_def listening_def lone_sent_def)
qed

lemma lone_drain_commit:
  "drain_commitments heard_ops 0 (rt_flush heard_ops (lone_sent prompt b rec)) = Some (lone_heard b rec)"
  "delivered heard_ops (lone_sent prompt b rec) = [request]"
proof -
  have acc: "accept_commitment demo_commitment (round_machine_new (demo_topology sample_crates) 0) =
      (Inr (), heard_machine)"
    using demo_machine_accepts by (simp add: heard_machine_def)
  have node: "cr_node_id demo_commitment = demo_id 0x11" by (simp add: demo_commitment_def)
  have app: "append_commitment demo_commitment (log_new ''run'') = (Inr (), heard_log)"
    by (simp add: heard_log_def append_commitment_def log_new_def Let_def)
  show "drain_commitments heard_ops 0 (rt_flush heard_ops (lone_sent prompt b rec)) = Some (lone_heard b rec)"
    by (simp add: drain_commitments_def rt_drain_def rt_flush_def vertex_ops_def lone_sent_def listening_def prompt_def request_def
        quiet_vertex handle_commitment_def lone_start_def with_run_salt_def lone_runtime_def acc app node
        lone_heard_def quiet_rest_def observe_def)
  show "delivered heard_ops (lone_sent prompt b rec) = [request]"
    by (simp add: delivered_def vertex_ops_def lone_sent_def listening_def prompt_def request_def quiet_vertex)
qed

lemma heard_machine_sel:
  "rm_commitments heard_machine = [(demo_id 0x11, demo_commitment)]" "rm_proposal heard_machine = None"
  "rm_topology heard_machine = demo_topology sample_crates" "rm_current heard_machine = 0"
proof -
  have "accept_commitment demo_commitment (round_machine_new (demo_topology sample_crates) 0) =
      (Inr (), heard_machine)"
    using demo_machine_accepts by (simp add: heard_machine_def)
  then have eq: "heard_machine = (round_machine_new (demo_topology sample_crates) 0)
      \<lparr>rm_history_hex := insert (cr_commitment_hex demo_commitment) {},
       rm_commitments := [(demo_id 0x11, demo_commitment)]\<rparr>"
    by (simp add: accept_commitment_Inr round_machine_new_def demo_commitment_def)
  show "rm_commitments heard_machine = [(demo_id 0x11, demo_commitment)]"
    "rm_proposal heard_machine = None" "rm_topology heard_machine = demo_topology sample_crates"
    "rm_current heard_machine = 0"
    by (simp_all add: eq round_machine_new_def)
qed

lemma lone_heard_sel:
  "rt_topology (lone_heard b rec) = demo_topology sample_crates"
  "rt_round_machine (lone_heard b rec) = heard_machine"
  "rt_transport (lone_heard b rec) = quiet_rest [NothingYet, NothingYet]"
  "rt_log (lone_heard b rec) = heard_log" "rt_agents (lone_heard b rec) = lone_agent b"
  by (simp_all add: lone_heard_def lone_sent_def lone_start_def with_run_salt_def lone_runtime_def
      observe_def)

lemma demo_requester_id:
  "\<exists>cfg. topo_requester (demo_topology sample_crates) = Some cfg \<and> nc_id cfg = demo_id 0x11"
  by (simp add: topo_requester_def demo_topology_def)

lemma lone_committed: "requester_heard (demo_topology sample_crates) (replica_of (lone_heard b rec))"
  using demo_requester_id
  by (auto simp: requester_heard_def lone_heard_sel heard_machine_sel bt_contains_def bt_get_def)

lemma no_candidate: "derive_candidate 0 demo_commitment [] = Inr None"
  by (simp add: derive_candidate_def demo_commitment_def feasible_providers_def)

lemma heard_log_sel: "log_proposals heard_log = []" "log_commitments heard_log = [demo_commitment]"
  by (simp_all add: heard_log_def append_commitment_def log_new_def Let_def)

lemma lone_proposal:
  "\<exists>rt'. proposal_phase sample_crates heard_ops 0 (lone_heard b rec) = Some (Inr (Fallback, rt')) \<and>
     rt_round_machine rt' = heard_machine \<and> log_commitments (rt_log rt') = [demo_commitment]"
  "proposal_deliveries sample_crates heard_ops 0 (lone_heard b rec) = (\<lambda>_. [])"
proof -
  let ?rt = "lone_heard b rec"
  obtain p where p: "current_proposer sample_crates heard_machine = Inr p"
    using current_proposer_total [OF demo_topology_wf [OF sample_crates_parts(3)] heard_machine_sel(3)]
    by blast
  have silent: "drain_proposal sample_crates heard_ops 0 (rt_flush heard_ops ?rt) =
      Some (?rt\<lparr>rt_transport := quiet_rest []\<rparr>)" "delivered heard_ops ?rt = []"
    by (simp_all add: drain_proposal_def rt_drain_def rt_flush_def vertex_ops_def lone_heard_sel
        quiet_rest_def quiet_vertex delivered_def)
  have none: "logged_proposal 0 (rt_log ?rt) = None"
    by (simp add: lone_heard_sel logged_proposal_def heard_log_sel)
  obtain cfg where cfg: "topo_requester (demo_topology sample_crates) = Some cfg" "nc_id cfg = demo_id 0x11"
    using demo_requester_id by blast
  have b: "broadcast_proposal sample_crates heard_ops 0 ?rt =
      (if \<not> bt_contains (lone_agent b) p then Inr (True, ?rt)
       else Inr (False, reject_msg 0 p ''proposal'' ''no_feasible_provider'' ?rt))"
    by (simp add: broadcast_proposal_def lone_heard_sel p cfg heard_machine_sel bt_get_def no_candidate)
  show "\<exists>rt'. proposal_phase sample_crates heard_ops 0 ?rt = Some (Inr (Fallback, rt')) \<and>
      rt_round_machine rt' = heard_machine \<and> log_commitments (rt_log rt') = [demo_commitment]"
    using silent none
    by (simp add: proposal_phase_def b lone_heard_sel heard_log_sel reject_msg_def append_rejection_def)
  show "proposal_deliveries sample_crates heard_ops 0 ?rt = (\<lambda>_. [])"
    using silent none by (auto simp: proposal_deliveries_def b)
qed

text \<open>The whole run: one round, which falls back; and what it delivered.\<close>

lemma lone_run:
  assumes "b \<in> {0x11, 0x22, 0x33, 0x44}"
  shows "\<exists>out. run sample_crates heard_ops ''run'' (with_run_salt [] (lone_runtime prompt b)) = Some (Inr out) \<and>
      log_commitments (ro_log out) = [demo_commitment]"
    "run_deliveries sample_crates heard_ops ''run'' (with_run_salt [] (lone_runtime prompt b)) =
       [(\<lambda>_. [])(CommitPhase := [request])]"
proof -
  obtain rec where bc: "broadcast_commitments sample_crates heard_ops 0 (lone_start prompt b) = Inr (lone_sent prompt b rec)"
    using lone_broadcast [OF assms] by blast
  obtain rt' where pp: "proposal_phase sample_crates heard_ops 0 (lone_heard b rec) = Some (Inr (Fallback, rt'))"
    and m: "rt_round_machine rt' = heard_machine" and l: "log_commitments (rt_log rt') = [demo_commitment]"
    using lone_proposal(1) by blast
  obtain cfg where cfg: "topo_requester (demo_topology sample_crates) = Some cfg"
    "bt_contains (rm_commitments heard_machine) (nc_id cfg)"
    using lone_committed [of b rec] demo_requester_id
    by (auto simp: requester_heard_def lone_heard_sel)
  have round: "run_one_round sample_crates heard_ops 0 (lone_start prompt b) = Some (Inr (Fallback, rt'))"
    using cfg by (simp add: run_one_round_def bc lone_drain_commit lone_heard_sel pp)
  have start: "rm_current (rt_round_machine (lone_start prompt b)) = 0" "rt_max_rounds (with_run_salt [] (lone_runtime prompt b)) = 1"
    by (simp_all add: lone_start_def with_run_salt_def lone_runtime_def round_machine_new_def)
  obtain m' where adv: "advance_fallback heard_machine = (Inr (), m')"
    by (simp add: advance_fallback_def advance_to_def heard_machine_sel round_next_def)
  show "\<exists>out. run sample_crates heard_ops ''run'' (with_run_salt [] (lone_runtime prompt b)) = Some (Inr out) \<and>
      log_commitments (ro_log out) = [demo_commitment]"
    using start l
    by (simp add: run_def round m adv close_run_def observe_def Let_def set_final_round_def
        set_abort_reason_def flip: lone_start_def)
  show "run_deliveries sample_crates heard_ops ''run'' (with_run_salt [] (lone_runtime prompt b)) =
      [(\<lambda>_. [])(CommitPhase := [request])]"
    using start
    by (simp add: run_deliveries_def observe_def round m adv round_deliveries_def bc lone_drain_commit lone_committed
        lone_heard_sel lone_proposal(2) flip: lone_start_def)
qed

text \<open>
  The node that hears the request late: nothing in its commitment phase, so its round falls back
  at once and its log has no commitment.
\<close>

lemma late_run:
  assumes "b \<in> {0x11, 0x22, 0x33, 0x44}"
  shows "\<exists>out. run sample_crates heard_ops ''run'' (with_run_salt [] (lone_runtime late b)) = Some (Inr out) \<and>
    log_commitments (ro_log out) = []"
proof -
  obtain rec where bc: "broadcast_commitments sample_crates heard_ops 0 (lone_start late b) = Inr (lone_sent late b rec)"
    using lone_broadcast [OF assms] by blast
  let ?rt = "lone_sent late b rec\<lparr>rt_transport := quiet_rest [Arrived request, NothingYet, NothingYet]\<rparr>"
  have drain: "drain_commitments heard_ops 0 (rt_flush heard_ops (lone_sent late b rec)) = Some ?rt"
    by (simp add: drain_commitments_def rt_drain_def rt_flush_def vertex_ops_def lone_sent_def
        listening_def late_def quiet_vertex quiet_rest_def)
  have sel: "rt_topology ?rt = demo_topology sample_crates" "rt_log ?rt = log_new ''run''"
    "rt_round_machine ?rt = round_machine_new (demo_topology sample_crates) 0"
    by (simp_all add: lone_sent_def lone_start_def with_run_salt_def lone_runtime_def)
  obtain cfg where cfg: "topo_requester (demo_topology sample_crates) = Some cfg" "nc_id cfg = demo_id 0x11"
    using demo_requester_id by blast
  have round: "run_one_round sample_crates heard_ops 0 (lone_start late b) =
      Some (Inr (Fallback, reject_msg 0 (demo_id 0x11) ''round'' ''requester_missing'' ?rt))"
    unfolding run_one_round_def bc go_simps drain drained_simps sel(1,3)
    by (simp add: cfg round_machine_new_def bt_contains_def bt_get_def)
  have start: "rm_current (rt_round_machine (lone_start late b)) = 0"
    "rt_max_rounds (with_run_salt [] (lone_runtime late b)) = 1"
    by (simp_all add: lone_start_def with_run_salt_def lone_runtime_def round_machine_new_def)
  obtain m' where adv: "advance_fallback (round_machine_new (demo_topology sample_crates) 0) = (Inr (), m')"
    by (simp add: advance_fallback_def advance_to_def round_machine_new_def round_next_def)
  have nil: "log_commitments (log_new ''run'') = []" by (simp add: log_new_def)
  show ?thesis
    using start adv sel nil
    by (simp add: run_def round close_run_def observe_def Let_def set_final_round_def reject_msg_def
        append_rejection_def set_abort_reason_def flip: lone_start_def)
qed

lemma same_order: "vertex_queue (listening prompt) = vertex_queue (listening late)"
  by (simp add: vertex_queue_def listening_def prompt_def late_def map_filter_simps)

section \<open>The same agents at other prices\<close>

definition priced_agents :: "u64 \<Rightarrow> u64 \<Rightarrow> (node_id, agent_state) btree_map" where
  "priced_agents budget price =
     [(demo_id 0x11, agent_requester (requester_intent_new (demo_id 0x11) gpu budget)),
      (demo_id 0x22, agent_provider
         (provider_with_signing (provider_intent_new (demo_id 0x22) [gpu] price) demo_seed)),
      (demo_id 0x33, agent_provider (provider_intent_new (demo_id 0x33) [cpu, gpu] price)),
      (demo_id 0x44, agent_provider (provider_intent_new (demo_id 0x44) [cpu] price))]"

lemma priced_demo_agents: "priced_agents 1000 100 = demo_agents"
  by (simp add: priced_agents_def demo_agents_def demo_requester_def demo_signer_def)

lemma sample_commits:
  assumes "length nonce = 32"
  shows "commit_requester sample_crates (requester_intent_new (demo_id b) gpu x) nonce r = Inr nonce"
    "claims \<in> {[gpu], [cpu, gpu], [cpu]} \<Longrightarrow>
       commit_provider sample_crates (provider_intent_new (demo_id b) claims x) nonce r = Inr nonce"
    "commit_provider sample_crates
       (provider_with_signing (provider_intent_new (demo_id b) [gpu] x) seed) nonce r = Inr nonce"
proof -
  have blake: "blake2s sample_crates = sample_blake" by (simp add: sample_crates_def)
  note defs = commit_requester_def commit_provider_def requester_intent_new_def
    provider_intent_new_def provider_with_signing_def build_requester_layout [OF _ assms]
    build_provider_layout [OF _ assms] tag_bytes_def hash_preimage_def blake
    sample_hash_layouts [OF assms]
  show "commit_requester sample_crates (requester_intent_new (demo_id b) gpu x) nonce r = Inr nonce"
    "claims \<in> {[gpu], [cpu, gpu], [cpu]} \<Longrightarrow>
       commit_provider sample_crates (provider_intent_new (demo_id b) claims x) nonce r = Inr nonce"
    "commit_provider sample_crates
       (provider_with_signing (provider_intent_new (demo_id b) [gpu] x) seed) nonce r = Inr nonce"
    by (auto simp: defs)
qed

lemma priced_look_same:
  "agents_look_same sample_crates (priced_agents x y) (priced_agents x' y')"
  by (simp add: agents_look_same_def priced_agents_def looks_same_def agent_commit_def receipt_seed_def
      agent_requester_def agent_provider_def sample_commits)
    (simp add: provider_intent_new_def provider_with_signing_def)

end
