(* ===== verification/Child_Output.thy ===== *)
theory Child_Output
  imports Orchestrator
begin

text \<open>
  The pipes between a node and the orchestrator: everything a node prints, the two threads that
  relay a child's output, and the orchestrator's closing lines. What the supervision loop
  hears of a child is the sequence of rounds it has committed.
\<close>

section \<open>Starting a child\<close>

record child_command =
  cc_binary :: string
  cc_args :: "string list"
  cc_env :: "string \<times> string"

definition child_command_of ::
  "string \<Rightarrow> node_spec \<Rightarrow> node_spec list \<Rightarrow> nat \<Rightarrow> orch_args \<Rightarrow> bool \<Rightarrow> child_command" where
  "child_command_of binary spec all self_idx args rejoin =
     \<lparr>cc_binary = binary, cc_args = spawn_argv spec all self_idx args rejoin, cc_env = spawn_env spec\<rparr>"

text \<open>
  \<open>spawn\<close> is what the operating system makes of the command: an error, or which of the two
  pipes the child has.
\<close>

definition spawn_one ::
  "(child_command \<Rightarrow> string + (bool \<times> bool)) \<Rightarrow> string \<Rightarrow> node_spec \<Rightarrow> node_spec list \<Rightarrow> nat \<Rightarrow>
     orch_args \<Rightarrow> bool \<Rightarrow> orchestrate_error + unit" where
  "spawn_one spawn binary spec all self_idx args rejoin =
     (case spawn (child_command_of binary spec all self_idx args rejoin) of
        Inl e \<Rightarrow> Inl (OrchSpawn (ns_alias spec) e)
      | Inr (has_stdout, has_stderr) \<Rightarrow>
          if \<not> has_stdout then Inl (OrchSpawn (ns_alias spec) ''no stdout pipe'')
          else if \<not> has_stderr then Inl (OrchSpawn (ns_alias spec) ''no stderr pipe'')
          else Inr ())"

section \<open>The relay threads\<close>

text \<open>\<open>reader.lines().map_while(Result::ok)\<close>: the lines before the first that cannot be read.\<close>

fun ok_lines :: "(io_error + string) list \<Rightarrow> string list" where
  "ok_lines [] = []"
| "ok_lines (Inr line # rest) = line # ok_lines rest"
| "ok_lines (Inl _ # rest) = []"

text \<open>The lines printed and the events sent, in order.\<close>

fun relay_stdout :: "string \<Rightarrow> string list \<Rightarrow> string list \<times> orch_event list" where
  "relay_stdout al [] = ([], [])"
| "relay_stdout al (line # rest) =
     (case relay_stdout al rest of
        (printed, events) \<Rightarrow>
          (line # printed,
           (case parse_round_committed line of
              Some r \<Rightarrow> RoundCommitted al r # events
            | None \<Rightarrow> events)))"

definition relay_stderr :: "string \<Rightarrow> string list \<Rightarrow> string list" where
  "relay_stderr al lines = map (\<lambda>line. ''['' @ al @ ''/err] '' @ line) lines"

section \<open>The closing lines\<close>

definition summary_lines :: "orch_result \<Rightarrow> string list" where
  "summary_lines r =
     [''[ORCHESTRATOR] summary finalized='' @ show_nat (or_children_finalized r) @
      '' aborted='' @ show_nat (or_children_aborted r) @
      '' bundles='' @ show_nat (length (or_bundle_dirs r))] @
     map (\<lambda>dir. ''[ORCHESTRATOR] bundle: '' @ dir) (or_bundle_dirs r) @
     [''[ORCHESTRATOR] '' @ (if or_overall_ok r then ''exit 0'' else ''exit 1'')]"

section \<open>What a node prints\<close>

definition engine_start_line :: "string \<Rightarrow> string \<Rightarrow> nat \<Rightarrow> bool \<Rightarrow> string" where
  "engine_start_line al bind npeers rejoin =
     ''['' @ al @ ''] [VERTEX] engine start addr='' @ bind @ '' peers='' @ show_nat npeers @
     '' rejoin='' @ show_bool rejoin"

definition bootstrap_line :: "string \<Rightarrow> string" where
  "bootstrap_line al = ''['' @ al @ ''] [VERTEX] bootstrap complete''"

definition session_start_line :: "string \<Rightarrow> string \<Rightarrow> string" where
  "session_start_line al run_id =
     ''['' @ al @ ''] [VERTEX] persistent session start run_id='' @ run_id"

definition session_complete_line ::
  "string \<Rightarrow> string \<Rightarrow> u64 \<Rightarrow> bool \<Rightarrow> string option \<Rightarrow> string" where
  "session_complete_line al run_id final_round finalized abort_reason =
     ''['' @ al @ ''] [VERTEX] persistent session complete run_id='' @ run_id @
     '' final_round='' @ show_u64 final_round @ '' finalized='' @ show_bool finalized @
     (case abort_reason of Some reason \<Rightarrow> '' abort_reason='' @ reason | None \<Rightarrow> [])"

record session =
  ss_run_id :: string
  ss_events :: "observer_event list"
  ss_final_round :: u64
  ss_finalized :: bool
  ss_abort_reason :: "string option"

definition session_lines :: "crates \<Rightarrow> string \<Rightarrow> bool \<Rightarrow> session \<Rightarrow> string list" where
  "session_lines c al persist s =
     (if persist then [session_start_line al (ss_run_id s)] else []) @
     map (node_line c al) (ss_events s) @
     (if persist then [session_complete_line al (ss_run_id s) (ss_final_round s) (ss_finalized s)
        (ss_abort_reason s)] else [])"

definition node_stdout ::
  "crates \<Rightarrow> string \<Rightarrow> string \<Rightarrow> nat \<Rightarrow> bool \<Rightarrow> bool \<Rightarrow> session list \<Rightarrow> string list" where
  "node_stdout c al bind npeers rejoin persist sessions =
     engine_start_line al bind npeers rejoin # bootstrap_line al #
     concat (map (session_lines c al persist) sessions)"

section \<open>What the orchestrator hears\<close>

fun committed_round :: "observer_event \<Rightarrow> u64 option" where
  "committed_round (OnRoundCommitted r _) = Some r"
| "committed_round _ = None"

lemma relay_stdout_eq:
  "relay_stdout al lines = (lines, map (RoundCommitted al) (List.map_filter parse_round_committed lines))"
  by (induction lines) (auto simp: map_filter_simps split: option.split)

lemma parse_other_word:
  assumes "\<forall>ch \<in> set w. word_char ch" "w \<noteq> []" "w \<noteq> ''round''"
  shows "parse_round_committed (''['' @ node_alias_at i @ ''] [VERTEX] '' @ w @ CHR '' '' # s) = None"
proof -
  have "after_tag ''[VERTEX]'' (''['' @ node_alias_at i @ ''] [VERTEX] '' @ w @ CHR '' '' # s) =
      after_tag ''[VERTEX]'' ((node_alias_at i @ ''] '') @ ''[VERTEX]'' @ '' '' @ w @ CHR '' '' # s)"
    by (simp add: node_alias_at_def)
  also have "\<dots> = Some ('' '' @ w @ CHR '' '' # s)"
    using digits_no [OF show_nat_digits, of "CHR ''[''"]
    by (subst after_tag_skip) (auto simp: node_alias_at_def digit_value_def)
  finally have tag: "after_tag ''[VERTEX]'' (''['' @ node_alias_at i @ ''] [VERTEX] '' @ w @ CHR '' '' # s) =
    Some ('' '' @ w @ CHR '' '' # s)" .
  have "strip_all white_space ('' '' @ w @ CHR '' '' # s) = w @ CHR '' '' # s"
    using assms(1,2) by (cases w) (simp_all add: strip_all_space strip_all_none word_char_head)
  then show ?thesis
    using next_word_plain [OF assms(1,2), of s] assms(3)
    unfolding parse_round_committed_def tag by simp
qed

lemma parse_quiet_lines:
  "parse_round_committed (engine_start_line (node_alias_at i) bind n rejoin) = None"
  "parse_round_committed (bootstrap_line (node_alias_at i)) = None"
  "parse_round_committed (session_start_line (node_alias_at i) run_id) = None"
  "parse_round_committed (session_complete_line (node_alias_at i) run_id r fin reason) = None"
  using parse_other_word [of "''engine''" i] parse_other_word [of "''bootstrap''" i]
    parse_other_word [of "''persistent''" i]
  by (simp_all add: engine_start_line_def bootstrap_line_def session_start_line_def
      session_complete_line_def word_char_def)

lemma node_events_parse:
  assumes "\<forall>n. CHR ''['' \<notin> set (to_hex c n)" "\<forall>e \<in> set es. plain_event e"
  shows "List.map_filter parse_round_committed (map (node_line c (node_alias_at i)) es) =
    List.map_filter committed_round es"
  using assms(2)
proof (induction es)
  case (Cons e es)
  then show ?case
    using parse_node_line [OF assms(1), of e i] by (cases e) (simp_all add: map_filter_simps)
qed (simp add: map_filter_simps)

lemma session_lines_parse:
  assumes "\<forall>n. CHR ''['' \<notin> set (to_hex c n)" "\<forall>e \<in> set (ss_events s). plain_event e"
  shows "List.map_filter parse_round_committed (session_lines c (node_alias_at i) persist s) =
    List.map_filter committed_round (ss_events s)"
  by (simp add: session_lines_def map_filter_append map_filter_simps parse_quiet_lines
      node_events_parse [OF assms])

lemma child_output_read:
  assumes "\<forall>n. CHR ''['' \<notin> set (to_hex c n)" "\<forall>s \<in> set sessions. \<forall>e \<in> set (ss_events s). plain_event e"
  shows "relay_stdout (node_alias_at i) (node_stdout c (node_alias_at i) bind n rejoin persist sessions) =
    (node_stdout c (node_alias_at i) bind n rejoin persist sessions,
     map (RoundCommitted (node_alias_at i)) (List.map_filter committed_round (concat (map ss_events sessions))))"
proof -
  have "List.map_filter parse_round_committed (concat (map (session_lines c (node_alias_at i) persist) sessions)) =
      List.map_filter committed_round (concat (map ss_events sessions))"
    using assms(2)
    by (induction sessions) (simp_all add: map_filter_append session_lines_parse [OF assms(1)] map_filter_simps)
  then show ?thesis
    by (simp add: relay_stdout_eq node_stdout_def map_filter_simps parse_quiet_lines)
qed

end
