(* ===== verification/Vertex_Start.thy ===== *)
theory Vertex_Start
  imports Node
begin

text \<open>
  \<open>VertexTransport::start\<close> and the part of \<open>run_worker\<close> before its select loop: the steps that
  bring up a \<open>tashi-vertex\<close> engine and the signal the worker thread sends back. The crate's own
  types and calls are a record of parameters. An \<open>anyhow\<close> error prints its outermost context,
  so the message of a failed step is the step's, not the crate's.
\<close>

record ('key, 'pk, 'peers, 'ctx, 'sock, 'engine) vertex_crate =
  vx_parse_secret :: "string \<Rightarrow> string + 'key"
  vx_public :: "'key \<Rightarrow> 'pk"
  vx_parse_public :: "string \<Rightarrow> string + 'pk"
  vx_peers_new :: "string + 'peers"
  vx_peers_insert :: "string \<Rightarrow> 'pk \<Rightarrow> 'peers \<Rightarrow> string + 'peers"
  vx_context_new :: "string + 'ctx"
  vx_socket_bind :: "'ctx \<Rightarrow> string \<Rightarrow> string + 'sock"
  vx_engine_start :: "'ctx \<Rightarrow> 'sock \<Rightarrow> 'key \<Rightarrow> 'peers \<Rightarrow> bool \<Rightarrow> string + 'engine"

definition with_context :: "string \<Rightarrow> string + 'a \<Rightarrow> string + 'a" where
  "with_context what r = map_sum (\<lambda>_. what) id r"

lemma with_context_Inr [simp]: "with_context what r = Inr x \<longleftrightarrow> r = Inr x"
  by (cases r) (simp_all add: with_context_def)

lemma with_context_Inl [simp]: "with_context what r = Inl e \<longleftrightarrow> e = what \<and> (\<exists>e'. r = Inl e')"
  by (cases r) (auto simp: with_context_def)

definition insert_peer ::
  "('key, 'pk, 'peers, 'ctx, 'sock, 'engine) vertex_crate \<Rightarrow> string \<times> string \<Rightarrow> 'peers \<Rightarrow> string + 'peers"
where
  "insert_peer vx peer peers =
     (case peer of (pub_hex, addr) \<Rightarrow>
        and_then (with_context ''parse peer public key'' (vx_parse_public vx pub_hex)) (\<lambda>pk.
        with_context ''insert peer'' (vx_peers_insert vx addr pk peers)))"

text \<open>The registry a worker starts its engine with: the configured peers in order, then itself.\<close>

definition peer_registry ::
  "('key, 'pk, 'peers, 'ctx, 'sock, 'engine) vertex_crate \<Rightarrow> vertex_config \<Rightarrow> 'key \<Rightarrow> string + 'peers" where
  "peer_registry vx config key =
     and_then (with_context ''create peer registry'' (vx_peers_new vx)) (\<lambda>peers.
     and_then (try_fold (insert_peer vx) (vc_peers config) peers) (\<lambda>peers.
     with_context ''insert self'' (vx_peers_insert vx (vc_bind config) (vx_public vx key) peers)))"

definition engine_startup ::
  "('key, 'pk, 'peers, 'ctx, 'sock, 'engine) vertex_crate \<Rightarrow> vertex_config \<Rightarrow> string + 'engine" where
  "engine_startup vx config =
     and_then (with_context ''parse ed25519 secret'' (vx_parse_secret vx (vc_secret_hex config))) (\<lambda>key.
     and_then (peer_registry vx config key) (\<lambda>peers.
     and_then (with_context ''create vertex context'' (vx_context_new vx)) (\<lambda>context.
     and_then (with_context ''bind vertex socket'' (vx_socket_bind vx context (vc_bind config))) (\<lambda>socket.
     with_context ''start vertex engine''
       (vx_engine_start vx context socket key peers (vc_rejoin config))))))"

text \<open>
  What arrives on the startup channel. A worker whose \<open>tokio\<close> runtime cannot be built returns
  before it has sent anything.
\<close>

datatype startup_signal = StartupOk | StartupFailed string | SenderGone

definition worker_startup ::
  "bool \<Rightarrow> ('key, 'pk, 'peers, 'ctx, 'sock, 'engine) vertex_crate \<Rightarrow> vertex_config \<Rightarrow>
     startup_signal \<times> string option" where
  "worker_startup runtime_built vx config =
     (if \<not> runtime_built then (SenderGone, Some ''build vertex worker runtime'')
      else case engine_startup vx config of
             Inl err \<Rightarrow> (StartupFailed err, Some err)
           | Inr _ \<Rightarrow> (StartupOk, None))"

text \<open>
  \<open>accepts\<close> and \<open>polls\<close> are the worker's schedule from then on (see \<open>Vertex_Transport\<close>).
\<close>

definition vertex_start ::
  "bool \<Rightarrow> bool \<Rightarrow> ('key, 'pk, 'peers, 'ctx, 'sock, 'engine) vertex_crate \<Rightarrow> nat \<Rightarrow> poll list \<Rightarrow>
     vertex_config \<Rightarrow> string + vertex_transport" where
  "vertex_start thread_spawned runtime_built vx accepts polls config =
     (if \<not> thread_spawned then Inl ''spawn vertex worker thread''
      else case fst (worker_startup runtime_built vx config) of
             StartupOk \<Rightarrow>
               Inr \<lparr>vt_sent = [], vt_accepts = accepts, vt_polls = polls, vt_pending = [],
                    vt_closed = False\<rparr>
           | StartupFailed err \<Rightarrow> Inl err
           | SenderGone \<Rightarrow> Inl ''vertex worker exited before startup completed'')"

section \<open>What a started transport stands for\<close>

lemma vertex_start_Inr:
  "vertex_start spawned built vx accepts polls config = Inr t \<longleftrightarrow>
     spawned \<and> built \<and> (\<exists>engine. engine_startup vx config = Inr engine) \<and>
     t = \<lparr>vt_sent = [], vt_accepts = accepts, vt_polls = polls, vt_pending = [], vt_closed = False\<rparr>"
  by (auto simp: vertex_start_def worker_startup_def split: sum.split)

lemma engine_startup_Inr:
  "engine_startup vx config = Inr engine \<longleftrightarrow>
     (\<exists>key peers context socket. vx_parse_secret vx (vc_secret_hex config) = Inr key \<and>
        peer_registry vx config key = Inr peers \<and> vx_context_new vx = Inr context \<and>
        vx_socket_bind vx context (vc_bind config) = Inr socket \<and>
        vx_engine_start vx context socket key peers (vc_rejoin config) = Inr engine)"
  by (auto simp: engine_startup_def)

lemma insert_peer_Inr:
  "insert_peer vx (pub, addr) peers = Inr peers' \<longleftrightarrow>
     (\<exists>pk. vx_parse_public vx pub = Inr pk \<and> vx_peers_insert vx addr pk peers = Inr peers')"
  by (auto simp: insert_peer_def)

text \<open>
  A registry kept as an association list, to state which peers an engine is started with.
\<close>

lemma peer_registry_list:
  assumes "vx_peers_new vx = Inr []"
    and "\<And>addr pk ps. vx_peers_insert vx addr pk ps = Inr (ps @ [(addr, pk)])"
    and "peer_registry vx config key = Inr peers"
  shows "\<exists>pks. list_all2 (\<lambda>peer pk. vx_parse_public vx (fst peer) = Inr pk) (vc_peers config) pks \<and>
    peers = zip (map snd (vc_peers config)) pks @ [(vc_bind config, vx_public vx key)]"
proof -
  have "\<exists>pks. list_all2 (\<lambda>peer pk. vx_parse_public vx (fst peer) = Inr pk) ps pks \<and>
      r' = r @ zip (map snd ps) pks"
    if "try_fold (insert_peer vx) ps r = Inr r'" for ps r r'
    using that
  proof (induction ps arbitrary: r)
    case (Cons p ps)
    obtain pub addr where p: "p = (pub, addr)" by fastforce
    from Cons.prems obtain pk where pk: "vx_parse_public vx pub = Inr pk"
      and rest: "try_fold (insert_peer vx) ps (r @ [(addr, pk)]) = Inr r'"
      by (auto simp: p insert_peer_Inr assms(2))
    from Cons.IH [OF rest] obtain pks where
      "list_all2 (\<lambda>peer pk. vx_parse_public vx (fst peer) = Inr pk) ps pks"
      "r' = (r @ [(addr, pk)]) @ zip (map snd ps) pks" by blast
    with pk p show ?case by (intro exI [of _ "pk # pks"]) simp
  qed simp
  with assms show ?thesis
    by (fastforce simp: peer_registry_def)
qed

text \<open>Which step a failed start names.\<close>

lemma vertex_start_Inl:
  assumes "vertex_start spawned built vx accepts polls config = Inl err"
  shows "err \<in> {''spawn vertex worker thread'', ''vertex worker exited before startup completed'',
    ''parse ed25519 secret'', ''create peer registry'', ''parse peer public key'', ''insert peer'',
    ''insert self'', ''create vertex context'', ''bind vertex socket'', ''start vertex engine''}"
proof -
  have fold: "e \<in> {''parse peer public key'', ''insert peer''}"
    if "try_fold (insert_peer vx) ps r = Inl e" for ps r e
    using that
    by (induction ps arbitrary: r) (auto simp: and_then_Inl insert_peer_def split: prod.splits)
  show ?thesis
    using assms
    by (auto simp: vertex_start_def worker_startup_def engine_startup_def peer_registry_def
        and_then_Inl split: if_splits sum.splits dest!: fold)
qed

end
