(* ===== verification/Parity_Fixtures.thy ===== *)
theory Parity_Fixtures
  imports Filesystem Matching
begin

text \<open>
  The loaders of \<open>parity.rs\<close>: one fixture file, and the fixtures of a directory sorted by name.
  \<open>serde_json\<close> is a parameter.
\<close>

record parity_fixture =
  fx_name :: string
  fx_round :: round_id
  fx_requester :: public_intent
  fx_provider :: public_intent
  fx_expected :: expected_outcome

datatype fixture_error = FixtureIo io_error | InvalidData string

text \<open>\<open>Path::extension\<close> of a file name: what follows its last dot, unless that is its first character.\<close>

definition name_extension :: "string \<Rightarrow> string option" where
  "name_extension n =
     (let parts = split_on (CHR ''.'') n
      in if length parts < 2 \<or> n = ''..'' \<or> butlast parts = [[]] then None else Some (last parts))"

definition fixture_load ::
  "(string \<Rightarrow> string + parity_fixture) \<Rightarrow> fs \<Rightarrow> string \<Rightarrow> fixture_error + parity_fixture" where
  "fixture_load parse h path =
     and_then (map_sum FixtureIo id (fs_read_to_string h path)) (\<lambda>text.
     map_sum InvalidData id (parse text))"

definition fixture_load_dir ::
  "(string \<Rightarrow> string + parity_fixture) \<Rightarrow> fs \<Rightarrow> string \<Rightarrow> fixture_error + parity_fixture list" where
  "fixture_load_dir parse h dir =
     and_then (map_sum FixtureIo id (fs_read_dir h dir)) (\<lambda>names.
     and_then (try_map (\<lambda>n. fixture_load parse h (path_join dir n))
                 (filter (\<lambda>n. name_extension n = Some ''json'') names)) (\<lambda>out.
     Inr (sort_key fx_name out)))"

section \<open>What a directory loads as\<close>

lemma try_map_mset:
  assumes "try_map f xs = Inr ys" "mset xs = mset xs'"
  shows "\<exists>ys'. try_map f xs' = Inr ys' \<and> mset ys' = mset ys"
proof -
  have fs: "\<forall>x \<in> set xs. f x = Inr (projr (f x))" and ys: "ys = map (\<lambda>x. projr (f x)) xs"
    using assms(1) unfolding try_map_Inr by (induction rule: list_all2_induct) auto
  have "set xs' = set xs" using assms(2) by (metis set_mset_mset)
  with fs have "try_map f xs' = Inr (map (\<lambda>x. projr (f x)) xs')"
    unfolding try_map_Inr by (auto simp: list_all2_conv_all_nth)
  moreover have "mset (map (\<lambda>x. projr (f x)) xs') = mset ys" using assms(2) by (simp add: ys)
  ultimately show ?thesis by blast
qed

lemma try_map_cong: "(\<And>x. x \<in> set xs \<Longrightarrow> f x = g x) \<Longrightarrow> try_map f xs = try_map g xs"
  by (induction xs) simp_all

text \<open>
  The result does not depend on the order in which the directory is listed, as long as the
  fixtures have different names.
\<close>

lemma load_dir_order:
  assumes "fixture_load_dir parse h dir = Inr fixtures" "distinct (map fx_name fixtures)"
    and "fs_read_dir h dir = Inr names" "fs_read_dir h' dir = Inr names'" "mset names = mset names'"
    and "\<And>n. n \<in> set names \<Longrightarrow>
      fs_read_to_string h' (path_join dir n) = fs_read_to_string h (path_join dir n)"
  shows "fixture_load_dir parse h' dir = Inr fixtures"
proof -
  let ?js = "filter (\<lambda>n. name_extension n = Some ''json'')"
    and ?load = "\<lambda>h n. fixture_load parse h (path_join dir n)"
  obtain out where out: "try_map (?load h) (?js names) = Inr out" "fixtures = sort_key fx_name out"
    using assms(1,3) by (auto simp: fixture_load_dir_def)
  have same: "?load h' n = ?load h n" if "n \<in> set (?js names')" for n
    using that assms(6) mset_eq_setD [OF assms(5)] by (simp add: fixture_load_def)
  have "mset (?js names) = mset (?js names')" using assms(5) by (simp add: mset_filter)
  from try_map_mset [OF out(1) this] obtain out' where
    out': "try_map (?load h) (?js names') = Inr out'" "mset out' = mset out" by blast
  have "try_map (?load h') (?js names') = Inr out'"
    using out'(1) try_map_cong [of "?js names'" "?load h'" "?load h"] same by simp
  moreover have "sort_key fx_name out' = fixtures"
  proof (rule sort_key_inj_key_eq)
    show "mset out' = mset fixtures" using out'(2) out(2) by simp
    then have "set out' = set fixtures" by (rule mset_eq_setD)
    then show "inj_on fx_name (set out')" using assms(2) by (simp add: distinct_map)
  qed (simp add: out(2))
  ultimately show ?thesis using assms(4) by (simp add: fixture_load_dir_def)
qed

end
