(* ===== verification/Run_Bounds.thy ===== *)
theory Run_Bounds
  imports Bus_Run
begin

text \<open>
  Bounds on what a run leaves behind, over any transport: the round it ends in, and the number
  of commitments in its log, however many messages arrive.
\<close>

lemma run_rounds_bound:
  assumes "run_rounds c ops n fr rt = Some (Inr ((fin, fr'), rt'))"
    and "rt_open c t (rm_current (rt_round_machine rt)) rt"
  shows "if n = 0 then fr' = fr
    else rm_current (rt_round_machine rt) \<le> fr' \<and> unat fr' < unat (rm_current (rt_round_machine rt)) + n"
  using assms
proof (induction n arbitrary: fr rt)
  case (Suc n)
  let ?r = "rm_current (rt_round_machine rt)"
  obtain res rt1 where 1: "run_one_round c ops ?r rt = Some (Inr (res, rt1))"
    using Suc.prems(1) by (auto simp: go_Inr Let_def)
  note post = run_one_round_post [OF 1 Suc.prems(2)]
  show ?case
  proof (cases res)
    case Finalized
    with Suc.prems(1) 1 show ?thesis by (auto simp: Let_def)
  next
    case Fallback
    let ?rt = "observe (OnRoundCommitted ?r False) rt1"
    obtain m where adv: "advance_fallback (rt_round_machine rt1) = (Inr (), m)"
      and rest: "run_rounds c ops n ?r (?rt\<lparr>rt_round_machine := m\<rparr>) = Some (Inr ((fin, fr'), rt'))"
      using Suc.prems(1) 1 Fallback by (auto simp: Let_def split: prod.split_asm sum.split_asm)
    have op: "rt_open c t ?r ?rt" using post Fallback by (simp add: round_post_def)
    have adv': "advance_fallback (rt_round_machine ?rt) = (Inr (), m)" using adv by simp
    note next_open = rt_open_advance [OF op adv']
    have cur: "rm_current m = round_next ?r"
      using next_open(1) by (simp add: rt_open_def rt_inv_def)
    then have at: "rm_current (rt_round_machine (?rt\<lparr>rt_round_machine := m\<rparr>)) = round_next ?r"
      by simp
    have "?r \<noteq> - 1" using next_open(2) round_next_wraps by (metis word_not_simps(1))
    then have succ: "unat (round_next ?r) = Suc (unat ?r)" by (rule unat_round_next)
    have "if n = 0 then fr' = ?r else round_next ?r \<le> fr' \<and> unat fr' < unat (round_next ?r) + n"
      using Suc.IH [OF rest] next_open(1) unfolding at by blast
    then show ?thesis using succ next_open(2) by (auto split: if_splits)
  qed
qed simp

lemma run_final_round_bound:
  assumes new: "runtime_new c t tr agents sc mr = Inr rt"
    and run: "run c ops run_id (with_run_salt salt rt) = Some (Inr out)"
  shows "unat (ro_final_round out) < max 1 (unat mr)"
proof -
  let ?rt = "with_run_salt salt rt\<lparr>rt_log := log_new run_id\<rparr>"
  obtain fin fr rt' where r: "run_rounds c ops (unat (rt_max_rounds ?rt)) 0 ?rt = Some (Inr ((fin, fr), rt'))"
    and out: "ro_final_round out = fr"
    using run by (auto simp: run_def go_Inr)
  have "rm_current (rt_round_machine ?rt) = 0" "rt_max_rounds ?rt = mr"
    using new by (auto simp: runtime_new_Inr with_run_salt_def round_machine_new_def)
  with run_rounds_bound [OF r, of t] runtime_new_open [OF new, where salt = salt and run_id = run_id] out show ?thesis
    by (auto split: if_splits)
qed

text \<open>Commitments have distinct keys: a node of the topology and a round up to the last.\<close>

lemma commitments_bound:
  assumes "log_inv c t r l"
  shows "length (log_commitments l) \<le> length (topo_nodes t) * Suc (unat r)"
proof -
  let ?f = "\<lambda>rec. (cr_node_id rec, unat (cr_round rec))"
  have "?f rec \<in> nc_id ` set (topo_nodes t) \<times> {..unat r}" if rec: "rec \<in> set (log_commitments l)" for rec
  proof -
    have sound: "commitment_sound t rec" and le: "cr_round rec \<le> r"
      using assms rec unfolding log_inv_def by blast+
    from sound obtain cfg where "find_node t (cr_node_id rec) = Some cfg"
      unfolding commitment_sound_def by blast
    from find_node_mem [OF this] le show ?thesis
      by (auto simp: word_le_nat_alt intro: rev_image_eqI)
  qed
  then have "?f ` set (log_commitments l) \<subseteq> nc_id ` set (topo_nodes t) \<times> {..unat r}" by blast
  then have "card (?f ` set (log_commitments l)) \<le> card (nc_id ` set (topo_nodes t) \<times> {..unat r})"
    by (rule card_mono [rotated]) simp
  also have "\<dots> = card (nc_id ` set (topo_nodes t)) * Suc (unat r)"
    by (simp add: card_cartesian_product)
  also have "\<dots> \<le> length (topo_nodes t) * Suc (unat r)"
    using card_image_le [of "set (topo_nodes t)" nc_id] card_length [of "topo_nodes t"]
    by (intro mult_right_mono) auto
  finally have "card (?f ` set (log_commitments l)) \<le> length (topo_nodes t) * Suc (unat r)" .
  moreover have "inj_on ?f (set (log_commitments l))" "distinct (log_commitments l)"
    using assms
    by (auto simp: log_inv_def log_indexed_def distinct_map commitment_key_def inj_on_def
        dest: unsigned_word_eqI)
  ultimately show ?thesis by (simp add: card_image distinct_card)
qed

end
