(* ===== verification/Loader_Privacy.thy ===== *)
theory Loader_Privacy
  imports Error_Text
begin

text \<open>
  What the private-intent loader makes of the private values: it copies them. Blanking the
  budgets and reservations before loading is blanking them afterwards, so which entry is refused,
  and with which text, does not depend on them.
\<close>

definition hide_cents :: "u64 secret \<Rightarrow> u64 secret" where
  "hide_cents s = Secret 0"

definition hide_raw :: "raw_agent \<Rightarrow> raw_agent" where
  "hide_raw raw = raw\<lparr>ra_budget_cents := map_option (\<lambda>_. 0) (ra_budget_cents raw),
     ra_reservation_cents := map_option (\<lambda>_. 0) (ra_reservation_cents raw)\<rparr>"

definition hide_bundle :: "raw_bundle \<Rightarrow> raw_bundle" where
  "hide_bundle b = b\<lparr>rb_agents := map hide_raw (rb_agents b)\<rparr>"

definition hide_agent :: "agent_state \<Rightarrow> agent_state" where
  "hide_agent a = a\<lparr>
     ag_requester := map_option (\<lambda>i. i\<lparr>pri_budget_cents := hide_cents (pri_budget_cents i)\<rparr>) (ag_requester a),
     ag_provider := map_option (\<lambda>i. i\<lparr>ppi_reservation_cents := hide_cents (ppi_reservation_cents i)\<rparr>) (ag_provider a)\<rparr>"

definition hide_agents :: "(node_id, agent_state) btree_map \<Rightarrow> (node_id, agent_state) btree_map" where
  "hide_agents m = map (apsnd hide_agent) m"

lemma hide_raw_sel [simp]:
  "ra_node (hide_raw r) = ra_node r" "ra_role (hide_raw r) = ra_role r"
  "ra_required_capability (hide_raw r) = ra_required_capability r"
  "ra_capability_claims (hide_raw r) = ra_capability_claims r"
  "ra_budget_cents (hide_raw r) = map_option (\<lambda>_. 0) (ra_budget_cents r)"
  "ra_reservation_cents (hide_raw r) = map_option (\<lambda>_. 0) (ra_reservation_cents r)"
  "ra_signing_secret_key (hide_raw r) = ra_signing_secret_key r"
  by (simp_all add: hide_raw_def)

lemma hide_agents_Nil [simp]: "hide_agents [] = []"
  by (simp add: hide_agents_def)

lemma hide_agents_contains [simp]: "bt_contains (hide_agents m) k = bt_contains m k"
  by (induction m) (auto simp: hide_agents_def bt_contains_def bt_get_def)

lemma hide_agents_insert: "hide_agents (bt_insert k a m) = bt_insert k (hide_agent a) (hide_agents m)"
  by (induction k a m rule: bt_insert.induct) (auto simp: hide_agents_def)

text \<open>\<open>map_sum id\<close> on a result acts on what a \<open>?\<close>-chain returns.\<close>

lemma hide_and_then: "map_sum id f (and_then r k) = and_then r (\<lambda>x. map_sum id f (k x))"
  by (cases r) simp_all

lemma and_then_map: "and_then (map_sum id f r) k = and_then r (\<lambda>x. k (f x))"
  by (cases r) simp_all

lemma load_requester_hidden:
  "load_requester_agent c tn seed (hide_raw raw) = map_sum id hide_agent (load_requester_agent c tn seed raw)"
  by (cases "ra_budget_cents raw")
    (auto simp: load_requester_agent_def Let_def hide_and_then hide_agent_def agent_requester_def hide_cents_def
      intro!: arg_cong [where f = "and_then _"] ext split: sum.split option.split)

lemma load_provider_hidden:
  "load_provider_agent c tn seed (hide_raw raw) = map_sum id hide_agent (load_provider_agent c tn seed raw)"
  by (cases "ra_reservation_cents raw")
    (auto simp: load_provider_agent_def Let_def hide_and_then hide_agent_def agent_provider_def hide_cents_def
      intro!: arg_cong [where f = "and_then _"] ext)

lemma load_agent_hidden:
  "load_agent c t (hide_raw raw) (hide_agents out) = map_sum id hide_agents (load_agent c t raw out)"
  by (auto simp: load_agent_def hide_and_then load_requester_hidden load_provider_hidden and_then_map
      hide_agents_insert intro!: arg_cong [where f = "and_then _"] ext
      split: sum.split option.split role.split)

lemma load_agents_hidden:
  "try_fold (load_agent c t) (map hide_raw raws) (hide_agents out) =
     map_sum id hide_agents (try_fold (load_agent c t) raws out)"
  by (induction raws arbitrary: out) (simp_all add: load_agent_hidden and_then_map hide_and_then)

lemma load_bundle_hidden: "load_bundle c t (hide_bundle b) = map_sum id hide_agents (load_bundle c t b)"
  using load_agents_hidden [of c t "rb_agents b" "[]"]
  by (auto simp: load_bundle_def hide_bundle_def hide_and_then and_then_map
      intro!: arg_cong [where f = "and_then _"] ext split: option.split)

end
