(* ===== verification/Serde_Inputs.thy ===== *)
theory Serde_Inputs
  imports Serde_Records Demo Parity_Fixtures Noir_Bridge
begin

text \<open>
  The files a user writes, as serde values: topology, private-intent bundle and scenario (TOML),
  parity fixture and circuit artifact (JSON). \<open>serde_toml\<close> is the instance of the commands'
  parameter \<open>toml\<close> that a parser of TOML text into values gives.
\<close>

section \<open>Topology\<close>

text \<open>A unit variant is its name; serde also reads a one-entry object there.\<close>

definition role_de :: "jvalue \<Rightarrow> de_fault + role" where
  "role_de v =
     (case v of
        JString s \<Rightarrow>
          if s = ''requester'' then Inr Requester
          else if s = ''provider'' then Inr Provider else Inl (UnknownVariant s)
      | JObject _ \<Rightarrow> Inl OtherForm
      | _ \<Rightarrow> Inl WrongType)"

definition role_ser :: "role \<Rightarrow> jvalue" where
  "role_ser r = JString (case r of Requester \<Rightarrow> ''requester'' | Provider \<Rightarrow> ''provider'')"

definition node_raw_de :: "jvalue \<Rightarrow> de_fault + node_config_raw" where
  "node_raw_de v =
     and_then (de_struct [''id'', ''role'', ''required_capability'', ''capability_claims'',
       ''signing_public_key''] v) (\<lambda>m.
     and_then (de_field m ''id'' de_string) (\<lambda>i.
     and_then (de_field m ''role'' role_de) (\<lambda>r.
     and_then (de_default m ''required_capability'' None (de_option de_string)) (\<lambda>req.
     and_then (de_default m ''capability_claims'' None (de_option (de_list de_string))) (\<lambda>claims.
     and_then (de_default m ''signing_public_key'' None (de_option de_string)) (\<lambda>pk.
     Inr \<lparr>raw_id = i, raw_role = r, raw_required_capability = req, raw_capability_claims = claims,
          raw_signing_public_key = pk\<rparr>))))))"

definition topology_default_version :: u32 where
  "topology_default_version = 1"

definition topology_raw_de :: "jvalue \<Rightarrow> de_fault + topology_raw" where
  "topology_raw_de v =
     and_then (de_struct [''version'', ''capability_tags'', ''nodes''] v) (\<lambda>m.
     and_then (de_default m ''version'' topology_default_version de_word) (\<lambda>vn.
     and_then (de_field m ''capability_tags'' (de_list de_string)) (\<lambda>ts.
     and_then (de_field m ''nodes'' (de_list node_raw_de)) (\<lambda>ns.
     Inr \<lparr>traw_version = vn, traw_capability_tags = ts, traw_nodes = ns\<rparr>))))"

text \<open>A validated topology, written out: absent optional fields and empty claims are skipped.\<close>

definition node_config_ser :: "crates \<Rightarrow> node_config \<Rightarrow> jvalue" where
  "node_config_ser c n =
     JObject ([(''id'', node_ser c (nc_id n)), (''role'', role_ser (nc_role n))] @
       ser_some ''required_capability'' tag_ser (nc_required_capability n) @
       (if nc_capability_claims n = [] then []
        else [(''capability_claims'', ser_list tag_ser (nc_capability_claims n))]) @
       ser_some ''signing_public_key'' (pubkey_ser c) (nc_signing_public_key n))"

definition topology_ser :: "crates \<Rightarrow> topology_config \<Rightarrow> jvalue" where
  "topology_ser c t =
     JObject [(''version'', ser_word (topo_version t)),
       (''capability_tags'',
         ser_list JString (sorted_list_of_set (tag_str ` tags (topo_capability_tags t)))),
       (''nodes'', ser_list (node_config_ser c) (topo_nodes t))]"

lemma role_de_ser [simp]: "role_de (role_ser r) = Inr r"
  by (cases r) (simp_all add: role_de_def role_ser_def)

lemma strings_de_ser [simp]: "de_list de_string (ser_list JString xs) = Inr xs"
  using string_json.de_ser_list [of xs] by simp

lemma option_string [simp]: "de_option de_string (JString s) = Inr (Some s)"
  using string_json.de_ser_option_value [of s] by simp

lemma tags_as_strings: "ser_list tag_ser ts = ser_list JString (map tag_str ts)"
  by (simp add: ser_list_def tag_ser_def)

lemma option_strings [simp]: "de_option (de_list de_string) (ser_list JString xs) = Inr (Some xs)"
  using strings_de_ser [of xs] by (simp add: de_option_def ser_list_def)

lemma node_raw_de_ser: "node_raw_de (node_config_ser c n) = Inr (node_to_raw c n)"
  by (cases "nc_required_capability n"; cases "nc_signing_public_key n"; cases "nc_capability_claims n = []")
    (simp_all add: node_raw_de_def node_config_ser_def node_to_raw_def ser_some_def de_field_def
      de_default_def tags_as_strings node_ser_def tag_ser_def pubkey_ser_def string_json.de_ser)

lemma topology_raw_de_ser: "topology_raw_de (topology_ser c t) = Inr (topology_to_raw c t)"
proof -
  have "de_list node_raw_de (ser_list (node_config_ser c) ns) = Inr (map (node_to_raw c) ns)" for ns
    by (induction ns) (simp_all add: de_list_def ser_list_def node_raw_de_ser)
  then show ?thesis
    by (simp add: topology_raw_de_def topology_ser_def topology_to_raw_def de_field_def de_default_def
        u32_json.de_ser)
qed

text \<open>The derived reader of a validated node, which trusts its input's role and tags.\<close>

definition deserialize_pubkey :: "crates \<Rightarrow> jvalue \<Rightarrow> de_fault + signing_public_key option" where
  "deserialize_pubkey c v =
     and_then (de_option de_string v) (\<lambda>opt.
     case opt of
       None \<Rightarrow> Inr None
     | Some s \<Rightarrow> map_sum (\<lambda>e. CustomFault (sign_error_text e)) Some (pk_from_hex c s))"

definition node_config_de :: "crates \<Rightarrow> texts \<Rightarrow> jvalue \<Rightarrow> de_fault + node_config" where
  "node_config_de c tx v =
     and_then (de_struct [''id'', ''role'', ''required_capability'', ''capability_claims'',
       ''signing_public_key''] v) (\<lambda>m.
     and_then (de_field m ''id'' (node_de c tx)) (\<lambda>i.
     and_then (de_field m ''role'' role_de) (\<lambda>r.
     and_then (de_default m ''required_capability'' None (de_option tag_de)) (\<lambda>req.
     and_then (de_default m ''capability_claims'' [] (de_list tag_de)) (\<lambda>claims.
     and_then (de_default m ''signing_public_key'' None (deserialize_pubkey c)) (\<lambda>pk.
     Inr \<lparr>nc_id = i, nc_role = r, nc_required_capability = req, nc_capability_claims = claims,
          nc_signing_public_key = pk\<rparr>))))))"

lemma option_tag [simp]: "de_option tag_de (tag_ser t) = Inr (Some t)"
  using tag_json.de_ser_option_value [of t] by simp

lemma deserialize_pubkey_ser: "hex_ok c \<Longrightarrow> pk_wf c pk \<Longrightarrow> deserialize_pubkey c (pubkey_ser c pk) = Inr (Some pk)"
  by (simp add: deserialize_pubkey_def pubkey_ser_def pk_hex.parse_render)

interpretation node_config_json: json_codec "node_config_ser c" "node_config_de c tx"
    "\<lambda>n. hex_ok c \<and> node_wf (nc_id n) \<and> pred_option (pk_wf c) (nc_signing_public_key n)" for c tx
proof
  fix n
  show "node_config_de c tx (node_config_ser c n) = Inr n"
    if "hex_ok c \<and> node_wf (nc_id n) \<and> pred_option (pk_wf c) (nc_signing_public_key n)"
    using that
    by (cases n; cases "nc_required_capability n"; cases "nc_signing_public_key n";
        cases "nc_capability_claims n = []")
      (simp_all add: node_config_de_def node_config_ser_def ser_some_def de_field_def de_default_def
        leaf_de_ser tag_json.de_ser_list deserialize_pubkey_ser)
  show "writable (node_config_ser c n)"
    by (auto simp: node_config_ser_def ser_some_def leaf_writable tag_json.ser_list_writable
        role_ser_def pubkey_ser_def split: option.splits)
qed (simp add: node_config_ser_def)

section \<open>Private intents\<close>

definition raw_agent_de :: "jvalue \<Rightarrow> de_fault + raw_agent" where
  "raw_agent_de v =
     and_then (de_struct [''node'', ''role'', ''required_capability'', ''capability_claims'',
       ''budget_cents'', ''reservation_cents'', ''signing_secret_key''] v) (\<lambda>m.
     and_then (de_field m ''node'' de_string) (\<lambda>n.
     and_then (de_field m ''role'' de_string) (\<lambda>r.
     and_then (de_default m ''required_capability'' None (de_option de_string)) (\<lambda>req.
     and_then (de_default m ''capability_claims'' None (de_option (de_list de_string))) (\<lambda>claims.
     and_then (de_default m ''budget_cents'' None (de_option de_word)) (\<lambda>budget.
     and_then (de_default m ''reservation_cents'' None (de_option de_word)) (\<lambda>reservation.
     and_then (de_default m ''signing_secret_key'' None (de_option de_string)) (\<lambda>key.
     Inr \<lparr>ra_node = n, ra_role = r, ra_required_capability = req, ra_capability_claims = claims,
          ra_budget_cents = budget, ra_reservation_cents = reservation,
          ra_signing_secret_key = key\<rparr>))))))))"

definition raw_bundle_de :: "jvalue \<Rightarrow> de_fault + raw_bundle" where
  "raw_bundle_de v =
     and_then (de_struct [''version'', ''agents''] v) (\<lambda>m.
     and_then (de_field m ''version'' de_word) (\<lambda>vn.
     and_then (de_default m ''agents'' [] (de_list raw_agent_de)) (\<lambda>agents.
     Inr \<lparr>rb_version = vn, rb_agents = agents\<rparr>)))"

section \<open>Scenarios\<close>

definition event_ser :: "crates \<Rightarrow> scenario_event \<Rightarrow> jvalue" where
  "event_ser c e = ser_tagged ''kind'' (kind_label e)
     (case e of
        DoubleCommit n r \<Rightarrow> [(''node'', node_ser c n), (''round'', ser_word r)]
      | ReplayPriorCommitment n r f \<Rightarrow>
          [(''node'', node_ser c n), (''round'', ser_word r), (''from_round'', ser_word f)]
      | DropNode n a \<Rightarrow> [(''node'', node_ser c n), (''after_round'', ser_word a)]
      | InjectInvalidProof n r \<Rightarrow> [(''node'', node_ser c n), (''round'', ser_word r)])"

definition event_de :: "crates \<Rightarrow> texts \<Rightarrow> jvalue \<Rightarrow> de_fault + scenario_event" where
  "event_de c tx v =
     and_then (de_tagged ''kind'' v) (\<lambda>(variant, body).
     if variant = ''double_commit'' then
       and_then (de_struct [''node'', ''round''] body) (\<lambda>m.
       and_then (de_field m ''node'' (node_de c tx)) (\<lambda>n.
       and_then (de_field m ''round'' de_word) (\<lambda>r. Inr (DoubleCommit n r))))
     else if variant = ''replay_prior_commitment'' then
       and_then (de_struct [''node'', ''round'', ''from_round''] body) (\<lambda>m.
       and_then (de_field m ''node'' (node_de c tx)) (\<lambda>n.
       and_then (de_field m ''round'' de_word) (\<lambda>r.
       and_then (de_field m ''from_round'' de_word) (\<lambda>f. Inr (ReplayPriorCommitment n r f)))))
     else if variant = ''drop_node'' then
       and_then (de_struct [''node'', ''after_round''] body) (\<lambda>m.
       and_then (de_field m ''node'' (node_de c tx)) (\<lambda>n.
       and_then (de_field m ''after_round'' de_word) (\<lambda>a. Inr (DropNode n a))))
     else if variant = ''inject_invalid_proof'' then
       and_then (de_struct [''node'', ''round''] body) (\<lambda>m.
       and_then (de_field m ''node'' (node_de c tx)) (\<lambda>n.
       and_then (de_field m ''round'' de_word) (\<lambda>r. Inr (InjectInvalidProof n r))))
     else Inl (UnknownVariant variant))"

definition scenario_default_version :: u32 where
  "scenario_default_version = 1"

definition scenario_ser :: "crates \<Rightarrow> scenario \<Rightarrow> jvalue" where
  "scenario_ser c s =
     JObject [(''version'', ser_word (sc_version s)), (''events'', ser_list (event_ser c) (sc_events s))]"

definition scenario_de :: "crates \<Rightarrow> texts \<Rightarrow> jvalue \<Rightarrow> de_fault + scenario" where
  "scenario_de c tx v =
     and_then (de_struct [''version'', ''events''] v) (\<lambda>m.
     and_then (de_default m ''version'' scenario_default_version de_word) (\<lambda>vn.
     and_then (de_default m ''events'' [] (de_list (event_de c tx))) (\<lambda>es.
     Inr \<lparr>sc_version = vn, sc_events = es\<rparr>)))"

interpretation event_json: json_codec "event_ser c" "event_de c tx"
    "\<lambda>e. hex_ok c \<and> node_wf (ev_node e)" for c tx
proof
  fix e
  show "hex_ok c \<and> node_wf (ev_node e) \<Longrightarrow> event_de c tx (event_ser c e) = Inr e"
    by (cases e) (simp_all add: event_ser_def event_de_def de_field_def leaf_de_ser)
  show "writable (event_ser c e)" "event_ser c e \<noteq> JNull"
    by (cases e; simp add: event_ser_def ser_tagged_def leaf_writable)+
qed

interpretation scenario_json: json_codec "scenario_ser c" "scenario_de c tx"
    "\<lambda>s. hex_ok c \<and> (\<forall>e \<in> set (sc_events s). node_wf (ev_node e))" for c tx
  by unfold_locales
    (simp_all add: scenario_ser_def scenario_de_def de_default_def leaf_de_ser leaf_writable
      event_json.de_ser_list event_json.ser_list_writable)

section \<open>The commands' parser\<close>

text \<open>\<open>parse\<close> reads TOML text into a value; \<open>de_text\<close> is the text of a deserialization error.\<close>

definition serde_toml ::
  "crates \<Rightarrow> texts \<Rightarrow> (de_fault \<Rightarrow> string) \<Rightarrow> (string \<Rightarrow> string + jvalue) \<Rightarrow> toml" where
  "serde_toml c tx de_text parse =
     \<lparr>toml_topology = (\<lambda>s. and_then (parse s) (\<lambda>v. map_sum de_text id (topology_raw_de v))),
      toml_bundle = (\<lambda>s. and_then (parse s) (\<lambda>v. map_sum de_text id (raw_bundle_de v))),
      toml_scenario = (\<lambda>s. and_then (parse s) (\<lambda>v. map_sum de_text id (scenario_de c tx v)))\<rparr>"

text \<open>A topology written out and parsed again is the same topology.\<close>

lemma topology_value_reload:
  assumes "hex_ok c" "topology_wf c t" "parse text = Inr (topology_ser c t)"
  shows "topology_from_toml_str (toml_topology (serde_toml c tx de_text parse)) redact c text = Inr t"
  using topology_reload [OF assms(1,2)]
  by (simp add: topology_from_toml_str_def serde_toml_def assms(3) topology_raw_de_ser)

section \<open>Fixtures and circuits\<close>

definition outcome_de :: "jvalue \<Rightarrow> de_fault + expected_outcome" where
  "outcome_de v =
     and_then (de_tagged ''outcome'' v) (\<lambda>(variant, body).
     if variant = ''accept'' then Inr Accept
     else if variant = ''reject'' then
       and_then (de_struct [''code''] body) (\<lambda>m. map_sum id Reject (de_field m ''code'' de_string))
     else Inl (UnknownVariant variant))"

definition outcome_ser :: "expected_outcome \<Rightarrow> jvalue" where
  "outcome_ser out =
     (case out of
        Accept \<Rightarrow> ser_tagged ''outcome'' ''accept'' []
      | Reject code \<Rightarrow> ser_tagged ''outcome'' ''reject'' [(''code'', JString code)])"

definition fixture_de :: "crates \<Rightarrow> texts \<Rightarrow> jvalue \<Rightarrow> de_fault + parity_fixture" where
  "fixture_de c tx v =
     and_then (de_struct [''name'', ''round'', ''requester'', ''provider'', ''expected''] v) (\<lambda>m.
     and_then (de_field m ''name'' de_string) (\<lambda>n.
     and_then (de_field m ''round'' de_word) (\<lambda>r.
     and_then (de_field m ''requester'' (intent_de c tx)) (\<lambda>q.
     and_then (de_field m ''provider'' (intent_de c tx)) (\<lambda>p.
     and_then (de_field m ''expected'' outcome_de) (\<lambda>x.
     Inr \<lparr>fx_name = n, fx_round = r, fx_requester = q, fx_provider = p, fx_expected = x\<rparr>))))))"

definition fixture_ser :: "crates \<Rightarrow> parity_fixture \<Rightarrow> jvalue" where
  "fixture_ser c f =
     JObject [(''name'', JString (fx_name f)), (''round'', ser_word (fx_round f)),
       (''requester'', intent_ser c (fx_requester f)), (''provider'', intent_ser c (fx_provider f)),
       (''expected'', outcome_ser (fx_expected f))]"

interpretation outcome_json: json_codec outcome_ser outcome_de "\<lambda>_. True"
proof
  fix out :: expected_outcome
  show "outcome_de (outcome_ser out) = Inr out"
    by (cases out) (simp_all add: outcome_ser_def outcome_de_def de_field_def string_json.de_ser)
  show "writable (outcome_ser out)" "outcome_ser out \<noteq> JNull"
    by (cases out; simp add: outcome_ser_def ser_tagged_def)+
qed

interpretation fixture_json: json_codec "fixture_ser c" "fixture_de c tx"
    "\<lambda>f. hex_ok c \<and> node_wf (intent_node (fx_requester f)) \<and> node_wf (intent_node (fx_provider f))" for c tx
proof
  fix f
  show "fixture_de c tx (fixture_ser c f) = Inr f" if "hex_ok c \<and> node_wf (intent_node (fx_requester f)) \<and>
      node_wf (intent_node (fx_provider f))"
    using that by (cases f) (simp add: fixture_ser_def fixture_de_def de_field_def string_json.de_ser
      u64_json.de_ser intent_json.de_ser outcome_json.de_ser)
  show "writable (fixture_ser c f)"
    by (simp add: fixture_ser_def leaf_writable outcome_json.ser_writable)
qed (simp add: fixture_ser_def)

text \<open>The type of a parameter is kept as the value it is.\<close>

definition abi_parameter_de :: "jvalue \<Rightarrow> de_fault + jvalue abi_parameter" where
  "abi_parameter_de v =
     and_then (de_struct [''name'', ''visibility'', ''type''] v) (\<lambda>m.
     and_then (de_field m ''name'' de_string) (\<lambda>n.
     and_then (de_field m ''visibility'' de_string) (\<lambda>s.
     and_then (de_field m ''type'' Inr) (\<lambda>ty.
     Inr \<lparr>abi_name = n, abi_visibility = s, abi_ty = ty\<rparr>))))"

definition circuit_artifact_de :: "jvalue \<Rightarrow> de_fault + jvalue circuit_artifact" where
  "circuit_artifact_de v =
     and_then (de_struct [''noir_version'', ''hash'', ''bytecode'', ''abi''] v) (\<lambda>m.
     and_then (de_field m ''noir_version'' de_string) (\<lambda>nv.
     and_then (de_field m ''hash'' de_string) (\<lambda>hs.
     and_then (de_field m ''bytecode'' de_string) (\<lambda>bc.
     and_then (de_field m ''abi'' (de_struct [''parameters''])) (\<lambda>abi.
     and_then (de_field abi ''parameters'' (de_list abi_parameter_de)) (\<lambda>ps.
     Inr \<lparr>ca_noir_version = nv, ca_hash = hs, ca_bytecode = bc, ca_parameters = ps\<rparr>))))))"

end
