(* ===== verification/Console.thy ===== *)
theory Console
  imports Cli Error_Text
begin

text \<open>
  What the binary prints on stderr (\<open>main.rs\<close>), and the \<open>Display\<close> texts of the commands' errors.
  A line is one element of the list. The message of a panic is printed by the standard library
  and is not part of it.
\<close>

section \<open>The commands' errors\<close>

fun run_io_text :: "run_io \<Rightarrow> string" where
  "run_io_text (IoArtifact e) = artifact_error_text e"
| "run_io_text (IoMessage s) = s"

fun run_error_text :: "texts \<Rightarrow> run_error \<Rightarrow> string" where
  "run_error_text tx (RunTopology e) = ''topology load error: '' @ config_error_text tx '''' e"
| "run_error_text tx (RunScenario e) = ''scenario load error: '' @ config_error_text tx ''scenario '' e"
| "run_error_text tx (RunPrivateIntent e) =
     ''private-intent load error: '' @ private_intent_error_text e"
| "run_error_text tx (RunIo e) = ''artifact io error: '' @ run_io_text e"
| "run_error_text tx (RunRuntime e) = ''runtime error: '' @ runtime_error_text e"
| "run_error_text tx (RunVerifierInvalid s) = ''verifier reports log invalid: '' @ s"
| "run_error_text tx (RunAborted s) = ''demo run aborted without finalizing: '' @ s"

fun node_io_text :: "node_io \<Rightarrow> string" where
  "node_io_text (NodeArtifact e) = artifact_error_text e"
| "node_io_text (NodeMessage s) = s"

fun node_error_text :: "texts \<Rightarrow> node_error \<Rightarrow> string" where
  "node_error_text tx (NodeTopology e) = ''topology load error: '' @ config_error_text tx '''' e"
| "node_error_text tx (NodePrivateIntent e) =
     ''private-intent load error: '' @
     (case e of
        None \<Rightarrow> ''private-intents file has no entry for local node''
      | Some e \<Rightarrow> private_intent_error_text e)"
| "node_error_text tx (NodeScenario e) = ''scenario load error: '' @ config_error_text tx ''scenario '' e"
| "node_error_text tx (NodeIdentity s) = ''node identity error: '' @ s"
| "node_error_text tx (NodePeer s) = ''peer spec error: '' @ s"
| "node_error_text tx (NodeSecret s) = ''secret material error: '' @ s"
| "node_error_text tx (NodeTransport s) = ''vertex transport error: '' @ s"
| "node_error_text tx (NodeRuntime e) = ''runtime error: '' @ runtime_error_text e"
| "node_error_text tx (NodeIo e) = ''artifact io error: '' @ node_io_text e"

fun orchestrate_error_text :: "texts \<Rightarrow> orchestrate_error \<Rightarrow> string" where
  "orchestrate_error_text tx (OrchTopology e) =
     ''topology load error: '' @
     (case e of
        None \<Rightarrow> ''need at least 2 topology nodes to orchestrate''
      | Some e \<Rightarrow> config_error_text tx '''' e)"
| "orchestrate_error_text tx (OrchPrivateIntent s) = ''private-intent read error: '' @ s"
| "orchestrate_error_text tx (OrchIo s) = ''io error: '' @ s"
| "orchestrate_error_text tx (OrchSpawn n s) = ''spawn error for node '' @ n @ '': '' @ s"
| "orchestrate_error_text tx (OrchChildExit n code) =
     ''unexpected child exit: node '' @ n @ '' exited with '' @
     (if code < 0 then ''-'' else '''') @ show_nat (nat \<bar>code\<bar>)"
| "orchestrate_error_text tx (OrchTimeout s) = ''timeout: '' @ s"

section \<open>The lines on stderr\<close>

definition reasons_debug :: "string list \<Rightarrow> string" where
  "reasons_debug rs = debug_list debug_str rs"

definition abort_suffix :: "string option \<Rightarrow> string" where
  "abort_suffix x = (case x of Some r \<Rightarrow> '' abort_reason='' @ r | None \<Rightarrow> [])"

definition reasons_suffix :: "string list \<Rightarrow> string" where
  "reasons_suffix rs = (if rs = [] then [] else '' reasons='' @ reasons_debug rs)"

definition demo_summary :: "string \<Rightarrow> demo_result \<Rightarrow> string list" where
  "demo_summary run_id result =
     (case dr_rotated_prev result of
        Some prev \<Rightarrow> [''vertex-veil-agents: rotated prior bundle to '' @ prev]
      | None \<Rightarrow> []) @
     [''vertex-veil-agents: local run_id='' @ run_id @
      '' final_round='' @ show_u64 (vr_final_round (dr_report result)) @
      '' finalized='' @ show_bool (dr_finalized result) @
      '' valid='' @ show_bool (vr_valid (dr_report result)) @
      abort_suffix (dr_abort_reason result) @ reasons_suffix (vr_reasons (dr_report result))]"

definition verify_summary :: "verifier_report \<Rightarrow> string" where
  "verify_summary report =
     ''vertex-veil-agents: verify run_id='' @ vr_run_id report @
     '' final_round='' @ show_u64 (vr_final_round report) @
     '' valid='' @ show_bool (vr_valid report) @ reasons_suffix (vr_reasons report)"

definition node_summary :: "string \<Rightarrow> node_result \<Rightarrow> string" where
  "node_summary run_id result =
     ''vertex-veil-agents: node alias='' @ nr_node_alias result @ '' run_id='' @ run_id @
     '' final_round='' @ show_u64 (vr_final_round (nr_report result)) @
     '' finalized='' @ show_bool (nr_finalized result) @
     '' valid='' @ show_bool (vr_valid (nr_report result)) @ abort_suffix (nr_abort_reason result)"

text \<open>\<open>main\<close>, for the error of a dispatch.\<close>

definition error_line :: "string \<Rightarrow> string" where
  "error_line err = ''vertex-veil-agents error: '' @ err"

fun fault_lines :: "('e \<Rightarrow> string) \<Rightarrow> 'e command_fault \<Rightarrow> string list" where
  "fault_lines show_err (CmdErr e) = [error_line (show_err e)]"
| "fault_lines show_err _ = []"

definition demo_stderr :: "texts \<Rightarrow> string \<Rightarrow> run_error command_fault + demo_result \<Rightarrow> string list" where
  "demo_stderr tx run_id r =
     (case r of
        Inl e \<Rightarrow> fault_lines (run_error_text tx) e
      | Inr result \<Rightarrow>
          demo_summary run_id result @
          (if \<not> vr_valid (dr_report result)
           then [error_line (''verifier rejected the local run log: '' @
                   reasons_debug (vr_reasons (dr_report result)))]
           else []))"

definition verify_stderr :: "texts \<Rightarrow> run_error command_fault + verifier_report \<Rightarrow> string list" where
  "verify_stderr tx r =
     (case r of
        Inl e \<Rightarrow> fault_lines (run_error_text tx) e
      | Inr report \<Rightarrow>
          verify_summary report #
          (if \<not> vr_valid report
           then [error_line (''verifier rejected the persisted log: '' @ reasons_debug (vr_reasons report))]
           else []))"

definition node_stderr ::
  "texts \<Rightarrow> string \<Rightarrow> (node_error command_fault + node_result) option \<Rightarrow> string list" where
  "node_stderr tx run_id r =
     (case r of
        None \<Rightarrow> []
      | Some (Inl e) \<Rightarrow> fault_lines (node_error_text tx) e
      | Some (Inr result) \<Rightarrow>
          node_summary run_id result #
          (if \<not> vr_valid (nr_report result)
           then [error_line (''verifier rejected the node log: '' @ reasons_debug (vr_reasons (nr_report result)))]
           else []))"

definition demo_bft_stderr :: "texts \<Rightarrow> (orch_stop + orch_result) option \<Rightarrow> string list" where
  "demo_bft_stderr tx r =
     (case r of
        Some (Inl (OrchErr e)) \<Rightarrow> [error_line (orchestrate_error_text tx e)]
      | _ \<Rightarrow> [])"

section \<open>Error lines and exit codes\<close>

definition is_error_line :: "string \<Rightarrow> bool" where
  "is_error_line s \<longleftrightarrow> prefix ''vertex-veil-agents error: '' s"

lemma error_lines [simp]:
  "is_error_line (error_line s)" "\<not> is_error_line (node_summary i n)" "\<not> is_error_line (verify_summary r)"
  "s \<in> set (demo_summary i d) \<Longrightarrow> \<not> is_error_line s"
  by (auto simp: is_error_line_def error_line_def node_summary_def verify_summary_def demo_summary_def
      split: option.splits)

lemma fault_line_exit: "(\<exists>s \<in> set (fault_lines f e). is_error_line s) \<longleftrightarrow> fault_exit e = Exit 1"
  by (cases e) simp_all

lemma run_exit_one: "run_exit valid finalized = Exit 1 \<longleftrightarrow> \<not> valid"
  by (simp add: run_exit_def)

lemma demo_error_line:
  "(\<exists>s \<in> set (demo_stderr tx i (fst (demo c j tm args h))). is_error_line s) \<longleftrightarrow>
     fst (dispatch_demo c j tm args h) = Exit 1"
  by (auto simp: demo_stderr_def dispatch_demo_def fault_line_exit run_exit_one bex_Un simp del: One_nat_def
      split: sum.split prod.split)

lemma verify_error_line:
  "(\<exists>s \<in> set (verify_stderr tx (fst (verify c j tm artifacts h))). is_error_line s) \<longleftrightarrow>
     fst (dispatch_verify c j tm artifacts h) = Exit 1"
  by (auto simp: verify_stderr_def dispatch_verify_def fault_line_exit simp del: One_nat_def
      split: sum.split prod.split)

lemma node_error_line:
  "(\<exists>s \<in> set (node_stderr tx i (fst (run_node c j tm to_vec env start boot turns args h))). is_error_line s) \<longleftrightarrow>
     fst (dispatch_node c j tm to_vec env start boot turns args h) = Exit 1"
proof (cases "run_node c j tm to_vec env start boot turns args h")
  case (Pair r h')
  show ?thesis
  proof (cases r)
    case (Some x)
    with Pair show ?thesis
      by (cases x) (simp_all add: node_stderr_def dispatch_node_def fault_line_exit run_exit_one
          del: One_nat_def)
  qed (simp add: node_stderr_def dispatch_node_def Pair)
qed

text \<open>The orchestrator ends with 1 and without an error line when a bundle is missing.\<close>

lemma silent_failure:
  assumes "run_orchestrator c tm keys parse spawns now turns h' args h = Some (Inr r)" "\<not> or_overall_ok r"
  shows "dispatch_demo_bft c tm keys parse spawns now turns h' args h = Exit 1"
    "demo_bft_stderr tx (run_orchestrator c tm keys parse spawns now turns h' args h) = []"
  using assms by (simp_all add: dispatch_demo_bft_def demo_bft_stderr_def orch_exit_def)

text \<open>A failure line of the demo shows nothing of an intent file's prices but what its parser said.\<close>

end
