(* ===== verification/Spec2Isabelle.thy ===== *)
theory Spec2Isabelle
  imports Samples_Agents Samples_Agreement Child_Output Vertex_Start Parity_Fixtures Debug_Text Run_Bounds Loader_Privacy Serde_Inputs Console
begin

text \<open>
  \<^bold>\<open>Vertex Veil\<close>: a verification development of the Rust crates \<open>vertex-veil-core\<close>,
  \<open>vertex-veil-agents\<close> and \<open>vertex-veil-noir\<close>, and of the two Noir circuits.

  The program coordinates one requester and several providers over consensus-ordered
  messages. In each round every agent publishes a commitment to its private intent; the
  proposer of the round derives the match from the accepted commitments; requester and
  matched provider publish proof artifacts; the provider publishes a signed completion
  receipt. Anything that goes wrong is logged as a rejection and the run falls back to the
  next round. A standalone verifier later re-checks the public log.

  \<^bold>\<open>Theories and the code they model\<close> (paths under \<open>src/crates/vertex-veil-core/src\<close>):

    \<^item> \<open>Prelude\<close>: results, loops that may return early, ordered maps (\<open>BTreeMap\<close>), big-endian
      integers, strings as bytes; the interfaces \<open>ordered_map\<close>, \<open>fixed_codec\<close>, \<open>once_register\<close>.
    \<^item> \<open>Crates\<close>: \<open>hex\<close>, \<open>blake2\<close> and \<open>ed25519-dalek\<close> are not in the repository; they are the
      parameter \<open>c :: crates\<close> with their documented behaviour as \<open>crates_ok\<close>. The interface
      \<open>hex_key\<close> states what every fixed-width hexadecimal key promises.
    \<^item> \<open>Keys\<close> (\<open>keys.rs\<close>, \<open>error.rs\<close>), \<open>Capability\<close> (\<open>capability.rs\<close>), \<open>Signing\<close> (\<open>signing.rs\<close>),
      \<open>Intents\<close> (\<open>shared_types.rs\<close>, \<open>private_intent.rs\<close>), \<open>Config\<close> (\<open>config.rs\<close>): the data and
      its loading; errors are structured values, and \<open>Error_Text\<close> gives the text each displays.
    \<^item> \<open>Artifacts\<close> (\<open>artifacts.rs\<close>): the records and the coordination log with its index.
    \<^item> \<open>Matching\<close> (\<open>predicate.rs\<close>, \<open>proposer.rs\<close>, \<open>candidate.rs\<close>, \<open>parity.rs\<close>).
    \<^item> \<open>Round_Machine\<close> (\<open>round_machine.rs\<close>): the state machine, \<open>rm_step\<close>, \<open>rm_reachable\<close>, \<open>rm_inv\<close>.
    \<^item> \<open>Adversarial\<close> (\<open>adversarial.rs\<close>), \<open>Commitments\<close> (\<open>commitments.rs\<close>).
    \<^item> \<open>Transport\<close>, \<open>Runtime\<close>, \<open>Rounds\<close> (\<open>runtime.rs\<close>): the messages, the transport trait as a
      record of functions over any transport state, the in-process bus, and the runtime's
      methods, one definition each. A method's result distinguishes \<open>Fail\<close> (its \<open>Err\<close>),
      \<open>Panic\<close> (a failed \<open>expect\<close>) and, outermost, \<open>None\<close> (a drain that never ends).
    \<^item> \<open>Verifier\<close> (\<open>verifier.rs\<close>): the verifier section by section, with its reason strings, and
      the declarative specification \<open>log_sound\<close>.
    \<^item> \<open>Runtime_Inv\<close>: the invariant \<open>rt_inv\<close> of the runtime over any transport and any messages.
    \<^item> \<open>Bus_Run\<close>: runs over the in-process bus return, and the verifier accepts their logs.
    \<^item> \<open>Agreement\<close>: what a run decides, as a deterministic machine fed with the messages each phase
      delivers; the runtime refines it, so nodes with the same deliveries agree. \<open>Confidentiality\<close>:
      runs of agents that differ in private values only are equal, step by step. \<open>Run_Bounds\<close>: the
      last round of a run and the size of its log.
    \<^item> \<open>Log_Ids\<close>: over a transport whose messages have 32-byte origins, every id of a run's log has
      32 bytes, so the log can be written and read back.
    \<^item> \<open>Happy_Path\<close>: a round without adversarial events finalizes with the least feasible provider.
    \<^item> \<open>Redaction\<close> (\<open>error.rs\<close>, \<open>private_intents.rs\<close>), \<open>Private_Intents\<close> (\<open>private_intents.rs\<close> of
      \<open>vertex-veil-agents\<close>): what a parse error may show, and the loader of private intents;
      \<open>Loader_Privacy\<close>: the loader does not look at the prices it copies.
    \<^item> \<open>Decimal\<close>, \<open>Filesystem\<close>: decimal text, Rust's \<open>Path\<close> operations and the calls of \<open>std::fs\<close>
      over a file system that maps paths to files and directories.
    \<^item> \<open>Artifact_Writer\<close> (\<open>artifacts.rs\<close>): output-path validation, the writer, and the rotation of
      an earlier bundle to the least free \<open>.prev-N\<close>.
    \<^item> \<open>Demo\<close>, \<open>Demo_Bundle\<close>, \<open>Demo_Success\<close> (\<open>run.rs\<close> of \<open>vertex-veil-agents\<close>): the commands \<open>demo\<close> and
      \<open>verify\<close>, what they leave on disk and what they keep, and when writing a bundle succeeds.
    \<^item> \<open>Vertex_Transport\<close> (\<open>vertex_transport.rs\<close>): the transport's buffer over a schedule of polls, and
      the worker's select loop over the events it is offered; \<open>Vertex_Start\<close>: the start-up of both.
    \<^item> \<open>Node\<close> (\<open>node.rs\<close>), \<open>Orchestrator\<close> (\<open>orchestrate.rs\<close>), \<open>Cli\<close> (\<open>lib.rs\<close>, \<open>main.rs\<close>): a node process,
      the supervisor of several, the subcommands and their exit codes; \<open>Child_Output\<close>: what a node
      prints, and what the supervisor's relay threads make of it.
    \<^item> \<open>Console\<close> (\<open>main.rs\<close> and the error enums of the commands): the lines on stderr.
    \<^item> \<open>Serde_Value\<close>, \<open>Serde_Records\<close>, \<open>Serde_Log\<close>, \<open>Serde_Inputs\<close>: the serialized form of every type that
      crosses a process or file boundary, as a value: the hand-written implementations and what the
      attributes of the derived ones say. \<open>serde_json\<close> and \<open>serde_toml\<close> are the instances of the
      commands' parameters \<open>json\<close> and \<open>toml\<close> they give over a text of values. \<open>Bundle_Status\<close>: the
      status file between the node that writes it and the orchestrator that reads it.
    \<^item> \<open>Parity_Fixtures\<close> (\<open>parity.rs\<close>): the loaders of fixture files. \<open>Debug_Text\<close>: the hand-written
      \<open>Debug\<close> implementations.
    \<^item> \<open>Noir_Circuit\<close> (\<open>circuits/\<close>), \<open>Noir_Bridge\<close> (\<open>vertex-veil-noir\<close>): the circuits as predicates, and
      the bridge that flattens public inputs and witness; \<open>Noir_Parity\<close> and \<open>Noir_Soundness\<close> show
      that both sides hash the same bytes and what a successful execution establishes.
    \<^item> \<open>Samples\<close>, \<open>Sample_Json\<close>, \<open>Samples_Agents\<close>, \<open>Samples_Agreement\<close>: the concrete deployment, serializer, disk and
      circuit backend the properties are instantiated on.

  \<^bold>\<open>Interfaces.\<close> \<open>once_register\<close> (a state that records at most one entry per key) is met by the
  round machine and by the log; \<open>drained_handler\<close> and \<open>runtime_handler\<close> (a handler that keeps an
  invariant, so every drain does) by the four drain loops; \<open>ordered_transport\<close> by the bus;
  \<open>finite_transport\<close> (every delivery uses something up, so a run returns) by the bus and by the
  Vertex transport; \<open>message_source\<close> and \<open>origin_source\<close> (whatever a transport still holds or receives has
  a property, here a well-formed origin) by both; \<open>json_codec\<close> (a type's serializer writes what its
  deserializer reads back) by every serialized type; \<open>replicated_handler\<close> (a handler that acts on the agreed part as an abstract
  step does) by the four handlers; \<open>io_frame\<close> (a relation kept along a sequence of file operations) by the frame
  of the bundle writers.

  \<^bold>\<open>Bounds.\<close> \<open>run_rounds\<close> recurses on the number of rounds, \<open>unat max_rounds\<close>; no fuel is used.
  The drain loop is a \<open>partial_function\<close>, since a transport may keep delivering; over the bus it
  is shown to return. Round counters are 64-bit words and wrap where the code's would; that a
  run never reaches the wrap is part of \<open>bus_run_total\<close>. Claim counts and tag lengths are
  bounded by the commitment layout (4 claims, 32 bytes), which the loaders do not check:
  \<open>committable\<close> states it where it is needed.

  The search for a free \<open>.prev-N\<close> is a \<open>partial_function\<close> too, shown to end on every file system
  with fewer than \<open>2^64 - 1\<close> entries. A persistent node runs as many sessions as it is given turns.

  \<^bold>\<open>Not modelled.\<close> The text of JSON and TOML (printer and parser of values are parameters;
  \<open>json_text_ok\<close> states that a value reads back), the forms serde reads but never writes (positional
  arrays for structs, variants by index: the readers answer \<open>OtherForm\<close> there), which of several
  faults of an input is reported, clap's parsing of the argument vector, the \<open>tashi-vertex\<close> engine, sockets, threads
  and processes (their observable results are inputs; a line printed is one element of a list, so
  a run id with a line break in it is out of scope), the clock and sleeping, symbolic links and
  file permissions beyond a set of protected entries, the curve, Blake2s and the ACIR executor.
  The \<open>Drop\<close> of the Vertex transport, which detaches its worker, has no effect the model could show.
\<close>

section \<open>The deployment as a whole\<close>

text \<open>
  C1: A topology and a private-intent bundle that both load, with capabilities that fit the
  commitment layout and a topology key exactly for the providers holding a seed, give a runtime
  whose in-process run returns under every adversarial scenario, and the standalone verifier
  reports the log valid.
\<close>

theorem deployment_run_verified:
  assumes ok: "crates_ok c" and topo: "topology_from_raw c raw = Inr t" and cm: "committable t"
    and load: "load_bundle c t bundle = Inr agents" and pair: "keys_paired t agents"
  shows "\<exists>rt out. runtime_new c t bus_new agents sc mr = Inr rt \<and>
    run c bus_ops run_id (with_run_salt salt rt) = Some (Inr out) \<and>
    vr_valid (verify_log c t (ro_log out))"
proof -
  have h: "hex_ok c" using ok by (simp add: crates_ok_def)
  have wf: "topology_wf c t" using topology_from_raw_wf [OF h topo] .
  have ag: "agents_ok c t agents" using loaded_agents_ok [OF h wf cm load pair] .
  obtain rt where rt: "runtime_new c t bus_new agents sc mr = Inr rt"
    using loaded_runtime [OF h wf load, of bus_new sc mr] by blast
  obtain out where out: "run c bus_ops run_id (with_run_salt salt rt) = Some (Inr out)"
    using bus_run_total [OF ok wf ag rt] by blast
  have "vr_valid (verify_log c t (ro_log out))"
    using bus_run_valid [OF ok wf ag rt out] by (simp flip: verify_reasons_Nil)
  with rt out show ?thesis by blast
qed

lemma deployment_run_verified_witness:
  "\<exists>rt out. runtime_new sample_crates (demo_topology sample_crates) bus_new demo_agents demo_scenario 4 =
      Inr rt \<and>
    run sample_crates bus_ops ''demo'' (with_run_salt [] rt) = Some (Inr out) \<and>
    vr_valid (verify_log sample_crates (demo_topology sample_crates) (ro_log out))"
  by (rule deployment_run_verified
      [OF sample_crates_ok demo_topology_loads demo_committable demo_bundle_loads demo_keys_paired])



text \<open>
  C3: Two nodes of one deployment to which the phases of the rounds deliver the same messages
  decide the same, whatever agents, scenarios, salts, round limits and transports each runs on:
  the same commitments, proposals, proofs and receipts, the same final round and status, and
  the same verdict of the verifier.
\<close>

theorem nodes_agree:
  assumes "runtime_new c t tr agents sc mr = Inr rt" "runtime_new c t tr' agents' sc' mr' = Inr rt'"
    and "run c ops run_id (with_run_salt salt rt) = Some (Inr out)"
    and "run c ops' run_id (with_run_salt salt' rt') = Some (Inr out')"
    and "run_deliveries c ops run_id (with_run_salt salt rt) =
      run_deliveries c ops' run_id (with_run_salt salt' rt')"
  shows "decisions (ro_log out) = decisions (ro_log out') \<and>
    ro_finalized out = ro_finalized out' \<and> ro_final_round out = ro_final_round out' \<and>
    vr_reasons (verify_log c t (ro_log out)) = vr_reasons (verify_log c t (ro_log out'))"
  using runs_agree [OF assms] by simp

lemma nodes_agree_witness:
  "\<exists>out out'. run sample_crates heard_ops ''run'' (with_run_salt [] (lone_runtime prompt 0x11)) = Some (Inr out) \<and>
    run sample_crates heard_ops ''run'' (with_run_salt [] (lone_runtime prompt 0x22)) = Some (Inr out') \<and>
    decisions (ro_log out) = decisions (ro_log out') \<and> log_commitments (ro_log out) = [demo_commitment]"
proof -
  obtain out out' where
    "run sample_crates heard_ops ''run'' (with_run_salt [] (lone_runtime prompt 0x11)) = Some (Inr out)"
    "run sample_crates heard_ops ''run'' (with_run_salt [] (lone_runtime prompt 0x22)) = Some (Inr out')"
    "log_commitments (ro_log out) = [demo_commitment]"
    using lone_run(1) [where b = "0x11"] lone_run(1) [where b = "0x22"] by auto
  with nodes_agree [OF lone_runtime_new [of "0x11" prompt] lone_runtime_new [of "0x22" prompt]]
    lone_run(2) [of "0x11"] lone_run(2) [of "0x22"]
  show ?thesis by (metis insertCI)
qed

text \<open>
  C4: Non-interference of the private values: two sets of agents with the same nodes, roles and
  receipt keys whose commitments have the same hashes give the same run over any transport,
  error values, log, outcome and transport state (every message sent) included; budgets and
  reservation prices reach the outside through the commitment hashes only.
\<close>

theorem private_values_confined:
  assumes "blake_ok c" "agents_look_same c agents agents'"
    and "runtime_new c t tr agents sc mr = Inr rt" "runtime_new c t tr agents' sc mr = Inr rt'"
  shows "run_with_transport c ops run_id (with_run_salt salt rt) =
    run_with_transport c ops run_id (with_run_salt salt rt')"
  using runtime_new_twins [OF assms(1,3,4,2)] by (rule same_run_with_transport)

lemma private_values_confined_witness:
  "run_with_transport sample_crates bus_ops ''demo'' (with_run_salt [] (demo_runtime demo_scenario)) =
    run_with_transport sample_crates bus_ops ''demo''
      (with_run_salt [] (demo_runtime demo_scenario\<lparr>rt_agents := priced_agents 5000 7\<rparr>))"
proof -
  have "agents_look_same sample_crates demo_agents (priced_agents 5000 7)"
    using priced_look_same [of 1000 100 5000 7] by (simp add: priced_demo_agents)
  moreover have "runtime_new sample_crates (demo_topology sample_crates) bus_new (priced_agents 5000 7) demo_scenario 4 =
      Inr (demo_runtime demo_scenario\<lparr>rt_agents := priced_agents 5000 7\<rparr>)"
    by (auto simp: runtime_new_Inr demo_runtime_def demo_topology_def demo_node_def priced_agents_def bt_keys_def)
  ultimately show ?thesis
    using private_values_confined [OF sample_crates_parts(2) _ demo_runtime_new] by blast
qed

text \<open>
  C5: A run over any transport refines the abstract replica: what it decides (its log without
  the rejections, whether it finalized and in which round) is what the deterministic machine
  \<open>replica_outcome\<close> decides from the messages each phase of each round delivered.
\<close>

theorem run_refines_replica:
  assumes "runtime_new c t tr agents sc mr = Inr rt"
    and "run c ops run_id (with_run_salt salt rt) = Some (Inr out)"
  shows "out\<lparr>ro_log := decisions (ro_log out)\<rparr> =
    replica_outcome c t run_id (run_deliveries c ops run_id (with_run_salt salt rt))"
  using assms by (rule run_replica)

lemma run_refines_replica_witness:
  "\<exists>out. run sample_crates bus_ops ''demo'' (with_run_salt [] (demo_runtime demo_scenario)) =
      Some (Inr out) \<and>
    out\<lparr>ro_log := decisions (ro_log out)\<rparr> =
      replica_outcome sample_crates (demo_topology sample_crates) ''demo''
        (run_deliveries sample_crates bus_ops ''demo'' (with_run_salt [] (demo_runtime demo_scenario)))"
  using demo_run_returns run_refines_replica [OF demo_runtime_new] by blast

text \<open>
  C6: Over any transport, whatever messages it delivers, the verifier can object to the log of
  a run that returned only on account of individual proofs or of the final round: schema,
  commitments, proposals and rejections always pass.
\<close>

theorem any_transport_audit:
  assumes "runtime_new c t tr agents sc mr = Inr rt"
    and "run c ops run_id (with_run_salt salt rt) = Some (Inr out)"
  shows "vr_reasons (verify_log c t (ro_log out)) =
    concat (map (verify_proof c (ro_log out)) (log_proofs (ro_log out))) @
    snd (verify_final_round c t (ro_log out))"
  using run_log_post [OF assms] by (simp add: run_post_def log_inv_reasons)

lemma any_transport_audit_witness:
  "\<exists>out. run sample_crates bus_ops ''demo'' (with_run_salt [] (demo_runtime demo_scenario)) =
      Some (Inr out) \<and>
    vr_reasons (verify_log sample_crates (demo_topology sample_crates) (ro_log out)) =
      concat (map (verify_proof sample_crates (ro_log out)) (log_proofs (ro_log out))) @
      snd (verify_final_round sample_crates (demo_topology sample_crates) (ro_log out))"
  using demo_run_returns any_transport_audit [OF demo_runtime_new] by blast



text \<open>
  C8: Over any transport, the log of a run that returned satisfies the log invariant up to its
  final round: one commitment per node and round, each from a configured node in its role;
  proposals by the elected proposer over committed participants; proofs that embed the logged
  commitment; no record beyond the final round.
\<close>

theorem run_log_invariant:
  assumes "runtime_new c t tr agents sc mr = Inr rt"
    and "run c ops run_id (with_run_salt salt rt) = Some (Inr out)"
  shows "log_inv c t (log_final_round (ro_log out)) (ro_log out) \<and>
    log_finalized (ro_log out) = ro_finalized out"
  using run_log_post [OF assms] by (simp add: run_post_def)

lemma run_log_invariant_witness:
  "\<exists>out. run sample_crates bus_ops ''demo'' (with_run_salt [] (demo_runtime demo_scenario)) =
      Some (Inr out) \<and>
    log_inv sample_crates (demo_topology sample_crates) (log_final_round (ro_log out)) (ro_log out) \<and>
    log_finalized (ro_log out) = ro_finalized out"
  using demo_run_returns run_log_invariant [OF demo_runtime_new] by blast

text \<open>
  C9: However many messages a transport delivers, a run that returns ends in a round below its
  limit (round 0 for a limit of 0), and its log holds at most one commitment per node of the
  topology and round up to the last.
\<close>

theorem run_bounds:
  assumes "runtime_new c t tr agents sc mr = Inr rt"
    and "run c ops run_id (with_run_salt salt rt) = Some (Inr out)"
  shows "unat (ro_final_round out) < max 1 (unat mr) \<and>
    length (log_commitments (ro_log out)) \<le> length (topo_nodes t) * Suc (unat (ro_final_round out))"
  using run_final_round_bound [OF assms] commitments_bound run_log_post(1) [OF assms]
  by (auto simp: run_post_def)

lemma run_bounds_witness:
  "\<exists>out. run sample_crates bus_ops ''demo'' (with_run_salt [] (demo_runtime demo_scenario)) =
      Some (Inr out) \<and> unat (ro_final_round out) < 4 \<and> length (log_commitments (ro_log out)) \<le> 16"
proof -
  obtain out where out: "run sample_crates bus_ops ''demo'' (with_run_salt [] (demo_runtime demo_scenario)) =
      Some (Inr out)"
    using demo_run_returns by blast
  have "unat (ro_final_round out) < 4" "length (log_commitments (ro_log out)) \<le> 4 * Suc (unat (ro_final_round out))"
    using run_bounds [OF demo_runtime_new out] by (simp_all add: demo_topology_def)
  moreover have "l \<le> 16" if "n < 4" "l \<le> 4 * Suc n" for n l :: nat using that by presburger
  ultimately show ?thesis using out by blast
qed

text \<open>
  C10: The verifier reports a log valid exactly when the log satisfies the declarative
  specification \<open>log_sound\<close>: its scans, reason strings and early returns decide
  nothing more and nothing less.
\<close>

theorem verifier_decides_soundness: "vr_valid (verify_log c t l) \<longleftrightarrow> log_sound c t l"
  by (rule verify_log_sel(1))

section \<open>The commands\<close>

text \<open>
  C11: What the demo command leaves on disk verifies: if demo exits with a code other than 1,
  running verify on the artifact directory exits with 0, whatever was in the directory before,
  as long as the topology file is not inside it.
\<close>

theorem demo_bundle_verifies:
  assumes "json_ok j" "hex_ok c" "fs_wf h"
    and "\<not> prefix (fs_key h (da_artifacts args)) (fs_key h (da_topology args))"
    and "dispatch_demo c j tm args h = (Exit n, h')" "n \<noteq> 1"
  shows "fst (dispatch_verify c j tm (da_artifacts args) h') = Exit 0"
  using assms by (rule demo_then_verify)

lemma demo_bundle_verifies_witness:
  "\<exists>n h'. dispatch_demo sample_crates sample_json sample_toml (sample_args False) sample_fs = (Exit n, h') \<and>
    n \<noteq> 1 \<and> fst (dispatch_verify sample_crates sample_json sample_toml ''o'' h') = Exit 0"
proof -
  obtain n h' where d: "dispatch_demo sample_crates sample_json sample_toml (sample_args False) sample_fs =
      (Exit n, h')" "n \<noteq> 1"
    using sample_demo_exit by blast
  have "fst (dispatch_verify sample_crates sample_json sample_toml (da_artifacts (sample_args False)) h') = Exit 0"
    by (rule demo_bundle_verifies [OF sample_json_ok sample_crates_parts(1) sample_fs_wf sample_apart d])
  with d show ?thesis by (auto simp: sample_args_def)
qed

text \<open>
  C12: A demo whose inputs load, fit the commitment layout and pair seeds with topology keys
  neither panics nor hangs nor has its log rejected: it fails with an error value and exit code
  1, or reports a valid log and exits with 0 if the run finalized and 2 if it aborted.
\<close>

theorem demo_exit_status:
  assumes "crates_ok c" "demo_load c tm args h = Inr (t, agents, sc)"
    and "committable t" "keys_paired t agents" "length (fs_nodes h) < 2 ^ 64 - 1"
  shows "(\<exists>e h'. demo c j tm args h = (Inl (CmdErr e), h')) \<and> fst (dispatch_demo c j tm args h) = Exit 1 \<or>
    (\<exists>r h'. demo c j tm args h = (Inr r, h') \<and> vr_valid (dr_report r) \<and>
       fst (dispatch_demo c j tm args h) = (if dr_finalized r then Exit 0 else Exit 2))"
  using assms by (rule demo_exit)

lemma demo_exit_status_witness:
  "fst (dispatch_demo sample_crates sample_json sample_toml (sample_args True) sample_fs) \<in> {Exit 0, Exit 2}"
  using demo_exit_status [OF sample_crates_ok sample_demo_load [where force = True] demo_committable demo_keys_paired sample_fs_small,
      where j = sample_json] sample_demo_returns [of True]
  by (auto split: if_splits)

text \<open>
  C13: The commands demo, verify and node print an error line on stderr exactly when they exit
  with code 1, a verdict of the verifier included.
\<close>

theorem error_line_iff_exit_1:
  "((\<exists>s \<in> set (demo_stderr tx i (fst (demo c j tm args h))). is_error_line s) \<longleftrightarrow>
      fst (dispatch_demo c j tm args h) = Exit 1) \<and>
   ((\<exists>s \<in> set (verify_stderr tx (fst (verify c j tm artifacts h))). is_error_line s) \<longleftrightarrow>
      fst (dispatch_verify c j tm artifacts h) = Exit 1) \<and>
   ((\<exists>s \<in> set (node_stderr tx i (fst (run_node c j tm to_vec env start boot turns nargs h))). is_error_line s) \<longleftrightarrow>
      fst (dispatch_node c j tm to_vec env start boot turns nargs h) = Exit 1)"
  by (intro conjI demo_error_line verify_error_line node_error_line)

text \<open>
  C14: Without --force the demo loses no file: either every entry is still where it was, or the
  artifact directory has moved as a whole to a place that was free, and every entry outside it
  is where it was.
\<close>

theorem rotation_loses_nothing:
  assumes "fs_wf h" "\<not> da_force args"
  shows "(\<forall>i v. fs_lookup h i = Some v \<longrightarrow> fs_lookup (snd (demo c j tm args h)) i = Some v) \<or>
    (\<exists>t. fs_lookup h t = None \<and>
       (\<forall>s v. fs_lookup h (fs_key h (da_artifacts args) @ s) = Some v \<longrightarrow>
          fs_lookup (snd (demo c j tm args h)) (t @ s) = Some v) \<and>
       (\<forall>i v. \<not> prefix (fs_key h (da_artifacts args)) i \<longrightarrow> fs_lookup h i = Some v \<longrightarrow>
          fs_lookup (snd (demo c j tm args h)) i = Some v))"
  using unforced_demo_loses_nothing [OF assms] by (simp add: loses_nothing_def)

lemma rotation_loses_nothing_witness:
  "fs_lookup (snd (demo sample_crates sample_json sample_toml (sample_args False) sample_fs)) [''c'', ''t.toml''] =
     Some (FFile ''T'')"
proof -
  have "fs_lookup sample_fs [''c'', ''t.toml''] = Some (FFile ''T'')"
    "\<not> prefix (fs_key sample_fs (da_artifacts (sample_args False))) [''c'', ''t.toml'']"
    by (simp_all add: sample_fs_def fs_lookup_def sample_dir sample_args_def)
  with rotation_loses_nothing [OF sample_fs_wf, where args = "sample_args False" and c = sample_crates
      and j = sample_json and tm = sample_toml]
  show ?thesis by (auto simp: sample_args_def)
qed

text \<open>
  C15: With --force the demo changes no entry of the file system besides the seven bundle files
  directly below the artifact directory, whether it succeeds or fails.
\<close>

theorem forced_demo_keeps_other_files:
  assumes "da_force args" "fs_lookup h k = Some v"
    and "\<forall>n \<in> set OWNED_FILES. k \<noteq> fs_key h (da_artifacts args) @ [n]"
  shows "fs_lookup (snd (demo c j tm args h)) k = Some v"
  using forced_demo_keeps [OF assms(1), of h c j tm] assms(2,3)
  by (auto simp: kept_def owned_key_def)

lemma forced_demo_keeps_other_files_witness:
  "fs_lookup (snd (demo sample_crates sample_json sample_toml (sample_args True) sample_fs)) [''o'', ''notes''] =
     Some (FFile ''N'')"
  by (rule forced_demo_keeps_other_files)
    (simp_all add: sample_args_def sample_fs_def fs_lookup_def sample_dir OWNED_FILES_def)

section \<open>The Vertex transport and its nodes\<close>

text \<open>
  C16: The bundle a node leaves verifies to the report the node itself returned, over whatever
  messages of 32-byte origins the Vertex transport delivered (every message the worker parses
  has one, lemma \<open>wire_origin_wf\<close>).
\<close>

theorem node_bundle_verifies:
  assumes "json_ok j" "hex_ok c"
    and "\<forall>cfg tr. start cfg = Inr tr \<longrightarrow> (\<forall>m \<in> set (vertex_queue tr). origin_wf m)"
    and "fst (run_node c j tm to_vec env start boot 1 args h) = Some (Inr res)"
  shows "\<exists>h'. verify c j tm (nr_artifacts_dir res)
    (snd (run_node c j tm to_vec env start boot 1 args h)) = (Inr (nr_report res), h')"
  by (rule run_node_verifies [OF assms(1,2) _ assms(4)]) (use assms(3) in blast)

lemma node_bundle_verifies_witness:
  "\<exists>res h'. fst sample_node_run = Some (Inr res) \<and>
    verify sample_crates sample_json sample_toml (nr_artifacts_dir res) (snd sample_node_run) =
      (Inr (nr_report res), h')"
proof -
  obtain res where r: "fst sample_node_run = Some (Inr res)" using sample_node_returns by blast
  have "vertex_queue idle_transport = []"
    by (simp add: idle_transport_def vertex_queue_def map_filter_simps)
  then have "\<forall>cfg tr. Inr idle_transport = Inr tr \<longrightarrow> (\<forall>m \<in> set (vertex_queue tr). origin_wf m)" by simp
  from node_bundle_verifies [OF sample_json_ok sample_crates_parts(1) this r [unfolded sample_node_run_def]]
  show ?thesis using r unfolding sample_node_run_def by blast
qed



text \<open>
  C19: Two nodes whose engines deliver prefixes of one transaction order hand the runtime
  message sequences of which one is a prefix of the other, whatever heartbeats, commands and
  sync points come in between.
\<close>

theorem workers_agree_on_order:
  assumes "prefix (ordered_transactions evs) order" "prefix (ordered_transactions evs') order"
  shows "prefix (wk_forwarded (fst (worker_loop f evs worker_start)))
      (wk_forwarded (fst (worker_loop f evs' worker_start))) \<or>
    prefix (wk_forwarded (fst (worker_loop f evs' worker_start)))
      (wk_forwarded (fst (worker_loop f evs worker_start)))"
  using assms by (rule workers_agree)

lemma workers_agree_on_order_witness:
  "prefix (wk_forwarded (fst (worker_loop sample_wire (worker_events 5) worker_start)))
      (wk_forwarded (fst (worker_loop sample_wire (worker_events 3) worker_start))) \<or>
    prefix (wk_forwarded (fst (worker_loop sample_wire (worker_events 3) worker_start)))
      (wk_forwarded (fst (worker_loop sample_wire (worker_events 5) worker_start)))"
  by (rule workers_agree_on_order [where order = "[HEARTBEAT_MARKER, [1], [2], [3]]"])
    (simp_all add: worker_events_def numeral_eq_Suc)

section \<open>The orchestrator\<close>









text \<open>
  C24: Across processes: what the orchestrator reads in the status file of a bundle is what the
  session of the node that wrote the bundle ended with, finalized or aborted.
\<close>

theorem orchestrator_reads_node_status:
  assumes "json_text_ok t"
    and "node_session c (serde_json c' tx de_text t) to_vec args job idx tr h = (Inr (res, tr'), h')"
  shows "status_finalized (read_value t) h' (nr_artifacts_dir res) = nr_finalized res \<and>
    (status_aborted (read_value t) h' (nr_artifacts_dir res) \<longleftrightarrow> nr_abort_reason res \<noteq> None)"
  using session_status [OF assms] by blast

lemma orchestrator_reads_node_status_witness:
  "\<exists>res tr' h'. node_session sample_crates sample_json (\<lambda>_. None) sample_node_args sample_job 0
      idle_transport sample_fs = (Inr (res, tr'), h') \<and>
    status_finalized (read_value sample_text) h' (nr_artifacts_dir res) = nr_finalized res"
proof -
  obtain res tr' h' where s: "node_session sample_crates sample_json (\<lambda>_. None) sample_node_args sample_job 0
      idle_transport sample_fs = (Inr (res, tr'), h')" using sample_session by blast
  from orchestrator_reads_node_status [OF sample_text_ok s [unfolded sample_json_def]] s
  show ?thesis by blast
qed

section \<open>The serialized forms\<close>

text \<open>
  C25: The coordination log survives its serialized form: what the derived serializer writes,
  the derived deserializer reads back as the same log without its index, and a log of the first
  schema, which ends with the receipts, reads as one without rejections that did not finalize.
\<close>

theorem log_json_roundtrip:
  assumes "json_text_ok t" "hex_ok c" "log_ids_wf l"
  shows "and_then (json_log (serde_json c tx de_text t) l) (json_log_parse (serde_json c tx de_text t)) =
      Inr (l\<lparr>log_commitment_keys := {}\<rparr>) \<and>
    json_log_parse (serde_json c tx de_text t) (jt_print t (JObject (legacy_log_fields c l))) =
      Inr (l\<lparr>log_rejections := [], log_final_round := 0, log_finalized := False, log_abort_reason := None,
             log_commitment_keys := {}\<rparr>)"
  using serde_log_reads_back [OF assms] serde_legacy_log_reads [OF assms] by blast

lemma log_json_roundtrip_witness:
  "\<exists>s. json_log sample_json (snd (append_commitment demo_commitment (log_new ''run''))) = Inr s \<and>
    (\<exists>l. json_log_parse sample_json s = Inr l \<and> log_commitments l = [demo_commitment])"
proof -
  let ?l = "snd (append_commitment demo_commitment (log_new ''run''))"
  have l: "?l = log_new ''run''\<lparr>log_commitment_keys := {(demo_id 0x11, 0)}, log_commitments := [demo_commitment]\<rparr>"
    by (simp add: append_commitment_def log_new_def commitment_key_def demo_commitment_def)
  have "log_ids_wf ?l"
    unfolding l by (simp add: log_ids_wf_def log_new_def commitment_ids_wf_def demo_commitment_def demo_id_def node_wf_def)
  then have "and_then (json_log sample_json ?l) (json_log_parse sample_json) = Inr (?l\<lparr>log_commitment_keys := {}\<rparr>)"
    using log_json_roundtrip [OF sample_text_ok sample_crates_parts(1)] unfolding sample_json_def by blast
  then show ?thesis by (auto simp: l)
qed



text \<open>
  C27: A well-formed topology written out in its serialized form, with absent options and empty
  claim lists skipped, loads as the same topology.
\<close>

theorem topology_file_roundtrip:
  assumes "hex_ok c" "topology_wf c t" "parse s = Inr (topology_ser c t)"
  shows "topology_from_toml_str (toml_topology (serde_toml c tx de_text parse)) redact c s = Inr t"
  using assms by (rule topology_value_reload)

lemma topology_file_roundtrip_witness:
  "topology_from_toml_str (toml_topology (serde_toml sample_crates sample_texts (\<lambda>_. ''bad'')
     (\<lambda>_. Inr (topology_ser sample_crates (demo_topology sample_crates))))) parse_redact sample_crates ''T'' =
   Inr (demo_topology sample_crates)"
  by (rule topology_file_roundtrip [OF sample_crates_parts(1) demo_topology_wf [OF sample_crates_parts(3)] refl])




section \<open>The circuits\<close>

text \<open>
  C30: For the public inputs the bridge computes from an honest intent, the bytes the Noir
  circuit hashes are the bytes the Rust code committed to, for requester and provider.
\<close>

theorem circuit_preimage_parity:
  assumes "requester_honest ri n" "requester_public_inputs_from_intent c ri n r th = Inr (rpub, rcommit)"
    and "provider_honest pri n'" "provider_public_inputs_from_intent c pri n' r' th' = Inr (ppub, pcommit)"
  shows "build_requester_preimage ri n r = Inr (requester_circuit_preimage rpub (requester_committed ri n)) \<and>
    build_provider_preimage pri n' r' = Inr (provider_circuit_preimage ppub (provider_committed pri n'))"
  using requester_inputs_honest(2) [OF assms(1,2)] provider_inputs_honest(2) [OF assms(3,4)] by (rule conjI)

lemma circuit_preimage_parity_witness:
  "\<exists>ppub pcommit. provider_public_inputs_from_intent sample_crates demo_signer (replicate 32 7) 3 500 =
      Inr (ppub, pcommit) \<and>
    build_provider_preimage demo_signer (replicate 32 7) 3 =
      Inr (provider_circuit_preimage ppub (provider_committed demo_signer (replicate 32 7)))"
proof -
  obtain rpub rcommit ppub pcommit where
    i: "requester_public_inputs_from_intent sample_crates demo_requester (replicate 32 7) 3 500 = Inr (rpub, rcommit)"
    "provider_public_inputs_from_intent sample_crates demo_signer (replicate 32 7) 3 500 = Inr (ppub, pcommit)"
    using demo_public_inputs by blast
  from circuit_preimage_parity [OF demo_honest(1) i(1) demo_honest(2) i(2)] i(2)
  show ?thesis by blast
qed





section \<open>The round machine\<close>

text \<open>
  C33: Every round machine reachable from a fresh one by accepted commitments, proposals and
  advances satisfies its invariant: commitments keyed by their node in its configured role and
  the active round, the replay index exactly the accepted hashes, all distinct, rounds strictly
  increasing, the proposal by the elected proposer over committed participants.
\<close>

theorem machine_reachable_invariant:
  assumes "rm_reachable c t m"
  shows "rm_inv c m \<and> rm_topology m = t"
  using assms by (rule rm_reachable_inv)

lemma machine_reachable_invariant_witness:
  "rm_inv sample_crates (snd (accept_commitment demo_commitment
     (round_machine_new (demo_topology sample_crates) 0)))"
  using machine_reachable_invariant [OF demo_machine_reachable] by blast

text \<open>
  C34: Once a commitment hash has been accepted, no commitment with that hash is ever accepted
  again, in this round or in any later one, from whichever node it comes.
\<close>

theorem replay_never_accepted:
  assumes "accept_commitment rec m = (Inr (), m1)"
    and "rtranclp (\<lambda>a b. \<exists>e. rm_step c a e b) m1 m2"
    and "cr_commitment_hex rec' = cr_commitment_hex rec"
  shows "\<exists>e. accept_commitment rec' m2 = (Inl e, m2)"
proof -
  have "rm_history_hex m1 \<subseteq> rm_history_hex m2"
    using assms(2) by (induction rule: rtranclp_induct) (auto dest: rm_step_history)
  then have "cr_commitment_hex rec' \<in> rm_history_hex m2"
    using assms(1,3) by (auto simp: accept_commitment_Inr)
  then have "\<exists>e. check_commitment rec' m2 = Inl e"
    by (cases "check_commitment rec' m2") (auto simp: check_commitment_Inr)
  then show ?thesis by (auto simp: accept_commitment_Inl)
qed

lemma replay_never_accepted_witness:
  "\<exists>e. accept_commitment demo_commitment (snd (accept_commitment demo_commitment
     (round_machine_new (demo_topology sample_crates) 0))) =
   (Inl e, snd (accept_commitment demo_commitment
     (round_machine_new (demo_topology sample_crates) 0)))"
  by (rule replay_never_accepted [OF demo_machine_accepts rtranclp.rtrancl_refl refl])

section \<open>Matching\<close>

text \<open>
  C35: Any run of as many consecutive rounds as there are providers elects every provider once.
\<close>

theorem proposer_rotation_fair:
  assumes "topology_wf c t" and "p \<in> set (provider_ids t)"
    and "unat r + length (provider_ids t) \<le> 2 ^ 64"
  shows "\<exists>k < length (provider_ids t). deterministic_proposer c t (r + word_of_nat k) = Inr p"
  using proposer_rotation_covers [OF distinct_provider_ids [OF assms(1)] assms(2,3), of c]
  by (force simp: deterministic_proposer_def provider_ids_def)

lemma proposer_rotation_fair_witness:
  "\<exists>k < length (provider_ids (demo_topology sample_crates)).
     deterministic_proposer sample_crates (demo_topology sample_crates) (5 + word_of_nat k) =
       Inr (demo_id 0x33)"
  by (rule proposer_rotation_fair [OF demo_topology_wf [OF sample_crates_parts(3)]])
    (simp_all add: demo_provider_ids)

text \<open>
  C36: A derived candidate names the requester, its required capability, and the least provider
  id among the commitments the predicate accepts.
\<close>

theorem candidate_is_least_feasible:
  assumes "derive_candidate r req ps = Inr (Some cd)"
  shows "cand_requester cd = cr_node_id req \<and>
    (\<exists>n. cr_public_intent req = PubRequester n r (cand_matched_capability cd)) \<and>
    cand_provider cd = Min {cr_node_id p |p. p \<in> set ps \<and>
      match_predicate (cr_public_intent req) (cr_public_intent p) r = Inr ()}"
proof -
  let ?S = "{cr_node_id p |p. p \<in> set ps \<and>
      match_predicate (cr_public_intent req) (cr_public_intent p) r = Inr ()}"
  note cd = derive_candidate_Some [OF assms]
  have "finite ?S" by (simp flip: set_feasible_providers)
  moreover have "cand_provider cd \<in> ?S" using cd(3) by force
  moreover have "cand_provider cd \<le> i" if "i \<in> ?S" for i using cd(4) that by auto
  ultimately have "cand_provider cd = Min ?S" by (intro Min_eqI [symmetric])
  with cd(1,2) show ?thesis by simp
qed

lemma candidate_is_least_feasible_witness:
  "\<exists>cd. derive_candidate 0 demo_commitment [demo_claim 0x33, demo_claim 0x22] = Inr (Some cd) \<and>
     cand_provider cd = Min {cr_node_id p |p. p \<in> set [demo_claim 0x33, demo_claim 0x22] \<and>
       match_predicate (cr_public_intent demo_commitment) (cr_public_intent p) 0 = Inr ()}"
  using demo_candidate candidate_is_least_feasible [OF demo_candidate] by blast

text \<open>
  C37: Equal requester preimages come from equal inputs: round, node, capability, budget and
  nonce are all determined by the bytes that are hashed.
\<close>

theorem requester_preimage_binds:
  assumes "node_wf (pri_node_id i)" "length nonce = 32" "node_wf (pri_node_id i')" "length nonce' = 32"
    and "build_requester_preimage i nonce r = Inr p" "build_requester_preimage i' nonce' r' = Inr p"
  shows "r = r' \<and> nonce = nonce' \<and> pri_node_id i = pri_node_id i' \<and>
    pri_required_capability i = pri_required_capability i' \<and>
    pri_budget_cents i = pri_budget_cents i'"
proof -
  have ok: "is_ok (commit_requester c i nonce r)" "is_ok (commit_requester c i' nonce' r')" for c
    using assms(5,6) by (simp_all add: commit_requester_def)
  then have len: "length (tag_bytes (pri_required_capability i)) \<le> 32"
    "length (tag_bytes (pri_required_capability i')) \<le> 32"
    by (simp_all add: commit_requester_ok_iff)
  have "requester_layout r (pri_node_id i) (pri_required_capability i)
      (expose (pri_budget_cents i)) nonce =
    requester_layout r' (pri_node_id i') (pri_required_capability i')
      (expose (pri_budget_cents i')) nonce'"
    using ok assms by (simp add: build_requester_layout commit_requester_ok_iff)
  with requester_layout_inject [OF assms(1,3,2,4) len] show ?thesis by (auto intro: secret.expand)
qed

lemma requester_preimage_binds_witness:
  "\<exists>p. build_requester_preimage demo_requester (replicate 32 7) 3 = Inr p \<and>
     ((3 :: round_id) = 3 \<and> replicate 32 7 = (replicate 32 7 :: bytes) \<and>
      pri_node_id demo_requester = pri_node_id demo_requester \<and>
      pri_required_capability demo_requester = pri_required_capability demo_requester \<and>
      pri_budget_cents demo_requester = pri_budget_cents demo_requester)"
proof -
  obtain p where p: "build_requester_preimage demo_requester (replicate 32 7) 3 = Inr p"
    using demo_preimages(1) by blast
  have n: "node_wf (pri_node_id demo_requester)" "length (replicate 32 (7 :: u8)) = 32"
    by (simp_all add: demo_requester_def requester_intent_new_def)
  show ?thesis using p requester_preimage_binds [OF n n p p] by blast
qed

section \<open>Configuration\<close>

text \<open>
  C38: A topology that loads is well formed: version 1, well-shaped tags, distinct 32-byte ids,
  exactly one requester with a configured required tag, at least one provider, each with
  configured claims, and valid public keys.
\<close>

theorem topology_load_wf:
  assumes "hex_ok c" and "topology_from_raw c raw = Inr t"
  shows "topology_wf c t"
  using assms by (rule topology_from_raw_wf)

lemma topology_load_wf_witness:
  "topology_wf sample_crates (demo_topology sample_crates)"
  by (rule topology_load_wf [OF sample_crates_parts(1) demo_topology_loads])

text \<open>
  C39: A loaded private-intent bundle has one agent for every topology node and no other, each
  in its node's role, with its node's capabilities, and a seed that matches the topology key
  where there is one.
\<close>

theorem loaded_bundle_covers_topology:
  assumes "hex_ok c" and "load_bundle c t bundle = Inr agents"
  shows "set (bt_keys agents) = nc_id ` set (topo_nodes t) \<and>
    (\<forall>i a. bt_get agents i = Some a \<longrightarrow> agent_loaded c t i a)"
  using load_bundle_Inr [OF assms] by (simp add: bundle_inv_def)

lemma loaded_bundle_covers_topology_witness:
  "set (bt_keys demo_agents) = nc_id ` set (topo_nodes (demo_topology sample_crates))"
  using loaded_bundle_covers_topology [OF sample_crates_parts(1) demo_bundle_loads] by blast

text \<open>
  C40: Against a well-formed topology, loading an entry panics at most through
  \<open>redact_tail\<close>, for a malformed node string cut inside a multi-byte character.
\<close>

theorem bundle_loader_panics_only_on_ids:
  assumes "topology_wf c t" and "load_agent c t raw out = Inl (PiPanic s)"
  shows "redact_tail (ra_node raw) = None"
  using load_agent_no_panic [OF assms(1)] assms(2) by blast

lemma bundle_loader_panics_only_on_ids_witness:
  "load_agent sample_crates (demo_topology sample_crates) demo_bad_agent [] =
     Inl (PiPanic ''byte index 12 is not a char boundary'') \<and>
   redact_tail (ra_node demo_bad_agent) = None"
  using demo_bad_agent_panics
    bundle_loader_panics_only_on_ids [OF demo_topology_wf [OF sample_crates_parts(3)] demo_bad_agent_panics]
  by blast

section \<open>Further facts\<close>

text \<open>
  Smaller facts about single operations, and those the properties above rest on or extend.
\<close>

theorem bus_run_verified:
  assumes "crates_ok c" "topology_wf c t" "agents_ok c t agents"
    and "runtime_new c t bus_new agents sc mr = Inr rt"
  shows "\<exists>out. run c bus_ops run_id (with_run_salt salt rt) = Some (Inr out) \<and>
    vr_reasons (verify_log c t (ro_log out)) = []"
  using bus_run_total [OF assms] bus_run_valid [OF assms] by fastforce

lemma bus_run_verified_witness:
  "\<exists>out. run sample_crates bus_ops ''demo'' (with_run_salt [] (demo_runtime demo_scenario)) =
      Some (Inr out) \<and>
    vr_reasons (verify_log sample_crates (demo_topology sample_crates) (ro_log out)) = []"
  by (rule bus_run_verified [OF sample_crates_ok demo_topology_wf [OF sample_crates_parts(3)]
      demo_agents_ok demo_runtime_new])

theorem run_is_run_with_transport:
  "run c ops run_id rt = map_option (map_sum id fst) (run_with_transport c ops run_id rt)"
proof (cases "run_rounds c ops (unat (rt_max_rounds rt)) 0 (rt\<lparr>rt_log := log_new run_id\<rparr>)")
  case (Some r)
  then show ?thesis by (cases r) (auto simp: run_def run_with_transport_def Let_def)
qed (simp add: run_def run_with_transport_def)

theorem log_duplicate_unreachable:
  assumes "rt_inv c t r rt" and "accept_commitment rec (rt_round_machine rt) = (Inr (), m)"
  shows "append_commitment rec (rt_log rt) =
    (Inr (), snd (append_commitment rec (rt_log rt))) \<and>
    handle_commitment r \<lparr>msg_origin = cr_node_id rec, msg_payload = PCommitment rec\<rparr> rt =
      observe (OnCommitment (cr_node_id rec) r)
        (rt\<lparr>rt_round_machine := m, rt_log := snd (append_commitment rec (rt_log rt))\<rparr>)"
  using accepted_not_in_log [OF assms] assms(2)
  by (cases "append_commitment rec (rt_log rt)") (simp add: handle_commitment_def)

lemma log_duplicate_unreachable_witness:
  "fst (append_commitment demo_commitment
     (rt_log (demo_runtime demo_scenario\<lparr>rt_log := log_new ''demo''\<rparr>))) = Inr ()"
  using log_duplicate_unreachable [OF demo_rt_inv demo_commitment_accepted]
  by (metis fst_conv)

theorem fallback_fails_only_at_last_round:
  "fst (advance_fallback m) =
     (if rm_current m = - 1 then Inl BackwardTransition else Inr ())"
  by (simp add: advance_fallback_Inr advance_fallback_last_round)

theorem proposer_exact:
  "proposer_for_round c r ps = Inr p \<longleftrightarrow>
     ps \<noteq> [] \<and> distinct ps \<and> p = ps ! (unat r mod length ps)"
  by (rule proposer_for_round_Inr)

theorem candidate_order_independent:
  assumes "mset ps = mset qs"
  shows "derive_candidate r req ps = derive_candidate r req qs"
  using assms by (rule derive_candidate_perm)

lemma candidate_order_independent_witness:
  "derive_candidate 0 demo_commitment [demo_claim 0x33, demo_claim 0x22] =
   derive_candidate 0 demo_commitment [demo_claim 0x22, demo_claim 0x33]"
  by (rule candidate_order_independent) simp

theorem match_predicate_exact:
  "match_predicate req prov r = Inr () \<longleftrightarrow>
     (\<exists>n m cap claims. req = PubRequester n r cap \<and> prov = PubProvider m r claims \<and>
        cap \<in> set claims)"
  by (rule match_predicate_Inr)

theorem receipt_message_binds:
  assumes "node_wf p" "node_wf q"
  shows "receipt_message p r a = receipt_message q s b \<longleftrightarrow> p = q \<and> r = s \<and> a = b"
  using assms by (rule receipt_message_inject)

lemma receipt_message_binds_witness:
  "receipt_message (demo_id 1) 7 ''GPU'' \<noteq> receipt_message (demo_id 1) 7 ''CPU''"
  by (simp add: receipt_message_binds)

theorem tampered_proof_rejected:
  assumes "hex_ok c" "node_wf n" "hex32 c (cr_commitment_hex commit)"
    and "bt_get (rm_commitments (rt_round_machine rt)) n = Some commit"
    and "q = build_proof_artifact c commit n r"
  shows "handle_proof c r \<lparr>msg_origin = n, msg_payload = PProof
      (q\<lparr>pf_public_inputs_hex := tamper_public_inputs c (pf_public_inputs_hex q)\<rparr>)\<rparr> rt =
    reject_msg r n ''proof'' ''public_inputs_mismatch'' rt"
  using tampered_extract [OF assms(1-3), of r] assms(4,5)
  by (simp add: handle_proof_def build_proof_artifact_def Let_def)

lemma tampered_proof_rejected_witness:
  "\<exists>rt q. handle_proof sample_crates 0 \<lparr>msg_origin = demo_id 0x11, msg_payload = PProof q\<rparr> rt =
     reject_msg 0 (demo_id 0x11) ''proof'' ''public_inputs_mismatch'' (rt :: ordered_bus runtime)"
proof -
  let ?m = "snd (accept_commitment demo_commitment
    (round_machine_new (demo_topology sample_crates) 0))"
  let ?rt = "demo_runtime demo_scenario\<lparr>rt_round_machine := ?m\<rparr>"
  have "bt_get (rm_commitments (rt_round_machine ?rt)) (demo_id 0x11) = Some demo_commitment"
    using demo_machine_accepts by (auto simp: accept_commitment_Inr demo_commitment_def bt_get_def)
  from tampered_proof_rejected [OF sample_crates_parts(1) _ demo_commitment_hex32 this refl, of 0]
  show ?thesis by (intro exI) simp
qed

theorem node_id_strict:
  assumes "hex_ok c"
  shows "node_from_str c s = Inr n \<longleftrightarrow> node_wf n \<and> s = to_hex c n"
  using assms by (rule node_hex.parse_iff)

lemma node_id_strict_witness:
  "node_from_str sample_crates (to_hex sample_crates (demo_id 0x11)) = Inr (demo_id 0x11)"
  by (simp add: node_id_strict [OF sample_crates_parts(1)])

theorem public_key_strict:
  assumes "hex_ok c"
  shows "pk_from_hex c s = Inr pk \<longleftrightarrow> pk_wf c pk \<and> s = pk_to_hex c pk"
  using assms by (rule pk_hex.parse_iff)

lemma public_key_strict_witness:
  "pk_from_hex sample_crates (pk_to_hex sample_crates (seed_public sample_crates demo_seed)) =
     Inr (seed_public sample_crates demo_seed)"
  by (simp add: public_key_strict [OF sample_crates_parts(1)]
      seed_public_wf [OF sample_crates_parts(3)])

theorem capability_tag_shape:
  "parse_shape s = Inr t \<longleftrightarrow> t = CapabilityTag s \<and> s \<noteq> [] \<and> is_ascii_uppercase (hd s) \<and>
     list_all tag_char_ok (tl s)"
  unfolding parse_shape_Inr tag_wf_def by (cases t) auto

theorem parse_error_no_echo: "CHR ''|'' \<notin> set (parse_redact raw)"
  by (rule parse_redact_no_pipe)

theorem ordered_bus_fifo:
  "drain_loop (tr_next_ordered bus_ops) (\<lambda>m s. s @ [m]) b [] =
     Some (\<lparr>bus_queue = []\<rparr>, bus_queue b)"
proof -
  have fold: "foldl (\<lambda>s m. s @ [m]) acc ms = acc @ ms" for acc ms :: "coordination_message list"
    by (induction ms arbitrary: acc) simp_all
  obtain t' where "drain_loop (tr_next_ordered bus_ops) (\<lambda>m s. s @ [m]) b [] = Some (t', bus_queue b)"
    "bus_queue t' = []"
    using bus.drain_fold [of "\<lambda>m s. s @ [m]" b "[]"] by (auto simp: fold)
  then show ?thesis by (cases t') simp
qed

theorem dropped_node_stays_dropped:
  assumes "has_dropped s n r" and "r \<le> r'"
  shows "has_dropped s n r'"
  using assms by (rule has_dropped_mono)

lemma dropped_node_stays_dropped_witness: "has_dropped demo_scenario (demo_id 0x44) 9"
  by (rule dropped_node_stays_dropped [of _ _ 1])
    (simp_all add: has_dropped_def demo_scenario_def)

theorem refused_operation_no_effect:
  "(is_ok (fst (accept_commitment rec m)) \<or> snd (accept_commitment rec m) = m) \<and>
   (is_ok (fst (accept_proposal c p m)) \<or> snd (accept_proposal c p m) = m) \<and>
   (is_ok (fst (advance_to r m)) \<or> snd (advance_to r m) = m) \<and>
   (is_ok (fst (advance_fallback m)) \<or> snd (advance_fallback m) = m)"
  by (auto simp: accept_commitment_def accept_proposal_def advance_to_def advance_fallback_def
      split: sum.split)

theorem provider_preimage_layout:
  assumes "node_wf (ppi_node_id i)" "length nonce = 32"
    and "is_ok (commit_provider c i nonce r)"
  shows "\<exists>p. build_provider_preimage i nonce r = Inr p \<and> length p = 264 \<and>
    p = provider_layout r (ppi_node_id i) (ppi_capability_claims i)
          (expose (ppi_reservation_cents i)) nonce"
  using assms build_provider_layout [OF assms(1,2)] length_provider_layout [OF assms(1,2)]
  by (simp add: commit_provider_ok_iff provider_preimage_len_def)

lemma provider_preimage_layout_witness:
  "\<exists>p. build_provider_preimage demo_signer (replicate 32 7) 3 = Inr p \<and> length p = 264 \<and>
     p = provider_layout 3 (ppi_node_id demo_signer) (ppi_capability_claims demo_signer)
           (expose (ppi_reservation_cents demo_signer)) (replicate 32 7)"
  by (rule provider_preimage_layout [where c = sample_crates])
    (simp_all add: commit_provider_ok_iff demo_signer_def provider_intent_new_def
      provider_with_signing_def tag_bytes_def)

theorem legacy_tag_not_a_signature:
  assumes "crates_ok c"
  shows "verify_receipt_ed25519 c pk (expected_signature_hex c p r cap) p r cap =
    Inl MalformedSignature"
  using legacy_not_ed25519 [OF assms] by (simp add: expected_signature_hex_def)

lemma legacy_tag_not_a_signature_witness:
  "verify_receipt_ed25519 sample_crates (seed_public sample_crates demo_seed)
     (expected_signature_hex sample_crates (demo_id 0x22) 3 ''GPU'') (demo_id 0x22) 3 ''GPU'' =
   Inl MalformedSignature"
  by (rule legacy_tag_not_a_signature [OF sample_crates_ok])

theorem quoted_values_redacted:
  assumes "double_quote \<notin> set pre" "single_quote \<notin> set pre"
    and "q = double_quote \<or> q = single_quote" "q \<notin> set secret"
  shows "redact_quoted (pre @ q # secret @ q # post) = pre @ redacted_marker @ redact_quoted post"
  using assms by (rule redact_quoted_secret)

lemma quoted_values_redacted_witness:
  "redact_quoted (''got '' @ single_quote # ''SECRET'' @ single_quote # '' here'') =
     ''got '' @ redacted_marker @ '' here''"
  using quoted_values_redacted [of "''got ''" single_quote "''SECRET''" "'' here''"]
  by (simp add: quote_chars)

theorem log_reload:
  assumes "log_indexed l"
  shows "reindex (l\<lparr>log_commitment_keys := ks\<rparr>) = (Inr (), l) \<and>
    (is_ok (fst (reindex l')) \<longleftrightarrow> distinct (map commitment_key (log_commitments l')))"
  using reindex_restores [OF assms] reindex_ok by blast

lemma log_reload_witness:
  "reindex ((snd (append_commitment demo_commitment (log_new ''demo'')))\<lparr>log_commitment_keys := {}\<rparr>) =
     (Inr (), snd (append_commitment demo_commitment (log_new ''demo'')))"
  using log_reload [OF log_register.accept_wf [OF log_indexed_new]] by blast

theorem log_lines_read_back:
  assumes "\<forall>n. CHR ''['' \<notin> set (to_hex c n)" "plain_event e"
  shows "parse_round_committed (node_line c (node_alias_at i) e) =
    (case e of OnRoundCommitted r _ \<Rightarrow> Some r | _ \<Rightarrow> None)"
  using assms by (rule parse_node_line)

lemma log_lines_read_back_witness:
  "parse_round_committed (node_line sample_crates (node_alias_at 3) (OnRoundCommitted 17 False)) = Some 17"
  using log_lines_read_back [of sample_crates "OnRoundCommitted 17 False" 3] sample_hex_plain
  by (simp add: plain_event_def)

theorem provider_preimage_binds:
  assumes "node_wf (ppi_node_id i)" "length nonce = 32" "node_wf (ppi_node_id i')" "length nonce' = 32"
    and "build_provider_preimage i nonce r = Inr p" "build_provider_preimage i' nonce' r' = Inr p"
  shows "r = r' \<and> nonce = nonce' \<and> ppi_node_id i = ppi_node_id i' \<and>
    ppi_capability_claims i = ppi_capability_claims i' \<and>
    ppi_reservation_cents i = ppi_reservation_cents i'"
proof -
  have ok: "is_ok (commit_provider c i nonce r)" "is_ok (commit_provider c i' nonce' r')" for c
    using assms(5,6) by (simp_all add: commit_provider_def)
  then have len: "length (ppi_capability_claims i) \<le> 4" "length (ppi_capability_claims i') \<le> 4"
    "\<forall>t \<in> set (ppi_capability_claims i). length (tag_bytes t) \<le> 32"
    "\<forall>t \<in> set (ppi_capability_claims i'). length (tag_bytes t) \<le> 32"
    by (simp_all add: commit_provider_ok_iff)
  have "provider_layout r (ppi_node_id i) (ppi_capability_claims i)
      (expose (ppi_reservation_cents i)) nonce =
    provider_layout r' (ppi_node_id i') (ppi_capability_claims i')
      (expose (ppi_reservation_cents i')) nonce'"
    using ok assms by (simp add: build_provider_layout commit_provider_ok_iff)
  with provider_layout_inject [OF assms(1,3,2,4) len] show ?thesis by (auto intro: secret.expand)
qed

lemma provider_preimage_binds_witness:
  "\<exists>p. build_provider_preimage demo_signer (replicate 32 7) 3 = Inr p \<and>
     ((3 :: round_id) = 3 \<and> replicate 32 7 = (replicate 32 7 :: bytes) \<and>
      ppi_node_id demo_signer = ppi_node_id demo_signer \<and>
      ppi_capability_claims demo_signer = ppi_capability_claims demo_signer \<and>
      ppi_reservation_cents demo_signer = ppi_reservation_cents demo_signer)"
proof -
  obtain p where p: "build_provider_preimage demo_signer (replicate 32 7) 3 = Inr p"
    using demo_preimages(2) by blast
  have n: "node_wf (ppi_node_id demo_signer)" "length (replicate 32 (7 :: u8)) = 32"
    by (simp_all add: demo_signer_def provider_intent_new_def provider_with_signing_def)
  show ?thesis using p provider_preimage_binds [OF n n p p] by blast
qed

theorem proof_artifact_verifies:
  assumes "crates_ok c" "node_wf n" "hex32 c (cr_commitment_hex commit)"
    and "find_commitment l n r = Some commit"
  shows "verify_proof c l (build_proof_artifact c commit n r) = []"
  using build_proof_artifact_sound [OF assms] by (simp add: verify_proof_Nil)

lemma proof_artifact_verifies_witness:
  "verify_proof sample_crates (snd (append_commitment demo_commitment (log_new ''demo'')))
     (build_proof_artifact sample_crates demo_commitment (demo_id 0x11) 0) = []"
  by (rule proof_artifact_verifies [OF sample_crates_ok _ demo_commitment_hex32])
    (simp_all add: append_commitment_def Let_def log_new_def find_commitment_def demo_commitment_def)

theorem receipt_sign_verify:
  assumes "crates_ok c" "seed_wf sd"
  shows "verify_receipt_ed25519 c (seed_public c sd)
    (hex_encode c (sign_receipt_ed25519 c sd p r cap)) p r cap = Inr ()"
  using assms by (rule verify_sign_receipt)

lemma receipt_sign_verify_witness:
  "verify_receipt_ed25519 sample_crates (seed_public sample_crates demo_seed)
     (hex_encode sample_crates (sign_receipt_ed25519 sample_crates demo_seed (demo_id 0x22) 3 ''GPU''))
     (demo_id 0x22) 3 ''GPU'' = Inr ()"
  by (rule receipt_sign_verify [OF sample_crates_ok demo_seed_wf])

theorem rotation_target_least:
  assumes "plain_name stem" "length (fs_nodes h) < 2 ^ 64 - 1"
  shows "\<exists>n. 1 \<le> n \<and> n < 2 ^ 64 \<and>
    free_target h parent stem 1 = Some (path_join parent (prev_name stem (word_of_nat n))) \<and>
    \<not> fs_exists h (path_join parent (prev_name stem (word_of_nat n))) \<and>
    (\<forall>m. 1 \<le> m \<and> m < n \<longrightarrow> fs_exists h (path_join parent (prev_name stem (word_of_nat m))))"
  using free_target_least [OF assms, of parent] fs_exists_target [OF assms(1)] by auto

lemma rotation_target_least_witness:
  "\<exists>n. free_target sample_fs [] ''o'' 1 = Some (path_join [] (prev_name ''o'' (word_of_nat n)))"
  using rotation_target_least [of "''o''" sample_fs "[]"] sample_fs_small
  by (auto simp: plain_name_def)

theorem topology_roundtrip:
  assumes "hex_ok c" and "topology_wf c t"
  shows "topology_from_raw c (topology_to_raw c t) = Inr t"
  using assms by (rule topology_reload)

lemma topology_roundtrip_witness:
  "topology_from_raw sample_crates (topology_to_raw sample_crates (demo_topology sample_crates)) =
     Inr (demo_topology sample_crates)"
  by (rule topology_roundtrip [OF sample_crates_parts(1) demo_topology_wf [OF sample_crates_parts(3)]])

theorem requester_preimage_layout:
  assumes "node_wf (pri_node_id i)" "length nonce = 32"
    and "is_ok (commit_requester c i nonce r)"
  shows "\<exists>p. build_requester_preimage i nonce r = Inr p \<and> length p = 153 \<and>
    p = requester_layout r (pri_node_id i) (pri_required_capability i)
          (expose (pri_budget_cents i)) nonce"
  using assms build_requester_layout [OF assms(1,2)] length_requester_layout [OF assms(1,2)]
  by (simp add: commit_requester_ok_iff requester_preimage_len_def)

lemma requester_preimage_layout_witness:
  "\<exists>p. build_requester_preimage demo_requester (replicate 32 7) 3 = Inr p \<and> length p = 153 \<and>
     p = requester_layout 3 (pri_node_id demo_requester) (pri_required_capability demo_requester)
           (expose (pri_budget_cents demo_requester)) (replicate 32 7)"
  by (rule requester_preimage_layout [where c = sample_crates])
    (simp_all add: commit_requester_ok_iff demo_requester_def requester_intent_new_def tag_bytes_def)

theorem specs_distinct:
  assumes "make_specs c keys args t = Inr specs" "length (topo_nodes t) \<le> 2 ^ 16"
  shows "distinct (map ns_alias specs) \<and> distinct (map ns_bind specs) \<and>
    (\<forall>i < length specs. unat (oa_base_port args) + i < 2 ^ 16 \<longrightarrow>
       ns_bind (specs ! i) = ''127.0.0.1:'' @ show_nat (unat (oa_base_port args) + i))"
  using make_specs_distinct [OF assms] make_specs_ports [OF assms(1)] by simp

lemma specs_distinct_witness:
  "\<exists>specs. make_specs sample_crates (\<lambda>_. (''s'', ''p'')) (failing_args\<lparr>oa_base_port := 65534\<rparr>)
      (demo_topology sample_crates) = Inr specs \<and> distinct (map ns_bind specs) \<and>
    ns_bind (specs ! 1) = ''127.0.0.1:'' @ show_nat 65535"
proof -
  obtain specs where specs: "make_specs sample_crates (\<lambda>_. (''s'', ''p'')) (failing_args\<lparr>oa_base_port := 65534\<rparr>)
      (demo_topology sample_crates) = Inr specs"
    by (simp add: make_specs_def demo_topology_def)
  then have len: "length specs = 4" by (auto simp: make_specs_def Let_def demo_topology_def)
  have "ns_bind (specs ! 1) = ''127.0.0.1:'' @ show_nat 65535"
    using specs_distinct [OF specs] len by (simp add: demo_topology_def)
  then show ?thesis using specs specs_distinct [OF specs] by (simp add: demo_topology_def)
qed

end
